theory Spec2Isabelle
  imports Complex_Main "HOL-Library.AList"
begin

section \<open>RenderAction (scene/composition/render-action.js)\<close>

text \<open>
  JavaScript objects are compared by identity (\<open>Set.has\<close>, \<open>Array.indexOf\<close>), so lights
  and entities are references (natural numbers) and their properties are read from a
  store that maps a reference to the object's fields.
\<close>

type_synonym light = nat

record Light =
  castShadows :: bool

record Layer =
  enabled :: bool
  lightsSet :: "light set"

record LayerComposition =
  layerList :: "Layer list"
  subLayerEnabled :: "bool list"

text \<open>
  The fields of a render action that \<open>isLayerEnabled\<close>, \<open>reset\<close> and
  \<open>collectDirectionalLights\<close> read or write. \<open>layerIndex\<close> is a JavaScript number, so
  it may be negative.
\<close>

record RenderAction =
  layerIndex :: int
  directionalLightsSet :: "light set"
  directionalLights :: "light list"

datatype js_error = TypeError

text \<open>
  \<open>isLayerEnabled\<close>: \<open>layerList[layerIndex]\<close> out of range is \<open>undefined\<close>, and reading
  \<open>.enabled\<close> of it throws; \<open>a && b\<close> is \<open>a\<close> when \<open>a\<close> is false and \<open>b\<close> otherwise, and
  \<open>subLayerEnabled[layerIndex]\<close> out of range is \<open>undefined\<close> (\<open>None\<close>).
\<close>

definition isLayerEnabled :: "RenderAction \<Rightarrow> LayerComposition \<Rightarrow> js_error + bool option" where
  "isLayerEnabled ra layerComposition =
     (let i = layerIndex ra in
      if 0 \<le> i \<and> i < int (length (layerList layerComposition)) then
        (let layer = layerList layerComposition ! nat i in
         if enabled layer then
           (if i < int (length (subLayerEnabled layerComposition))
            then Inr (Some (subLayerEnabled layerComposition ! nat i))
            else Inr None)
         else Inr (Some False))
      else Inl TypeError)"

definition reset :: "RenderAction \<Rightarrow> RenderAction" where
  "reset ra = ra\<lparr>directionalLightsSet := {}, directionalLights := []\<rparr>"

text \<open>The inner loop of \<open>collectDirectionalLights\<close>, over the camera's layers.\<close>

fun collectLayers :: "Layer list \<Rightarrow> light \<Rightarrow> RenderAction \<Rightarrow> RenderAction" where
  "collectLayers [] light ra = ra"
| "collectLayers (layer # cameraLayers) light ra =
     collectLayers cameraLayers light
       (if light \<in> lightsSet layer then
          (if light \<notin> directionalLightsSet ra then
             ra\<lparr>directionalLightsSet := insert light (directionalLightsSet ra),
                directionalLights := directionalLights ra @ [light]\<rparr>
           else ra)
        else ra)"

text \<open>The outer loop, over \<open>dirLights\<close>; \<open>L\<close> is the store of the light objects.\<close>

fun collectLights :: "(light \<Rightarrow> Light) \<Rightarrow> Layer list \<Rightarrow> light list \<Rightarrow> RenderAction \<Rightarrow> RenderAction" where
  "collectLights L cameraLayers [] ra = ra"
| "collectLights L cameraLayers (light # dirLights) ra =
     collectLights L cameraLayers dirLights
       (if castShadows (L light) then collectLayers cameraLayers light ra else ra)"

definition collectDirectionalLights ::
  "(light \<Rightarrow> Light) \<Rightarrow> Layer list \<Rightarrow> light list \<Rightarrow> light list \<Rightarrow> RenderAction \<Rightarrow> RenderAction" where
  "collectDirectionalLights L cameraLayers dirLights allLights ra =
     collectLights L cameraLayers dirLights
       (ra\<lparr>directionalLightsSet := {}, directionalLights := []\<rparr>)"

definition hasDirectionalShadowLights :: "RenderAction \<Rightarrow> bool" where
  "hasDirectionalShadowLights ra = (length (directionalLights ra) > 0)"

section \<open>RigidBodyComponentSystem: data\<close>

type_synonym entity_ref = nat

text \<open>
  The event handler of a component (\<open>core/event-handler.js\<close>) is not among the sources:
  \<open>hasEvent\<close> is taken as a field, and \<open>fire\<close> is recorded in the log \<open>fired\<close> of the
  system (the callbacks themselves are not run).
\<close>

record Component =
  hasEvent :: "string \<Rightarrow> bool"

text \<open>
  What the system reads of an entity: \<open>getGuid()\<close>, the \<open>collision\<close> and \<open>rigidbody\<close>
  components (\<open>None\<close> when the entity has none) and whether \<open>entity.trigger\<close> is set.
\<close>

record Entity =
  getGuid :: string
  collision :: "Component option"
  rigidbody :: "Component option"
  trigger :: bool

datatype 'n Vec3 = Vec3 'n 'n 'n

datatype 'n btVector3 = btVector3 'n 'n 'n

record 'n btManifoldPoint =
  m_localPointA :: "'n btVector3"
  m_localPointB :: "'n btVector3"
  positionWorldOnA :: "'n btVector3"
  positionWorldOnB :: "'n btVector3"
  m_normalWorldOnB :: "'n btVector3"
  appliedImpulse :: 'n
  getDistance :: 'n

record 'n ContactPoint =
  localPoint :: "'n Vec3"
  localPointOther :: "'n Vec3"
  point :: "'n Vec3"
  pointOther :: "'n Vec3"
  normal :: "'n Vec3"
  impulse :: 'n

record 'n ContactResult =
  other :: entity_ref
  contacts :: "'n ContactPoint list"

text \<open>
  \<open>SingleContactResult a b impulse localPointA localPointB pointA pointB normal\<close>
\<close>

datatype 'n SingleContactResult =
  SingleContactResult entity_ref entity_ref 'n "'n Vec3" "'n Vec3" "'n Vec3" "'n Vec3" "'n Vec3"

text \<open>
  A wrapped \<open>Ammo.btRigidBody\<close>: the \<open>entity\<close> property the engine attaches to it
  (\<open>None\<close> when it is null or undefined) and \<open>getCollisionFlags()\<close>.
\<close>

record btRigidBody =
  body_entity :: "entity_ref option"
  getCollisionFlags :: int

record 'n btPersistentManifold =
  getBody0 :: btRigidBody
  getBody1 :: btRigidBody
  contactPoints :: "'n btManifoldPoint list"

text \<open>An entry \<open>{ others: [], entity: entity }\<close> of \<open>collisions\<close> and \<open>frameCollisions\<close>.\<close>

record CollisionEntry =
  others :: "entity_ref list"
  entity :: entity_ref

text \<open>A call \<open>target.fire(name, argument)\<close>.\<close>

datatype target = OnCollision entity_ref | OnRigidbody entity_ref | OnSystem

datatype 'n argument =
  ArgEntity entity_ref
  | ArgContactResult "'n ContactResult"
  | ArgSingleContactResult "'n SingleContactResult"

datatype 'n fired = Fired target string "'n argument"

text \<open>
  The optional entry points of the loaded build of ammo.js that the system tests for.
\<close>

record Ammo =
  has_setInternalTickCallback :: bool
  has_AllHitsRayResultCallback :: bool
  has_ConcreteContactResultCallback :: bool

text \<open>
  The dynamics world the system creates: whether it exposes \<open>setInternalTickCallback\<close>
  and whether a callback has been registered with it.
\<close>

record btDiscreteDynamicsWorld =
  setInternalTickCallback :: bool
  internalTickCallback :: bool

type_synonym component_ref = nat

datatype 'n Quat = Quat 'n 'n 'n 'n

text \<open>A rotation argument is a \<open>Vec3\<close> of Euler angles or a \<open>Quat\<close>.\<close>

datatype 'n rotation = AsEuler "'n Vec3" | AsQuat "'n Quat"

text \<open>
  The collision shapes the casts construct, with the arguments of their constructors:
  \<open>new Ammo.btBoxShape(halfExtents)\<close> and \<open>new Ammo.btCapsuleShapeZ(radius, height)\<close>.
\<close>

datatype 'n btCollisionShape = BtBoxShape "'n Vec3" | BtCapsuleShapeZ 'n 'n

text \<open>
  The calls the system makes on ammo.js, on its components, on the debug log and on
  the application, in the order in which it makes them; \<open>InternalTick\<close> records that
  the dynamics world invoked the registered callback during \<open>stepSimulation\<close>, and
  \<open>CheckForCollisions\<close> that \<open>onUpdate\<close> called \<open>_checkForCollisions\<close> itself.
\<close>

datatype 'n call =
  New string
  | Destroy string
  | AddFunction
  | SetInternalTickCallback
  | DebugWarn
  | DebugAssert bool
  | ComponentOnLibraryLoaded
  | SystemsOn
  | SystemsOff
  | SetGravity 'n 'n 'n
  | UpdateTransform component_ref
  | UpdateCompound component_ref
  | UpdateKinematic component_ref
  | UpdateDynamic component_ref
  | StepSimulation 'n 'n 'n
  | InternalTick
  | CheckForCollisions
  | RayTest
  | CreateBody
  | SetCollisionShape "'n btCollisionShape option"
  | SetWorldTransform "'n Vec3" "'n rotation"
  | ForceActivationState
  | ContactTest

text \<open>
  \<open>collisions\<close> and \<open>frameCollisions\<close> are objects keyed by guid; they are association
  lists in the order in which the keys were added, which is the order in which
  \<open>for (guid in ...)\<close> enumerates string keys. \<open>systemHasEvent\<close> is \<open>this.hasEvent\<close>,
  \<open>fired\<close> the log of the calls of \<open>fire\<close> and \<open>calls\<close> the log of the other calls.
  \<open>dynamic\<close>, \<open>kinematic\<close>, \<open>triggers\<close> and \<open>compounds\<close> are the private arrays of
  components, and \<open>shapeTestBody\<close> tells whether the module's permanent body for shape
  tests has been created. The profiler statistics are left out.
\<close>

record 'n RigidBodyComponentSystem =
  collisions :: "(string \<times> CollisionEntry) list"
  frameCollisions :: "(string \<times> CollisionEntry) list"
  systemHasEvent :: "string \<Rightarrow> bool"
  fired :: "'n fired list"
  maxSubSteps :: 'n
  fixedTimeStep :: 'n
  gravity :: "'n Vec3"
  gravityFloat32 :: "'n list"
  dynamic :: "component_ref list"
  kinematic :: "component_ref list"
  triggers :: "component_ref list"
  compounds :: "component_ref list"
  dynamicsWorld :: "btDiscreteDynamicsWorld option"
  shapeTestBody :: bool
  calls :: "'n call list"

text \<open>
  The system after its field initialisers and its constructor, which registers the
  callbacks for \<open>beforeremove\<close> and \<open>remove\<close>.
\<close>

definition constructor :: "'n::{zero,numeral,inverse,uminus} RigidBodyComponentSystem" where
  "constructor =
     \<lparr>collisions = [], frameCollisions = [],
      systemHasEvent = (\<lambda>n. n = ''beforeremove'' \<or> n = ''remove''),
      fired = [],
      maxSubSteps = 10, fixedTimeStep = 1 / 60,
      gravity = Vec3 0 (- (981 / 100)) 0, gravityFloat32 = [0, 0, 0],
      dynamic = [], kinematic = [], triggers = [], compounds = [],
      dynamicsWorld = None, shapeTestBody = False, calls = []\<rparr>"

section \<open>RigidBodyComponentSystem: collision bookkeeping\<close>

definition fire :: "target \<Rightarrow> string \<Rightarrow> 'n argument \<Rightarrow>
    'n RigidBodyComponentSystem \<Rightarrow> 'n RigidBodyComponentSystem" where
  "fire t name arg s = s\<lparr>fired := fired s @ [Fired t name arg]\<rparr>"

text \<open>
  \<open>_storeCollision(entity, other)\<close>; \<open>E\<close> is the store of the entity objects. The result
  is \<open>isNewCollision\<close> and the system after the call.
\<close>

definition storeCollision :: "(entity_ref \<Rightarrow> Entity) \<Rightarrow> entity_ref \<Rightarrow> entity_ref \<Rightarrow>
    'n RigidBodyComponentSystem \<Rightarrow> bool \<times> 'n RigidBodyComponentSystem" where
  "storeCollision E ent oth s =
     (let guid = getGuid (E ent);
          c = (case map_of (collisions s) guid of
                 Some c \<Rightarrow> c | None \<Rightarrow> \<lparr>others = [], entity = ent\<rparr>);
          isNewCollision = (oth \<notin> set (others c));
          c' = (if isNewCollision then c\<lparr>others := others c @ [oth]\<rparr> else c);
          f = (case map_of (frameCollisions s) guid of
                 Some f \<Rightarrow> f | None \<Rightarrow> \<lparr>others = [], entity = ent\<rparr>);
          f' = f\<lparr>others := others f @ [oth]\<rparr>
      in (isNewCollision,
          s\<lparr>collisions := AList.update guid c' (collisions s),
            frameCollisions := AList.update guid f' (frameCollisions s)\<rparr>))"

fun toVec3 :: "'n btVector3 \<Rightarrow> 'n Vec3" where
  "toVec3 (btVector3 x y z) = Vec3 x y z"

definition createContactPointFromAmmo :: "'n btManifoldPoint \<Rightarrow> 'n ContactPoint" where
  "createContactPointFromAmmo contactPoint =
     \<lparr>localPoint = toVec3 (m_localPointA contactPoint),
      localPointOther = toVec3 (m_localPointB contactPoint),
      point = toVec3 (positionWorldOnA contactPoint),
      pointOther = toVec3 (positionWorldOnB contactPoint),
      normal = toVec3 (m_normalWorldOnB contactPoint),
      impulse = appliedImpulse contactPoint\<rparr>"

definition createReverseContactPointFromAmmo :: "'n btManifoldPoint \<Rightarrow> 'n ContactPoint" where
  "createReverseContactPointFromAmmo contactPoint =
     \<lparr>localPoint = toVec3 (m_localPointB contactPoint),
      localPointOther = toVec3 (m_localPointA contactPoint),
      point = toVec3 (positionWorldOnB contactPoint),
      pointOther = toVec3 (positionWorldOnA contactPoint),
      normal = toVec3 (m_normalWorldOnB contactPoint),
      impulse = appliedImpulse contactPoint\<rparr>"

definition createSingleContactResult :: "entity_ref \<Rightarrow> entity_ref \<Rightarrow> 'n ContactPoint \<Rightarrow>
    'n SingleContactResult" where
  "createSingleContactResult a b contactPoint =
     SingleContactResult a b (impulse contactPoint)
       (localPoint contactPoint) (localPointOther contactPoint)
       (point contactPoint) (pointOther contactPoint) (normal contactPoint)"

definition createContactResult :: "entity_ref \<Rightarrow> 'n ContactPoint list \<Rightarrow> 'n ContactResult" where
  "createContactResult oth cs = \<lparr>other = oth, contacts = cs\<rparr>"

text \<open>
  \<open>_hasContactEvent(entity)\<close>: only the truth value of the result is used.
\<close>

definition hasContactEvent :: "(entity_ref \<Rightarrow> Entity) \<Rightarrow> entity_ref \<Rightarrow> bool" where
  "hasContactEvent E ent =
     (if (case collision (E ent) of
            None \<Rightarrow> False
          | Some c \<Rightarrow> hasEvent c ''collisionstart'' \<or> hasEvent c ''collisionend'' \<or> hasEvent c ''contact'')
      then True
      else (case rigidbody (E ent) of
              None \<Rightarrow> False
            | Some r \<Rightarrow> hasEvent r ''collisionstart'' \<or> hasEvent r ''collisionend'' \<or> hasEvent r ''contact''))"

text \<open>
  \<open>component && (component.hasEvent('triggerenter') || component.hasEvent('triggerleave'))\<close>,
  which \<open>_checkForCollisions\<close> computes for both components of both entities.
\<close>

definition hasTriggerEvents :: "Component option \<Rightarrow> bool" where
  "hasTriggerEvents component =
     (case component of
        None \<Rightarrow> False
      | Some c \<Rightarrow> hasEvent c ''triggerenter'' \<or> hasEvent c ''triggerleave'')"

text \<open>
  The truth value of \<open>flags & BODYFLAG_NORESPONSE_OBJECT\<close>. The constant is declared in
  \<open>constants.js\<close>, which is not among the sources: it is the parameter \<open>F\<close>.
\<close>

definition noResponse :: "int \<Rightarrow> int \<Rightarrow> bool" where
  "noResponse F flags = (and flags F \<noteq> 0)"

text \<open>
  The branch of \<open>_checkForCollisions\<close> for a manifold with a no-response body is four
  blocks that pass \<open>newCollision\<close> and the system on. The first two are the same code
  with the roles of \<open>e0\<close> and \<open>e1\<close> swapped (\<open>if (e0Events)\<close>, \<open>if (e1Events)\<close>):
  the entity's pair is stored, and \<open>triggerenter\<close> is fired on its collision component
  when the pair is new and the other body is not a no-response body.
\<close>

definition triggerCollisionEvents :: "(entity_ref \<Rightarrow> Entity) \<Rightarrow> int \<Rightarrow> entity_ref \<Rightarrow> entity_ref \<Rightarrow>
    int \<Rightarrow> bool \<times> 'n RigidBodyComponentSystem \<Rightarrow> bool \<times> 'n RigidBodyComponentSystem" where
  "triggerCollisionEvents E F ent oth flagsOther acc =
     (case acc of (newCollision, s) \<Rightarrow>
        if hasTriggerEvents (collision (E ent)) then
          (let (newCollision, s) = storeCollision E ent oth s in
           (newCollision,
            if newCollision \<and> \<not> noResponse F flagsOther
            then fire (OnCollision ent) ''triggerenter'' (ArgEntity oth) s else s))
        else (newCollision, s))"

text \<open>
  The last two blocks (\<open>if (e0BodyEvents)\<close>, \<open>if (e1BodyEvents)\<close>): unless
  \<open>newCollision\<close> is already true, the pair is stored under the other entity; then
  \<open>triggerenter\<close> is fired on the entity's rigidbody component when \<open>newCollision\<close> is
  true.
\<close>

definition triggerBodyEvents :: "(entity_ref \<Rightarrow> Entity) \<Rightarrow> entity_ref \<Rightarrow> entity_ref \<Rightarrow>
    bool \<times> 'n RigidBodyComponentSystem \<Rightarrow> bool \<times> 'n RigidBodyComponentSystem" where
  "triggerBodyEvents E ent oth acc =
     (case acc of (newCollision, s) \<Rightarrow>
        if hasTriggerEvents (rigidbody (E ent)) then
          (let (newCollision, s) =
                 (if \<not> newCollision then storeCollision E oth ent s else (newCollision, s)) in
           (newCollision,
            if newCollision
            then fire (OnRigidbody ent) ''triggerenter'' (ArgEntity oth) s else s))
        else (newCollision, s))"

text \<open>\<open>newCollision\<close> starts undefined, which is false where it is tested.\<close>

definition triggerContacts :: "(entity_ref \<Rightarrow> Entity) \<Rightarrow> int \<Rightarrow> entity_ref \<Rightarrow> entity_ref \<Rightarrow>
    int \<Rightarrow> int \<Rightarrow> 'n RigidBodyComponentSystem \<Rightarrow> 'n RigidBodyComponentSystem" where
  "triggerContacts E F e0 e1 flags0 flags1 s =
     snd (triggerBodyEvents E e1 e0
           (triggerBodyEvents E e0 e1
             (triggerCollisionEvents E F e1 e0 flags0
               (triggerCollisionEvents E F e0 e1 flags1 (False, s)))))"

text \<open>
  The loop over the contact points of a manifold: \<open>perEntity\<close> is \<open>e0Events || e1Events\<close>;
  the accumulator is \<open>forwardContacts\<close>, \<open>reverseContacts\<close> and the system.
\<close>

fun contactLoop :: "bool \<Rightarrow> bool \<Rightarrow> entity_ref \<Rightarrow> entity_ref \<Rightarrow> 'n btManifoldPoint list \<Rightarrow>
    'n ContactPoint list \<times> 'n ContactPoint list \<times> 'n RigidBodyComponentSystem \<Rightarrow>
    'n ContactPoint list \<times> 'n ContactPoint list \<times> 'n RigidBodyComponentSystem" where
  "contactLoop perEntity globalEvents e0 e1 [] acc = acc"
| "contactLoop perEntity globalEvents e0 e1 (btContactPoint # rest) (forwardContacts, reverseContacts, s) =
     (let contactPoint = createContactPointFromAmmo btContactPoint;
          (forwardContacts, reverseContacts) =
            (if perEntity
             then (forwardContacts @ [contactPoint],
                   reverseContacts @ [createReverseContactPointFromAmmo btContactPoint])
             else (forwardContacts, reverseContacts));
          s = (if globalEvents
               then fire OnSystem ''contact''
                      (ArgSingleContactResult (createSingleContactResult e0 e1 contactPoint)) s
               else s)
      in contactLoop perEntity globalEvents e0 e1 rest (forwardContacts, reverseContacts, s))"

text \<open>
  The block \<open>if (e0Events) { ... }\<close>, which the source repeats for \<open>e1\<close> with the roles
  swapped: store the pair, then fire \<open>contact\<close> and, for a new pair, \<open>collisionstart\<close>
  on the components the entity has.
\<close>

definition contactEvents :: "(entity_ref \<Rightarrow> Entity) \<Rightarrow> entity_ref \<Rightarrow> entity_ref \<Rightarrow>
    'n ContactPoint list \<Rightarrow> 'n RigidBodyComponentSystem \<Rightarrow> 'n RigidBodyComponentSystem" where
  "contactEvents E ent oth cs s =
     (let result = createContactResult oth cs;
          (newCollision, s) = storeCollision E ent oth s;
          s = (case collision (E ent) of
                 None \<Rightarrow> s
               | Some c \<Rightarrow>
                   (let s = fire (OnCollision ent) ''contact'' (ArgContactResult result) s in
                    if newCollision
                    then fire (OnCollision ent) ''collisionstart'' (ArgContactResult result) s
                    else s));
          s = (case rigidbody (E ent) of
                 None \<Rightarrow> s
               | Some r \<Rightarrow>
                   (let s = fire (OnRigidbody ent) ''contact'' (ArgContactResult result) s in
                    if newCollision
                    then fire (OnRigidbody ent) ''collisionstart'' (ArgContactResult result) s
                    else s))
      in s)"

text \<open>The body of the loop over the manifolds of the dispatcher.\<close>

definition checkManifold :: "(entity_ref \<Rightarrow> Entity) \<Rightarrow> int \<Rightarrow> 'n RigidBodyComponentSystem \<Rightarrow>
    'n btPersistentManifold \<Rightarrow> 'n RigidBodyComponentSystem" where
  "checkManifold E F s manifold =
     (case (body_entity (getBody0 manifold), body_entity (getBody1 manifold)) of
        (Some e0, Some e1) \<Rightarrow>
          (let flags0 = getCollisionFlags (getBody0 manifold);
               flags1 = getCollisionFlags (getBody1 manifold);
               numContacts = length (contactPoints manifold)
           in if numContacts > 0 then
                (if noResponse F flags0 \<or> noResponse F flags1 then
                   triggerContacts E F e0 e1 flags0 flags1 s
                 else
                   (let e0Events = hasContactEvent E e0;
                        e1Events = hasContactEvent E e1;
                        globalEvents = systemHasEvent s ''contact''
                    in if globalEvents \<or> e0Events \<or> e1Events then
                         (let (forwardContacts, reverseContacts, s) =
                                contactLoop (e0Events \<or> e1Events) globalEvents e0 e1
                                  (contactPoints manifold) ([], [], s);
                              s = (if e0Events then contactEvents E e0 e1 forwardContacts s else s);
                              s = (if e1Events then contactEvents E e1 e0 reverseContacts s else s)
                          in s)
                       else s))
              else s)
      | _ \<Rightarrow> s)"

fun checkManifolds :: "(entity_ref \<Rightarrow> Entity) \<Rightarrow> int \<Rightarrow> 'n btPersistentManifold list \<Rightarrow>
    'n RigidBodyComponentSystem \<Rightarrow> 'n RigidBodyComponentSystem" where
  "checkManifolds E F [] s = s"
| "checkManifolds E F (manifold # manifolds) s =
     checkManifolds E F manifolds (checkManifold E F s manifold)"

text \<open>
  What \<open>_cleanOldCollisions\<close> fires for a pair it has just removed from the entry of
  \<open>ent\<close>.
\<close>

definition endEvents :: "(entity_ref \<Rightarrow> Entity) \<Rightarrow> entity_ref \<Rightarrow> entity_ref \<Rightarrow>
    'n RigidBodyComponentSystem \<Rightarrow> 'n RigidBodyComponentSystem" where
  "endEvents E ent oth s =
     (if trigger (E ent) then
        (let s = (case collision (E ent) of
                    None \<Rightarrow> s
                  | Some c \<Rightarrow> fire (OnCollision ent) ''triggerleave'' (ArgEntity oth) s);
             s = (case rigidbody (E oth) of
                    None \<Rightarrow> s
                  | Some r \<Rightarrow> fire (OnRigidbody oth) ''triggerleave'' (ArgEntity ent) s)
         in s)
      else if \<not> trigger (E oth) then
        (let s = (case rigidbody (E ent) of
                    None \<Rightarrow> s
                  | Some r \<Rightarrow> fire (OnRigidbody ent) ''collisionend'' (ArgEntity oth) s);
             s = (case collision (E ent) of
                    None \<Rightarrow> s
                  | Some c \<Rightarrow> fire (OnCollision ent) ''collisionend'' (ArgEntity oth) s)
         in s)
      else s)"

text \<open>
  The loop \<open>while (i--)\<close> over the \<open>others\<close> array of one entry, from its last index down:
  \<open>cleanOthers E frameCollision ent i (os, s)\<close> still has the indices below \<open>i\<close> to
  visit. \<open>others.splice(i, 1)\<close> is \<open>take i os @ drop (Suc i) os\<close>.
\<close>

fun cleanOthers :: "(entity_ref \<Rightarrow> Entity) \<Rightarrow> CollisionEntry option \<Rightarrow> entity_ref \<Rightarrow> nat \<Rightarrow>
    entity_ref list \<times> 'n RigidBodyComponentSystem \<Rightarrow>
    entity_ref list \<times> 'n RigidBodyComponentSystem" where
  "cleanOthers E frameCollision ent 0 (os, s) = (os, s)"
| "cleanOthers E frameCollision ent (Suc i) (os, s) =
     (let oth = os ! i in
      if (case frameCollision of None \<Rightarrow> True | Some f \<Rightarrow> oth \<notin> set (others f)) then
        cleanOthers E frameCollision ent i (take i os @ drop (Suc i) os, endEvents E ent oth s)
      else cleanOthers E frameCollision ent i (os, s))"

text \<open>
  The body of the loop \<open>for (const guid in this.collisions)\<close>. The loop visits the
  keys the object had when it started; a key deleted in the meantime is not visited.
\<close>

definition cleanGuid :: "(entity_ref \<Rightarrow> Entity) \<Rightarrow> string \<Rightarrow>
    'n RigidBodyComponentSystem \<Rightarrow> 'n RigidBodyComponentSystem" where
  "cleanGuid E guid s =
     (case map_of (collisions s) guid of
        None \<Rightarrow> s
      | Some coll \<Rightarrow>
          (let frameCollision = map_of (frameCollisions s) guid;
               (os, s) = cleanOthers E frameCollision (entity coll)
                           (length (others coll)) (others coll, s);
               s = s\<lparr>collisions := AList.update guid (coll\<lparr>others := os\<rparr>) (collisions s)\<rparr>;
               s = (if length os = 0
                    then s\<lparr>collisions := AList.delete guid (collisions s)\<rparr> else s)
           in s))"

fun cleanGuids :: "(entity_ref \<Rightarrow> Entity) \<Rightarrow> string list \<Rightarrow>
    'n RigidBodyComponentSystem \<Rightarrow> 'n RigidBodyComponentSystem" where
  "cleanGuids E [] s = s"
| "cleanGuids E (guid # guids) s = cleanGuids E guids (cleanGuid E guid s)"

definition cleanOldCollisions :: "(entity_ref \<Rightarrow> Entity) \<Rightarrow>
    'n RigidBodyComponentSystem \<Rightarrow> 'n RigidBodyComponentSystem" where
  "cleanOldCollisions E s = cleanGuids E (map fst (collisions s)) s"

text \<open>
  \<open>_checkForCollisions\<close>: \<open>manifolds\<close> is what the dispatcher of the dynamics world holds,
  by index. The object pools (\<open>core/object-pool.js\<close>, not among the sources) hand out
  the contact objects; here these are values, so freeing the pools changes nothing.
\<close>

definition checkForCollisions :: "(entity_ref \<Rightarrow> Entity) \<Rightarrow> int \<Rightarrow> 'n btPersistentManifold list \<Rightarrow>
    'n RigidBodyComponentSystem \<Rightarrow> 'n RigidBodyComponentSystem" where
  "checkForCollisions E F manifolds s =
     cleanOldCollisions E (checkManifolds E F manifolds (s\<lparr>frameCollisions := []\<rparr>))"

section \<open>RigidBodyComponentSystem: the dynamics world\<close>

definition called :: "'n call list \<Rightarrow> 'n RigidBodyComponentSystem \<Rightarrow> 'n RigidBodyComponentSystem" where
  "called cs s = s\<lparr>calls := calls s @ cs\<rparr>"

text \<open>
  \<open>onLibraryLoaded\<close>: \<open>ammo\<close> is \<open>None\<close> when \<open>typeof Ammo\<close> is \<open>'undefined'\<close>.
\<close>

definition onLibraryLoaded :: "Ammo option \<Rightarrow> 'n RigidBodyComponentSystem \<Rightarrow>
    'n RigidBodyComponentSystem" where
  "onLibraryLoaded ammo s =
     (case ammo of
        None \<Rightarrow> called [SystemsOff] s
      | Some A \<Rightarrow>
          (let s = called [New ''btDefaultCollisionConfiguration'', New ''btCollisionDispatcher'',
                           New ''btDbvtBroadphase'', New ''btSequentialImpulseConstraintSolver'',
                           New ''btDiscreteDynamicsWorld''] s;
               world = \<lparr>setInternalTickCallback = has_setInternalTickCallback A,
                        internalTickCallback = False\<rparr>;
               (world, s) =
                 (if setInternalTickCallback world
                  then (world\<lparr>internalTickCallback := True\<rparr>,
                        called [AddFunction, SetInternalTickCallback] s)
                  else (world, called [DebugWarn] s));
               s = s\<lparr>dynamicsWorld := Some world\<rparr>;
               s = called [New ''btVector3'', New ''btVector3'', New ''btVector3'',
                           New ''btQuaternion'', New ''btTransform'', ComponentOnLibraryLoaded,
                           New ''ObjectPool'', New ''ObjectPool'', New ''ObjectPool'', SystemsOn] s
           in s))"

text \<open>
  What JavaScript does with numbers where it matters to \<open>onUpdate\<close>: the rounding of a
  store into a \<open>Float32Array\<close>, and \<open>!==\<close>.
\<close>

record 'n Number =
  fround :: "'n \<Rightarrow> 'n"
  notIdentical :: "'n \<Rightarrow> 'n \<Rightarrow> bool"

text \<open>
  What the dynamics world answers during one \<open>onUpdate\<close>: \<open>getGravity()\<close>, the
  manifolds of its dispatcher at each internal tick of \<open>stepSimulation\<close>, and the
  manifolds of its dispatcher after \<open>stepSimulation\<close>.
\<close>

record 'n Frame =
  getGravity :: "'n btVector3"
  internalTicks :: "'n btPersistentManifold list list"
  getManifolds :: "'n btPersistentManifold list"

text \<open>The dynamics world invokes the registered callback, \<open>_checkForCollisions\<close>.\<close>

definition internalTick :: "(entity_ref \<Rightarrow> Entity) \<Rightarrow> int \<Rightarrow> 'n RigidBodyComponentSystem \<Rightarrow>
    'n btPersistentManifold list \<Rightarrow> 'n RigidBodyComponentSystem" where
  "internalTick E F s manifolds = checkForCollisions E F manifolds (called [InternalTick] s)"

text \<open>
  \<open>onUpdate(dt)\<close>. Without a dynamics world the first use of it throws. A registered
  callback runs inside \<open>stepSimulation\<close>, once for each internal tick.
\<close>

definition onUpdate :: "(entity_ref \<Rightarrow> Entity) \<Rightarrow> int \<Rightarrow> 'n Number \<Rightarrow> 'n Frame \<Rightarrow> 'n \<Rightarrow>
    'n RigidBodyComponentSystem \<Rightarrow> js_error + 'n RigidBodyComponentSystem" where
  "onUpdate E F J frame dt s =
     (case dynamicsWorld s of
        None \<Rightarrow> Inl TypeError
      | Some world \<Rightarrow>
          (case (gravity s, getGravity frame) of
             (Vec3 gx gy gz, btVector3 wx wy wz) \<Rightarrow>
               (let g0 = fround J gx; g1 = fround J gy; g2 = fround J gz;
                    s = s\<lparr>gravityFloat32 := [g0, g1, g2]\<rparr>;
                    s = (if notIdentical J wx g0 \<or> notIdentical J wy g1 \<or> notIdentical J wz g2
                         then called [SetGravity gx gy gz] s else s);
                    s = called (map UpdateTransform (triggers s)) s;
                    s = called (map UpdateCompound (compounds s)) s;
                    s = called (map UpdateKinematic (kinematic s)) s;
                    s = called [StepSimulation dt (maxSubSteps s) (fixedTimeStep s)] s;
                    s = (if internalTickCallback world
                         then foldl (internalTick E F) s (internalTicks frame) else s);
                    s = called (map UpdateDynamic (dynamic s)) s;
                    s = (if \<not> setInternalTickCallback world
                         then checkForCollisions E F (getManifolds frame)
                                (called [CheckForCollisions] s)
                         else s)
                in Inr s)))"

text \<open>The application fires \<open>update\<close> once per frame, with the frame's \<open>dt\<close>.\<close>

fun runFrames :: "(entity_ref \<Rightarrow> Entity) \<Rightarrow> int \<Rightarrow> 'n Number \<Rightarrow> ('n Frame \<times> 'n) list \<Rightarrow>
    'n RigidBodyComponentSystem \<Rightarrow> js_error + 'n RigidBodyComponentSystem" where
  "runFrames E F J [] s = Inr s"
| "runFrames E F J ((frame, dt) # rest) s =
     (case onUpdate E F J frame dt s of
        Inl e \<Rightarrow> Inl e
      | Inr s' \<Rightarrow> runFrames E F J rest s')"

text \<open>
  What \<open>rayTest\<close> leaves in an \<open>AllHitsRayResultCallback\<close>; \<open>hitBody\<close> is the result of
  \<open>Ammo.castObject\<close>, \<open>None\<close> when it is null.
\<close>

record 'n RayHit =
  hitBody :: "btRigidBody option"
  hitPointWorld :: "'n btVector3"
  hitNormalWorld :: "'n btVector3"

record 'n RayAnswer =
  hasHit :: bool
  rayHits :: "'n RayHit list"

datatype 'n RaycastResult = RaycastResult "entity_ref option" "'n Vec3" "'n Vec3"

datatype 'n HitResult = HitResult entity_ref "'n Vec3" "'n Vec3"

text \<open>
  \<open>raycastAll(start, end)\<close>; \<open>A\<close> is the build of ammo.js that the page has loaded, the
  global \<open>Ammo\<close>. \<open>Debug.assert\<close> reports a missing
  \<open>Ammo.AllHitsRayResultCallback\<close> and returns. The temporaries \<open>ammoRayStart\<close> and
  \<open>ammoRayEnd\<close> are assigned by \<open>onLibraryLoaded\<close>, where it creates the dynamics world:
  before that \<open>ammoRayStart.setValue\<close> throws. Without the entry point, constructing
  the callback throws.
\<close>

definition raycastAll :: "Ammo \<Rightarrow> 'n Vec3 \<Rightarrow> 'n Vec3 \<Rightarrow> 'n RayAnswer \<Rightarrow>
    'n RigidBodyComponentSystem \<Rightarrow>
    (js_error + 'n RaycastResult list) \<times> 'n RigidBodyComponentSystem" where
  "raycastAll A rayStart rayEnd answer s =
     (let s = called [DebugAssert (has_AllHitsRayResultCallback A)] s
      in if dynamicsWorld s = None then (Inl TypeError, s)
         else if \<not> has_AllHitsRayResultCallback A then (Inl TypeError, s)
         else
           (let s = called [New ''AllHitsRayResultCallback'', RayTest] s;
                results =
                  (if hasHit answer then
                     concat (map (\<lambda>h. case hitBody h of
                                          None \<Rightarrow> []
                                        | Some body \<Rightarrow>
                                            [RaycastResult (body_entity body)
                                               (toVec3 (hitPointWorld h))
                                               (toVec3 (hitNormalWorld h))])
                               (rayHits answer))
                   else []);
                s = called [Destroy ''rayCallback''] s
            in (Inr results, s)))"

text \<open>
  \<open>_shapeTest(shape, position, rotation)\<close>: \<open>found\<close> is what \<open>contactTest\<close> reports to
  the callback, the entity of the other body and the manifold point. The temporary
  \<open>ammoVec3\<close> is assigned by \<open>onLibraryLoaded\<close>, where it creates the dynamics world:
  before that \<open>ammoVec3.setValue\<close> throws, right after \<open>Debug.assert\<close>.
\<close>

definition private_shapeTest :: "Ammo \<Rightarrow> 'n::{ord,zero} btCollisionShape \<Rightarrow> 'n Vec3 \<Rightarrow>
    'n rotation \<Rightarrow> (entity_ref option \<times> 'n btManifoldPoint) list \<Rightarrow>
    'n RigidBodyComponentSystem \<Rightarrow>
    (js_error + 'n HitResult list) \<times> 'n RigidBodyComponentSystem" where
  "private_shapeTest A shape position rotation found s =
     (let s = called [DebugAssert (has_ConcreteContactResultCallback A)] s
      in if dynamicsWorld s = None then (Inl TypeError, s)
         else
           (let s = (if \<not> shapeTestBody s
                     then (called [CreateBody] s)\<lparr>shapeTestBody := True\<rparr> else s);
                s = called [SetCollisionShape (Some shape), SetWorldTransform position rotation,
                            ForceActivationState] s
            in if \<not> has_ConcreteContactResultCallback A then (Inl TypeError, s)
               else
                 (let s = called [New ''ConcreteContactResultCallback'', ContactTest] s;
                      results =
                        concat (map (\<lambda>(ent, cp). case ent of
                                                  None \<Rightarrow> []
                                                | Some e \<Rightarrow>
                                                    if getDistance cp < 0
                                                    then [HitResult e (toVec3 (positionWorldOnB cp))
                                                            (toVec3 (m_normalWorldOnB cp))]
                                                    else [])
                                  found);
                      s = called [ForceActivationState, SetCollisionShape None,
                                  Destroy ''resultCallback'', Destroy ''shape''] s
                  in (Inr results, s))))"

text \<open>
  Modelled from the spec: the vector class (\<open>core/math/vec3.js\<close>) is not among the
  sources. \<open>add\<close> and \<open>divScalar\<close> change the vector they are called on, component by
  component, and return it, as the comment of \<open>boxCast\<close> on its start vector and the
  midpoint \<open>(start + end) / 2\<close> say; these two functions give the new components.
\<close>

fun vec3_add :: "'n::plus Vec3 \<Rightarrow> 'n Vec3 \<Rightarrow> 'n Vec3" where
  "vec3_add (Vec3 x y z) (Vec3 x' y' z') = Vec3 (x + x') (y + y') (z + z')"

fun vec3_divScalar :: "'n::inverse Vec3 \<Rightarrow> 'n \<Rightarrow> 'n Vec3" where
  "vec3_divScalar (Vec3 x y z) scalar = Vec3 (x / scalar) (y / scalar) (z / scalar)"

text \<open>\<open>v.z += d\<close> on a vector.\<close>

fun vec3_addZ :: "'n::plus Vec3 \<Rightarrow> 'n \<Rightarrow> 'n Vec3" where
  "vec3_addZ (Vec3 x y z) d = Vec3 x y (z + d)"

text \<open>
  The vectors a caller passes are objects: \<open>V\<close> is the store of the vector objects and
  the arguments are references into it. \<open>distance\<close> is \<open>Vec3.distance\<close>, and \<open>lookAt\<close>
  the rotation that \<open>setLookAt(start, end, Vec3.UP)\<close> and \<open>setFromMat4\<close> compute, both
  from classes that are not among the sources.
\<close>

type_synonym vec_ref = nat

definition boxCast :: "Ammo \<Rightarrow> ('n Vec3 \<Rightarrow> 'n Vec3 \<Rightarrow> 'n) \<Rightarrow> ('n Vec3 \<Rightarrow> 'n Vec3 \<Rightarrow> 'n Quat) \<Rightarrow>
    (entity_ref option \<times> 'n btManifoldPoint) list \<Rightarrow> vec_ref \<Rightarrow> vec_ref \<Rightarrow> vec_ref \<Rightarrow>
    (vec_ref \<Rightarrow> 'n::{plus,inverse,numeral,ord,zero} Vec3) \<times> 'n RigidBodyComponentSystem \<Rightarrow>
    (vec_ref \<Rightarrow> 'n Vec3) \<times> (js_error + 'n HitResult list) \<times> 'n RigidBodyComponentSystem" where
  "boxCast A distance lookAt found halfExtents start endv st =
     (case st of (V, s) \<Rightarrow>
        (let V = V(halfExtents := vec3_addZ (V halfExtents) (distance (V start) (V endv) / 2));
             shapecastRotation = lookAt (V start) (V endv);
             V = V(start := vec3_add (V start) (V endv));
             V = V(start := vec3_divScalar (V start) 2)
         in (V, private_shapeTest A (BtBoxShape (V halfExtents)) (V start)
                  (AsQuat shapecastRotation) found s)))"

definition sphereCast :: "Ammo \<Rightarrow> ('n Vec3 \<Rightarrow> 'n Vec3 \<Rightarrow> 'n) \<Rightarrow> ('n Vec3 \<Rightarrow> 'n Vec3 \<Rightarrow> 'n Quat) \<Rightarrow>
    (entity_ref option \<times> 'n btManifoldPoint) list \<Rightarrow> 'n \<Rightarrow> vec_ref \<Rightarrow> vec_ref \<Rightarrow>
    (vec_ref \<Rightarrow> 'n::{plus,inverse,numeral,ord,zero} Vec3) \<times> 'n RigidBodyComponentSystem \<Rightarrow>
    (vec_ref \<Rightarrow> 'n Vec3) \<times> (js_error + 'n HitResult list) \<times> 'n RigidBodyComponentSystem" where
  "sphereCast A distance lookAt found radius start endv st =
     (case st of (V, s) \<Rightarrow>
        (let height = distance (V start) (V endv);
             shapecastRotation = lookAt (V start) (V endv);
             V = V(start := vec3_add (V start) (V endv));
             V = V(start := vec3_divScalar (V start) 2)
         in (V, private_shapeTest A (BtCapsuleShapeZ radius height) (V start)
                  (AsQuat shapecastRotation) found s)))"

section \<open>Notions the statements use\<close>

text \<open>
  The \<open>others\<close> array an object keyed by guid holds for \<open>guid\<close>, empty when it has no
  entry for it.
\<close>

definition othersOf :: "(string \<times> CollisionEntry) list \<Rightarrow> string \<Rightarrow> entity_ref list" where
  "othersOf al guid = (case map_of al guid of None \<Rightarrow> [] | Some c \<Rightarrow> others c)"

text \<open>
  \<open>recorded E al ent oth\<close>: the object \<open>al\<close> (\<open>collisions\<close> or \<open>frameCollisions\<close>) holds
  \<open>oth\<close> in the \<open>others\<close> array stored under the guid of \<open>ent\<close>.
\<close>

definition recorded :: "(entity_ref \<Rightarrow> Entity) \<Rightarrow> (string \<times> CollisionEntry) list \<Rightarrow>
    entity_ref \<Rightarrow> entity_ref \<Rightarrow> bool" where
  "recorded E al ent oth \<longleftrightarrow> oth \<in> set (othersOf al (getGuid (E ent)))"

text \<open>The calls of \<open>fire\<close> made since the log had \<open>n\<close> entries.\<close>

definition firedSince :: "nat \<Rightarrow> 'n RigidBodyComponentSystem \<Rightarrow> 'n fired list" where
  "firedSince n s = drop n (fired s)"

text \<open>
  How the system may change while the manifolds of one step are processed: the log is
  extended, the \<open>others\<close> arrays are extended, an entry keeps its entity, and
  \<open>this.hasEvent\<close> stays as it is.
\<close>

definition grows :: "'n RigidBodyComponentSystem \<Rightarrow> 'n RigidBodyComponentSystem \<Rightarrow> bool" where
  "grows s s' \<longleftrightarrow>
     (\<exists>ev. fired s' = fired s @ ev) \<and>
     systemHasEvent s' = systemHasEvent s \<and>
     (\<forall>g. \<exists>xs. othersOf (collisions s') g = othersOf (collisions s) g @ xs) \<and>
     (\<forall>g. \<exists>xs. othersOf (frameCollisions s') g = othersOf (frameCollisions s) g @ xs) \<and>
     (\<forall>g c. map_of (collisions s) g = Some c \<longrightarrow>
        (\<exists>c'. map_of (collisions s') g = Some c' \<and> entity c' = entity c))"

text \<open>Every entry of \<open>collisions\<close> is stored under the guid of its entity.\<close>

definition keyed :: "(entity_ref \<Rightarrow> Entity) \<Rightarrow> 'n RigidBodyComponentSystem \<Rightarrow> bool" where
  "keyed E s \<longleftrightarrow> (\<forall>g c. map_of (collisions s) g = Some c \<longrightarrow> getGuid (E (entity c)) = g)"

text \<open>
  The other entity a call of \<open>fire\<close> is about: the argument itself, or the \<open>other\<close> of a
  \<open>ContactResult\<close>; the global \<open>contact\<close> event carries both entities and is about
  neither.
\<close>

fun argOther :: "'n argument \<Rightarrow> entity_ref option" where
  "argOther (ArgEntity e) = Some e"
| "argOther (ArgContactResult r) = Some (other r)"
| "argOther (ArgSingleContactResult r) = None"

text \<open>
  \<open>firedOn t name oth x\<close>: the call \<open>x\<close> fires \<open>name\<close> on the target \<open>t\<close> about the
  entity \<open>oth\<close>.
\<close>

fun firedOn :: "target \<Rightarrow> string \<Rightarrow> entity_ref \<Rightarrow> 'n fired \<Rightarrow> bool" where
  "firedOn t name oth (Fired t' name' arg) \<longleftrightarrow> t' = t \<and> name' = name \<and> argOther arg = Some oth"

fun firedName :: "'n fired \<Rightarrow> string" where
  "firedName (Fired t name arg) = name"

text \<open>
  \<open>pairs m a b\<close>: the bodies of the manifold belong to the entities \<open>a\<close> and \<open>b\<close>, in
  either order. \<open>flagged F m\<close>: at least one body of the manifold carries the
  no-response flag.
\<close>

definition pairs :: "'n btPersistentManifold \<Rightarrow> entity_ref \<Rightarrow> entity_ref \<Rightarrow> bool" where
  "pairs m a b \<longleftrightarrow>
     (body_entity (getBody0 m) = Some a \<and> body_entity (getBody1 m) = Some b) \<or>
     (body_entity (getBody0 m) = Some b \<and> body_entity (getBody1 m) = Some a)"

definition flagged :: "int \<Rightarrow> 'n btPersistentManifold \<Rightarrow> bool" where
  "flagged F m \<longleftrightarrow>
     noResponse F (getCollisionFlags (getBody0 m)) \<or> noResponse F (getCollisionFlags (getBody1 m))"

text \<open>
  \<open>firedOnComponents E ent name oth ev\<close>: among the calls \<open>ev\<close>, \<open>name\<close> is fired about
  \<open>oth\<close> on the collision component and on the rigidbody component of \<open>ent\<close>, on each
  of the two that the entity has.
\<close>

definition firedOnComponents :: "(entity_ref \<Rightarrow> Entity) \<Rightarrow> entity_ref \<Rightarrow> string \<Rightarrow> entity_ref \<Rightarrow>
    'n fired list \<Rightarrow> bool" where
  "firedOnComponents E ent name oth ev \<longleftrightarrow>
     (collision (E ent) \<noteq> None \<longrightarrow> (\<exists>x \<in> set ev. firedOn (OnCollision ent) name oth x)) \<and>
     (rigidbody (E ent) \<noteq> None \<longrightarrow> (\<exists>x \<in> set ev. firedOn (OnRigidbody ent) name oth x))"

text \<open>
  The calls of \<open>fire\<close> of one block \<open>if (e0Events) { ... }\<close>, given whether the pair was
  new, and those of the loop over the contact points.
\<close>

definition contactFired :: "(entity_ref \<Rightarrow> Entity) \<Rightarrow> entity_ref \<Rightarrow> entity_ref \<Rightarrow>
    'n ContactPoint list \<Rightarrow> bool \<Rightarrow> 'n fired list" where
  "contactFired E ent oth cs isNew =
     (case collision (E ent) of
        None \<Rightarrow> []
      | Some c \<Rightarrow>
          Fired (OnCollision ent) ''contact'' (ArgContactResult \<lparr>other = oth, contacts = cs\<rparr>) #
          (if isNew
           then [Fired (OnCollision ent) ''collisionstart'' (ArgContactResult \<lparr>other = oth, contacts = cs\<rparr>)]
           else [])) @
     (case rigidbody (E ent) of
        None \<Rightarrow> []
      | Some r \<Rightarrow>
          Fired (OnRigidbody ent) ''contact'' (ArgContactResult \<lparr>other = oth, contacts = cs\<rparr>) #
          (if isNew
           then [Fired (OnRigidbody ent) ''collisionstart'' (ArgContactResult \<lparr>other = oth, contacts = cs\<rparr>)]
           else []))"

definition globalContacts :: "entity_ref \<Rightarrow> entity_ref \<Rightarrow> 'n btPersistentManifold \<Rightarrow>
    'n RigidBodyComponentSystem \<Rightarrow> 'n fired list" where
  "globalContacts e0 e1 m s =
     (if systemHasEvent s ''contact''
      then map (\<lambda>bt. Fired OnSystem ''contact''
                  (ArgSingleContactResult
                     (createSingleContactResult e0 e1 (createContactPointFromAmmo bt))))
             (contactPoints m)
      else [])"

text \<open>The calls of \<open>fire\<close> that \<open>_cleanOldCollisions\<close> makes for one removed pair.\<close>

definition endFired :: "(entity_ref \<Rightarrow> Entity) \<Rightarrow> entity_ref \<Rightarrow> entity_ref \<Rightarrow> 'n fired list" where
  "endFired E ent oth =
     (if trigger (E ent) then
        (case collision (E ent) of
           None \<Rightarrow> []
         | Some c \<Rightarrow> [Fired (OnCollision ent) ''triggerleave'' (ArgEntity oth)]) @
        (case rigidbody (E oth) of
           None \<Rightarrow> []
         | Some r \<Rightarrow> [Fired (OnRigidbody oth) ''triggerleave'' (ArgEntity ent)])
      else if \<not> trigger (E oth) then
        (case rigidbody (E ent) of
           None \<Rightarrow> []
         | Some r \<Rightarrow> [Fired (OnRigidbody ent) ''collisionend'' (ArgEntity oth)]) @
        (case collision (E ent) of
           None \<Rightarrow> []
         | Some c \<Rightarrow> [Fired (OnCollision ent) ''collisionend'' (ArgEntity oth)])
      else [])"

text \<open>
  What \<open>_cleanOldCollisions\<close> leaves of an entry: the others that are in the frame's
  array for the guid, and no entry when none is.
\<close>

definition cleaned :: "(string \<times> CollisionEntry) list \<Rightarrow> string \<Rightarrow> CollisionEntry option \<Rightarrow>
    CollisionEntry option" where
  "cleaned fr g entry =
     (case entry of
        None \<Rightarrow> None
      | Some c \<Rightarrow>
          (let os = filter (\<lambda>x. x \<in> set (othersOf fr g)) (others c)
           in if os = [] then None else Some (c\<lparr>others := os\<rparr>)))"

text \<open>The calls of \<open>fire\<close> that \<open>_cleanOldCollisions\<close> makes for one entry.\<close>

definition entryFired :: "(entity_ref \<Rightarrow> Entity) \<Rightarrow> (string \<times> CollisionEntry) list \<Rightarrow> string \<Rightarrow>
    CollisionEntry option \<Rightarrow> 'n fired list" where
  "entryFired E fr g entry =
     (case entry of
        None \<Rightarrow> []
      | Some c \<Rightarrow>
          concat (map (endFired E (entity c))
                    (rev (filter (\<lambda>x. x \<notin> set (othersOf fr g)) (others c)))))"

text \<open>The entities of the bodies of the manifolds, those that are not null.\<close>

definition bodyEntities :: "'n btPersistentManifold \<Rightarrow> entity_ref list" where
  "bodyEntities m =
     (case body_entity (getBody0 m) of None \<Rightarrow> [] | Some e \<Rightarrow> [e]) @
     (case body_entity (getBody1 m) of None \<Rightarrow> [] | Some e \<Rightarrow> [e])"

definition entitiesOf :: "'n btPersistentManifold list \<Rightarrow> entity_ref list" where
  "entitiesOf manifolds = concat (map bodyEntities manifolds)"

text \<open>
  \<open>bookkeeping s s'\<close>: the two systems differ at most in \<open>collisions\<close>,
  \<open>frameCollisions\<close> and the log \<open>fired\<close>.
\<close>

definition bookkeeping :: "'n RigidBodyComponentSystem \<Rightarrow> 'n RigidBodyComponentSystem \<Rightarrow> bool" where
  "bookkeeping s s' \<longleftrightarrow>
     systemHasEvent s' = systemHasEvent s \<and>
     maxSubSteps s' = maxSubSteps s \<and> fixedTimeStep s' = fixedTimeStep s \<and>
     gravity s' = gravity s \<and> gravityFloat32 s' = gravityFloat32 s \<and>
     dynamic s' = dynamic s \<and> kinematic s' = kinematic s \<and>
     triggers s' = triggers s \<and> compounds s' = compounds s \<and>
     dynamicsWorld s' = dynamicsWorld s \<and> shapeTestBody s' = shapeTestBody s \<and>
     calls s' = calls s"

text \<open>The calls \<open>dynamicsWorld.stepSimulation(...)\<close>.\<close>

fun isStepSimulation :: "'n call \<Rightarrow> bool" where
  "isStepSimulation (StepSimulation dt n t) = True"
| "isStepSimulation c = False"

text \<open>
  The calls that step the simulation or run the collision check: \<open>stepSimulation\<close>,
  the callback invoked by the dynamics world, and the call of \<open>_checkForCollisions\<close>
  by \<open>onUpdate\<close>.
\<close>

fun stepOrCheck :: "'n call \<Rightarrow> bool" where
  "stepOrCheck (StepSimulation dt n t) = True"
| "stepOrCheck InternalTick = True"
| "stepOrCheck CheckForCollisions = True"
| "stepOrCheck c = False"

text \<open>The calls made between two states of the system.\<close>

definition newCalls :: "'n RigidBodyComponentSystem \<Rightarrow> 'n RigidBodyComponentSystem \<Rightarrow> 'n call list" where
  "newCalls s s' = drop (length (calls s)) (calls s')"

section \<open>Example data\<close>

text \<open>
  Entity 1 is a trigger volume with callbacks on its collision component; entity 2 is
  a rigid body with a collision component; entity 3 is a rigid body without a
  collision component; entity 5 has a collision component that only listens for
  \<open>triggerenter\<close>; entity 6 is a rigid body that listens for \<open>triggerenter\<close> on both
  of its components; entity 7 is a trigger volume nobody listens on; every other
  entity has no component.
\<close>

definition exampleEntities :: "entity_ref \<Rightarrow> Entity" where
  "exampleEntities e =
     (if e = 1 then
        \<lparr>getGuid = ''guid-1'',
         collision = Some \<lparr>hasEvent = (\<lambda>n. n = ''triggerenter'' \<or> n = ''triggerleave'' \<or>
                                          n = ''collisionstart'' \<or> n = ''contact'')\<rparr>,
         rigidbody = None, trigger = True\<rparr>
      else if e = 2 then
        \<lparr>getGuid = ''guid-2'',
         collision = Some \<lparr>hasEvent = (\<lambda>n. n = ''contact'')\<rparr>,
         rigidbody = Some \<lparr>hasEvent = (\<lambda>n. n = ''collisionstart'')\<rparr>, trigger = False\<rparr>
      else if e = 3 then
        \<lparr>getGuid = ''guid-3'', collision = None,
         rigidbody = Some \<lparr>hasEvent = (\<lambda>n. n = ''collisionend'')\<rparr>, trigger = False\<rparr>
      else if e = 5 then
        \<lparr>getGuid = ''guid-5'',
         collision = Some \<lparr>hasEvent = (\<lambda>n. n = ''triggerenter'')\<rparr>,
         rigidbody = None, trigger = False\<rparr>
      else if e = 6 then
        \<lparr>getGuid = ''guid-6'',
         collision = Some \<lparr>hasEvent = (\<lambda>n. n = ''triggerenter'')\<rparr>,
         rigidbody = Some \<lparr>hasEvent = (\<lambda>n. n = ''triggerenter'')\<rparr>, trigger = False\<rparr>
      else if e = 7 then
        \<lparr>getGuid = ''guid-7'',
         collision = Some \<lparr>hasEvent = (\<lambda>n. False)\<rparr>,
         rigidbody = None, trigger = True\<rparr>
      else \<lparr>getGuid = ''guid-0'', collision = None, rigidbody = None, trigger = False\<rparr>)"

definition examplePoint :: "real btManifoldPoint" where
  "examplePoint =
     \<lparr>m_localPointA = btVector3 1 2 3, m_localPointB = btVector3 4 5 6,
      positionWorldOnA = btVector3 7 8 9, positionWorldOnB = btVector3 10 11 12,
      m_normalWorldOnB = btVector3 0 1 0, appliedImpulse = 5, getDistance = - 1\<rparr>"

text \<open>The bodies of entities 2 and 3 touch; body 3 is static (flag 1).\<close>

definition contactManifold :: "real btPersistentManifold" where
  "contactManifold =
     \<lparr>getBody0 = \<lparr>body_entity = Some 2, getCollisionFlags = 0\<rparr>,
      getBody1 = \<lparr>body_entity = Some 3, getCollisionFlags = 1\<rparr>,
      contactPoints = [examplePoint]\<rparr>"

text \<open>The trigger volume of entity 1 (flag 4) overlaps the body of entity 2.\<close>

definition triggerManifold :: "real btPersistentManifold" where
  "triggerManifold =
     \<lparr>getBody0 = \<lparr>body_entity = Some 1, getCollisionFlags = 4\<rparr>,
      getBody1 = \<lparr>body_entity = Some 2, getCollisionFlags = 0\<rparr>,
      contactPoints = [examplePoint]\<rparr>"

text \<open>The same two bodies with overlapping bounds and no contact point.\<close>

definition separatedManifold :: "real btPersistentManifold" where
  "separatedManifold =
     \<lparr>getBody0 = \<lparr>body_entity = Some 1, getCollisionFlags = 4\<rparr>,
      getBody1 = \<lparr>body_entity = Some 2, getCollisionFlags = 0\<rparr>,
      contactPoints = []\<rparr>"

text \<open>Entity 5 touches an entity without components: nobody listens for contacts.\<close>

definition quietManifold :: "real btPersistentManifold" where
  "quietManifold =
     \<lparr>getBody0 = \<lparr>body_entity = Some 5, getCollisionFlags = 0\<rparr>,
      getBody1 = \<lparr>body_entity = Some 4, getCollisionFlags = 0\<rparr>,
      contactPoints = [examplePoint]\<rparr>"

text \<open>
  The body of entity 5 carries the no-response flag, although entity 5 is no trigger,
  and overlaps the body of entity 2.
\<close>

definition flaggedBodyManifold :: "real btPersistentManifold" where
  "flaggedBodyManifold =
     \<lparr>getBody0 = \<lparr>body_entity = Some 5, getCollisionFlags = 4\<rparr>,
      getBody1 = \<lparr>body_entity = Some 2, getCollisionFlags = 0\<rparr>,
      contactPoints = [examplePoint]\<rparr>"

text \<open>The trigger volume of entity 7 (flag 4) overlaps the body of entity 6.\<close>

definition listenerManifold :: "real btPersistentManifold" where
  "listenerManifold =
     \<lparr>getBody0 = \<lparr>body_entity = Some 7, getCollisionFlags = 4\<rparr>,
      getBody1 = \<lparr>body_entity = Some 6, getCollisionFlags = 0\<rparr>,
      contactPoints = [examplePoint]\<rparr>"

text \<open>
  The trigger volume of entity 7 overlaps the body of entity 2, which listens for
  contact events only.
\<close>

definition unheardManifold :: "real btPersistentManifold" where
  "unheardManifold =
     \<lparr>getBody0 = \<lparr>body_entity = Some 7, getCollisionFlags = 4\<rparr>,
      getBody1 = \<lparr>body_entity = Some 2, getCollisionFlags = 0\<rparr>,
      contactPoints = [examplePoint]\<rparr>"

text \<open>The body of entity 2 touches a body that has no entity.\<close>

definition orphanManifold :: "real btPersistentManifold" where
  "orphanManifold =
     \<lparr>getBody0 = \<lparr>body_entity = Some 2, getCollisionFlags = 0\<rparr>,
      getBody1 = \<lparr>body_entity = None, getCollisionFlags = 1\<rparr>,
      contactPoints = [examplePoint]\<rparr>"

text \<open>The system as its constructor leaves it.\<close>

definition emptySystem :: "real RigidBodyComponentSystem" where
  "emptySystem = constructor"

text \<open>The system after a step in which the bodies of entities 2 and 3 touched.\<close>

definition touchingSystem :: "real RigidBodyComponentSystem" where
  "touchingSystem =
     constructor
       \<lparr>collisions := [(''guid-2'', \<lparr>others = [3], entity = 2\<rparr>), (''guid-3'', \<lparr>others = [2], entity = 3\<rparr>)],
        frameCollisions := [(''guid-2'', \<lparr>others = [3], entity = 2\<rparr>), (''guid-3'', \<lparr>others = [2], entity = 3\<rparr>)]\<rparr>"

text \<open>The system after a step in which entity 2 was inside the trigger volume of entity 1.\<close>

definition insideTriggerSystem :: "real RigidBodyComponentSystem" where
  "insideTriggerSystem =
     constructor
       \<lparr>collisions := [(''guid-1'', \<lparr>others = [2], entity = 1\<rparr>)],
        frameCollisions := [(''guid-1'', \<lparr>others = [2], entity = 1\<rparr>)]\<rparr>"

text \<open>
  Two versions of ammo.js: one that exposes every optional entry point, and an old one
  that exposes none of them.
\<close>

definition modernAmmo :: Ammo where
  "modernAmmo = \<lparr>has_setInternalTickCallback = True, has_AllHitsRayResultCallback = True,
                  has_ConcreteContactResultCallback = True\<rparr>"

definition legacyAmmo :: Ammo where
  "legacyAmmo = \<lparr>has_setInternalTickCallback = False, has_AllHitsRayResultCallback = False,
                  has_ConcreteContactResultCallback = False\<rparr>"

text \<open>The system after \<open>onLibraryLoaded\<close>, on the current ammo.js.\<close>

definition loadedSystem :: "real RigidBodyComponentSystem" where
  "loadedSystem = onLibraryLoaded (Some modernAmmo) emptySystem"

text \<open>Numbers without rounding, and a frame with two internal ticks.\<close>

definition exactNumber :: "real Number" where
  "exactNumber = \<lparr>fround = (\<lambda>x. x), notIdentical = (\<lambda>x y. x \<noteq> y)\<rparr>"

definition exampleFrame :: "real Frame" where
  "exampleFrame = \<lparr>getGravity = btVector3 0 0 0,
                    internalTicks = [[contactManifold], [contactManifold]],
                    getManifolds = [contactManifold]\<rparr>"

text \<open>
  Vectors of a caller: the half extents at reference 0, the start at 1 and the end at
  2. \<open>euclid\<close> is the Euclidean distance, and \<open>noTurn\<close> stands for the rotation.
\<close>

definition exampleVectors :: "vec_ref \<Rightarrow> real Vec3" where
  "exampleVectors r = (if r = 0 then Vec3 1 1 1 else if r = 1 then Vec3 0 0 0 else Vec3 0 0 4)"

fun euclid :: "real Vec3 \<Rightarrow> real Vec3 \<Rightarrow> real" where
  "euclid (Vec3 x y z) (Vec3 x' y' z') = sqrt ((x - x')\<^sup>2 + (y - y')\<^sup>2 + (z - z')\<^sup>2)"

definition noTurn :: "real Vec3 \<Rightarrow> real Vec3 \<Rightarrow> real Quat" where
  "noTurn a b = Quat 0 0 0 1"

section \<open>RenderAction: the collected directional lights\<close>

lemma collectLayers_inv:
  assumes "directionalLightsSet ra = set (directionalLights ra)"
    and "distinct (directionalLights ra)"
  shows "directionalLightsSet (collectLayers ls l ra) = set (directionalLights (collectLayers ls l ra)) \<and>
   distinct (directionalLights (collectLayers ls l ra)) \<and>
   set (directionalLights (collectLayers ls l ra)) =
     set (directionalLights ra) \<union> (if \<exists>layer \<in> set ls. l \<in> lightsSet layer then {l} else {})"
  using assms by (induction ls l ra rule: collectLayers.induct) auto

lemma collectLights_inv:
  assumes "directionalLightsSet ra = set (directionalLights ra)"
    and "distinct (directionalLights ra)"
  shows "directionalLightsSet (collectLights L cl ds ra) = set (directionalLights (collectLights L cl ds ra)) \<and>
   distinct (directionalLights (collectLights L cl ds ra)) \<and>
   set (directionalLights (collectLights L cl ds ra)) =
     set (directionalLights ra) \<union>
     {l \<in> set ds. castShadows (L l) \<and> (\<exists>layer \<in> set cl. l \<in> lightsSet layer)}"
  using assms
proof (induction L cl ds ra rule: collectLights.induct)
  case (1 L cameraLayers ra)
  then show ?case by simp
next
  case (2 L cameraLayers light dirLights ra)
  then show ?case using collectLayers_inv[of ra cameraLayers light]
    by (auto split: if_splits)
qed

text \<open>
  C8. After \<open>collectDirectionalLights(cameraLayers, dirLights, allLights)\<close> the array
  \<open>directionalLights\<close> holds exactly the lights of \<open>dirLights\<close> that cast shadows and are
  in the light set of at least one of the camera's layers, each of them once, and
  \<open>directionalLightsSet\<close> holds the same elements, whatever the two held before and
  whether or not \<open>dirLights\<close> repeats a light. \<open>isLayerEnabled(layerComposition)\<close> returns
  \<open>true\<close> exactly when the layer at \<open>layerIndex\<close> is enabled and
  \<open>subLayerEnabled[layerIndex]\<close> is \<open>true\<close>.
\<close>

theorem collectDirectionalLights_isLayerEnabled:
  "set (directionalLights (collectDirectionalLights L cameraLayers dirLights allLights ra)) =
     {l \<in> set dirLights. castShadows (L l) \<and> (\<exists>layer \<in> set cameraLayers. l \<in> lightsSet layer)}
   \<and> distinct (directionalLights (collectDirectionalLights L cameraLayers dirLights allLights ra))
   \<and> directionalLightsSet (collectDirectionalLights L cameraLayers dirLights allLights ra) =
       set (directionalLights (collectDirectionalLights L cameraLayers dirLights allLights ra))
   \<and> (isLayerEnabled ra layerComposition = Inr (Some True) \<longleftrightarrow>
        0 \<le> layerIndex ra \<and> layerIndex ra < int (length (layerList layerComposition)) \<and>
        enabled (layerList layerComposition ! nat (layerIndex ra)) \<and>
        layerIndex ra < int (length (subLayerEnabled layerComposition)) \<and>
        subLayerEnabled layerComposition ! nat (layerIndex ra))"
proof -
  let ?r0 = "ra\<lparr>directionalLightsSet := {}, directionalLights := []\<rparr>"
  have "directionalLightsSet ?r0 = set (directionalLights ?r0)" "distinct (directionalLights ?r0)"
    by simp_all
  from collectLights_inv[OF this, of L cameraLayers dirLights]
  have A: "set (directionalLights (collectDirectionalLights L cameraLayers dirLights allLights ra)) =
       {l \<in> set dirLights. castShadows (L l) \<and> (\<exists>layer \<in> set cameraLayers. l \<in> lightsSet layer)}
     \<and> distinct (directionalLights (collectDirectionalLights L cameraLayers dirLights allLights ra))
     \<and> directionalLightsSet (collectDirectionalLights L cameraLayers dirLights allLights ra) =
         set (directionalLights (collectDirectionalLights L cameraLayers dirLights allLights ra))"
    by (simp add: collectDirectionalLights_def)
  have B: "isLayerEnabled ra layerComposition = Inr (Some True) \<longleftrightarrow>
        0 \<le> layerIndex ra \<and> layerIndex ra < int (length (layerList layerComposition)) \<and>
        enabled (layerList layerComposition ! nat (layerIndex ra)) \<and>
        layerIndex ra < int (length (subLayerEnabled layerComposition)) \<and>
        subLayerEnabled layerComposition ! nat (layerIndex ra)"
    by (auto simp: isLayerEnabled_def Let_def)
  from A B show ?thesis by blast
qed

text \<open>
  The theorem at a concrete render action: light 1 is listed twice and is in both
  layers, light 2 casts no shadow, light 3 is in no layer of the camera, light 4 is in
  the second layer; the render action starts with stale contents.
\<close>

theorem collectDirectionalLights_isLayerEnabled_witness:
  "{l \<in> set [1, 2, 1, 3, 4]. castShadows (\<lparr>castShadows = (l \<noteq> (2::nat))\<rparr>) \<and>
      (\<exists>layer \<in> set [\<lparr>enabled = True, lightsSet = {1, 2}\<rparr>, \<lparr>enabled = False, lightsSet = {1, 4}\<rparr>].
         l \<in> lightsSet layer)} = set [1, 4]
   \<and> distinct (directionalLights (collectDirectionalLights
          (\<lambda>l. \<lparr>castShadows = (l \<noteq> 2)\<rparr>)
          [\<lparr>enabled = True, lightsSet = {1, 2}\<rparr>, \<lparr>enabled = False, lightsSet = {1, 4}\<rparr>]
          [1, 2, 1, 3, 4] []
          \<lparr>layerIndex = 1, directionalLightsSet = {7}, directionalLights = [7, 7]\<rparr>))
   \<and> isLayerEnabled \<lparr>layerIndex = 1, directionalLightsSet = {7}, directionalLights = [7, 7]\<rparr>
        \<lparr>layerList = [\<lparr>enabled = False, lightsSet = {}\<rparr>, \<lparr>enabled = True, lightsSet = {}\<rparr>],
         subLayerEnabled = [False, True]\<rparr> = Inr (Some True)"
proof -
  note T = collectDirectionalLights_isLayerEnabled
    [of "\<lambda>l. \<lparr>castShadows = (l \<noteq> 2)\<rparr>"
        "[\<lparr>enabled = True, lightsSet = {1, 2}\<rparr>, \<lparr>enabled = False, lightsSet = {1, 4}\<rparr>]"
        "[1, 2, 1, 3, 4]" "[]"
        "\<lparr>layerIndex = 1, directionalLightsSet = {7}, directionalLights = [7, 7]\<rparr>"
        "\<lparr>layerList = [\<lparr>enabled = False, lightsSet = {}\<rparr>, \<lparr>enabled = True, lightsSet = {}\<rparr>],
         subLayerEnabled = [False, True]\<rparr>"]
  have ev: "directionalLights (collectDirectionalLights
          (\<lambda>l. \<lparr>castShadows = (l \<noteq> 2)\<rparr>)
          [\<lparr>enabled = True, lightsSet = {1, 2}\<rparr>, \<lparr>enabled = False, lightsSet = {1, 4}\<rparr>]
          [1, 2, 1, 3, 4] []
          \<lparr>layerIndex = 1, directionalLightsSet = {7}, directionalLights = [7, 7]\<rparr>) = [1, 4]"
    by (simp add: collectDirectionalLights_def)
  have 1: "{l \<in> set [1, 2, 1, 3, 4]. castShadows (\<lparr>castShadows = (l \<noteq> (2::nat))\<rparr>) \<and>
      (\<exists>layer \<in> set [\<lparr>enabled = True, lightsSet = {1, 2}\<rparr>, \<lparr>enabled = False, lightsSet = {1, 4}\<rparr>].
         l \<in> lightsSet layer)} = set [1, 4]"
    using T[THEN conjunct1] unfolding ev by (rule sym)
  have 2: "distinct (directionalLights (collectDirectionalLights
          (\<lambda>l. \<lparr>castShadows = (l \<noteq> 2)\<rparr>)
          [\<lparr>enabled = True, lightsSet = {1, 2}\<rparr>, \<lparr>enabled = False, lightsSet = {1, 4}\<rparr>]
          [1, 2, 1, 3, 4] []
          \<lparr>layerIndex = 1, directionalLightsSet = {7}, directionalLights = [7, 7]\<rparr>))"
    using T[THEN conjunct2, THEN conjunct1] .
  have 3: "isLayerEnabled \<lparr>layerIndex = 1, directionalLightsSet = {7}, directionalLights = [7, 7]\<rparr>
        \<lparr>layerList = [\<lparr>enabled = False, lightsSet = {}\<rparr>, \<lparr>enabled = True, lightsSet = {}\<rparr>],
         subLayerEnabled = [False, True]\<rparr> = Inr (Some True)"
    using T[THEN conjunct2, THEN conjunct2, THEN conjunct2] by simp
  from 1 2 3 show ?thesis by (intro conjI)
qed

section \<open>RigidBodyComponentSystem: the parts of a collision check\<close>

lemma othersOf_update:
  "othersOf (AList.update k v al) g = (if g = k then others v else othersOf al g)"
  by (simp add: othersOf_def update_conv')

lemma storeCollision_fired [simp]: "fired (snd (storeCollision E e oth s)) = fired s"
  by (simp add: storeCollision_def Let_def)

lemma storeCollision_systemHasEvent [simp]:
  "systemHasEvent (snd (storeCollision E e oth s)) = systemHasEvent s"
  by (simp add: storeCollision_def Let_def)

lemma storeCollision_new:
  "fst (storeCollision E e oth s) \<longleftrightarrow> oth \<notin> set (othersOf (collisions s) (getGuid (E e)))"
  by (simp add: storeCollision_def Let_def othersOf_def split: option.splits)

lemma storeCollision_collisions:
  "othersOf (collisions (snd (storeCollision E e oth s))) g =
     (if g = getGuid (E e) \<and> oth \<notin> set (othersOf (collisions s) g)
      then othersOf (collisions s) g @ [oth] else othersOf (collisions s) g)"
  by (simp add: storeCollision_def Let_def othersOf_update) (simp add: othersOf_def split: option.splits)

lemma storeCollision_frameCollisions:
  "othersOf (frameCollisions (snd (storeCollision E e oth s))) g =
     (if g = getGuid (E e)
      then othersOf (frameCollisions s) g @ [oth] else othersOf (frameCollisions s) g)"
  by (simp add: storeCollision_def Let_def othersOf_update) (simp add: othersOf_def split: option.splits)

lemma storeCollision_entity:
  "map_of (collisions (snd (storeCollision E e oth s))) g = Some c' \<Longrightarrow>
     (case map_of (collisions s) g of
        Some c \<Rightarrow> entity c' = entity c
      | None \<Rightarrow> g = getGuid (E e) \<and> entity c' = e)"
  by (auto simp: storeCollision_def Let_def update_conv' split: option.splits if_splits)

lemma storeCollision_dom:
  "map_of (collisions s) g = Some c \<Longrightarrow>
     \<exists>c'. map_of (collisions (snd (storeCollision E e oth s))) g = Some c' \<and> entity c' = entity c"
  by (auto simp: storeCollision_def Let_def update_conv' split: option.splits if_splits)

lemma grows_refl [simp]: "grows s s"
  by (simp add: grows_def)

lemma grows_trans: "grows s s' \<Longrightarrow> grows s' s'' \<Longrightarrow> grows s s''"
  unfolding grows_def
  apply (intro conjI)
      apply (metis append.assoc)
     apply simp
    apply (metis append.assoc)
   apply (metis append.assoc)
  apply metis
  done

lemma grows_fire [simp]: "grows s (fire t n a s)"
  by (simp add: grows_def fire_def)

lemma grows_storeCollision [simp]: "grows s (snd (storeCollision E e oth s))"
  unfolding grows_def
  by (intro conjI) (auto simp: storeCollision_collisions storeCollision_frameCollisions storeCollision_dom)

lemma keyed_fire [simp]: "keyed E (fire t n a s) = keyed E s"
  by (simp add: keyed_def fire_def)

lemma keyed_storeCollision: "keyed E s \<Longrightarrow> keyed E (snd (storeCollision E e oth s))"
  unfolding keyed_def
  by (auto dest!: storeCollision_entity split: option.splits)


lemma contactEvents_eq:
  "contactEvents E ent oth cs s =
     (snd (storeCollision E ent oth s))\<lparr>fired := fired s @
        contactFired E ent oth cs (oth \<notin> set (othersOf (collisions s) (getGuid (E ent))))\<rparr>"
proof -
  obtain n s1 where st: "storeCollision E ent oth s = (n, s1)" by (cases "storeCollision E ent oth s")
  have n: "n \<longleftrightarrow> oth \<notin> set (othersOf (collisions s) (getGuid (E ent)))"
    using storeCollision_new[of E ent oth s] st by simp
  have f: "fired s1 = fired s" using storeCollision_fired[of E ent oth s] st by simp
  show ?thesis
    unfolding contactEvents_def createContactResult_def st contactFired_def
    by (simp add: Let_def fire_def n f split: option.splits)
qed

lemma contactLoop_eq:
  "contactLoop pe ge e0 e1 bts (fw, rv, s) =
     (fw @ (if pe then map createContactPointFromAmmo bts else []),
      rv @ (if pe then map createReverseContactPointFromAmmo bts else []),
      s\<lparr>fired := fired s @ (if ge then map (\<lambda>bt. Fired OnSystem ''contact''
           (ArgSingleContactResult (createSingleContactResult e0 e1 (createContactPointFromAmmo bt)))) bts else [])\<rparr>)"
  by (induction bts arbitrary: fw rv s) (simp_all add: Let_def fire_def)


lemma triggerCollisionEvents_rule:
  assumes "P (snd acc)"
    and "\<And>s. P s \<Longrightarrow> P (snd (storeCollision E ent oth s))"
    and "\<And>s. P s \<Longrightarrow> P (fire (OnCollision ent) ''triggerenter'' (ArgEntity oth) s)"
  shows "P (snd (triggerCollisionEvents E F ent oth fl acc))"
proof (cases acc)
  case (Pair n s)
  obtain n1 s1 where st: "storeCollision E ent oth s = (n1, s1)" by (cases "storeCollision E ent oth s")
  have "P s1" using assms(2)[of s] assms(1) Pair st by simp
  then show ?thesis using assms(1) assms(3)[of s1] Pair st
    by (simp add: triggerCollisionEvents_def)
qed

lemma triggerBodyEvents_rule:
  assumes "P (snd acc)"
    and "\<And>s. P s \<Longrightarrow> P (snd (storeCollision E oth ent s))"
    and "\<And>s. P s \<Longrightarrow> P (fire (OnRigidbody ent) ''triggerenter'' (ArgEntity oth) s)"
  shows "P (snd (triggerBodyEvents E ent oth acc))"
proof (cases acc)
  case (Pair n s)
  obtain n1 s1 where st: "storeCollision E oth ent s = (n1, s1)" by (cases "storeCollision E oth ent s")
  have "P s1" using assms(2)[of s] assms(1) Pair st by simp
  then show ?thesis using assms(1) assms(3)[of s1] assms(3)[of s] Pair st
    by (simp add: triggerBodyEvents_def)
qed

lemma triggerContacts_rule:
  assumes "P s"
    and st: "\<And>s a b. P s \<Longrightarrow> (a, b) = (e0, e1) \<or> (a, b) = (e1, e0) \<Longrightarrow> P (snd (storeCollision E a b s))"
    and fi: "\<And>s t b. P s \<Longrightarrow> (t, b) \<in> {(OnCollision e0, e1), (OnCollision e1, e0), (OnRigidbody e0, e1), (OnRigidbody e1, e0)}
                 \<Longrightarrow> P (fire t ''triggerenter'' (ArgEntity b) s)"
  shows "P (triggerContacts E F e0 e1 flags0 flags1 s)"
  unfolding triggerContacts_def
  apply (rule triggerBodyEvents_rule)
    apply (rule triggerBodyEvents_rule)
      apply (rule triggerCollisionEvents_rule)
        apply (rule triggerCollisionEvents_rule)
          apply (simp add: assms(1))
         apply (simp add: st)
        apply (simp add: fi)
       apply (simp add: st)
      apply (simp add: fi)
     apply (simp add: st)
    apply (simp add: fi)
   apply (simp add: st)
  apply (simp add: fi)
  done

lemma grows_triggerContacts: "grows s (triggerContacts E F e0 e1 flags0 flags1 s)"
  by (rule triggerContacts_rule) (auto intro: grows_trans[OF _ grows_storeCollision] grows_trans[OF _ grows_fire])

lemma keyed_triggerContacts: "keyed E s \<Longrightarrow> keyed E (triggerContacts E F e0 e1 flags0 flags1 s)"
  by (rule triggerContacts_rule) (auto intro: keyed_storeCollision)


lemma grows_firedSince: "grows s s' \<Longrightarrow> fired s' = fired s @ firedSince (length (fired s)) s'"
  by (auto simp: grows_def firedSince_def)

lemma grows_others_mono: "grows s s' \<Longrightarrow> set (othersOf (collisions s) g) \<subseteq> set (othersOf (collisions s') g)"
  unfolding grows_def by (metis set_append Un_upper1)

lemma grows_frame_mono: "grows s s' \<Longrightarrow> set (othersOf (frameCollisions s) g) \<subseteq> set (othersOf (frameCollisions s') g)"
  unfolding grows_def by (metis set_append Un_upper1)

lemma firedSince_trans:
  "grows s s' \<Longrightarrow> grows s' s'' \<Longrightarrow>
   firedSince (length (fired s)) s'' = firedSince (length (fired s)) s' @ firedSince (length (fired s')) s''"
  by (auto simp: grows_def firedSince_def)

lemma grows_contactEvents: "grows s (contactEvents E ent oth cs s)"
proof -
  have "grows (snd (storeCollision E ent oth s)) (contactEvents E ent oth cs s)"
    unfolding contactEvents_eq by (simp add: grows_def)
  then show ?thesis using grows_trans grows_storeCollision by blast
qed

lemma keyed_contactEvents: "keyed E s \<Longrightarrow> keyed E (contactEvents E ent oth cs s)"
  using keyed_storeCollision[of E s ent oth] unfolding contactEvents_eq by (simp add: keyed_def)

lemma checkManifold_cases [case_names skip trigger contact]:
  obtains "checkManifold E F s m = s"
  | e0 e1 where "body_entity (getBody0 m) = Some e0" "body_entity (getBody1 m) = Some e1"
      "contactPoints m \<noteq> []" "flagged F m"
      "checkManifold E F s m =
         triggerContacts E F e0 e1 (getCollisionFlags (getBody0 m)) (getCollisionFlags (getBody1 m)) s"
  | e0 e1 where "body_entity (getBody0 m) = Some e0" "body_entity (getBody1 m) = Some e1"
      "contactPoints m \<noteq> []" "\<not> flagged F m"
      "checkManifold E F s m =
         (if hasContactEvent E e1
          then contactEvents E e1 e0 (map createReverseContactPointFromAmmo (contactPoints m)) else id)
         ((if hasContactEvent E e0
           then contactEvents E e0 e1 (map createContactPointFromAmmo (contactPoints m)) else id)
          (s\<lparr>fired := fired s @ globalContacts e0 e1 m s\<rparr>))"
proof (cases "body_entity (getBody0 m)")
  case None
  then have "checkManifold E F s m = s" by (simp add: checkManifold_def)
  then show ?thesis using that(1) by blast
next
  case (Some e0)
  note e0 = this
  show ?thesis
  proof (cases "body_entity (getBody1 m)")
    case None
    then have "checkManifold E F s m = s" using e0 by (simp add: checkManifold_def)
    then show ?thesis using that(1) by blast
  next
    case (Some e1)
    show ?thesis
    proof (cases "contactPoints m = []")
      case True
      then have "checkManifold E F s m = s" using e0 Some by (simp add: checkManifold_def)
      then show ?thesis using that(1) by blast
    next
      case False
      show ?thesis
      proof (cases "flagged F m")
        case True
        then have "checkManifold E F s m =
           triggerContacts E F e0 e1 (getCollisionFlags (getBody0 m)) (getCollisionFlags (getBody1 m)) s"
          using e0 Some False by (simp add: checkManifold_def flagged_def Let_def)
        then show ?thesis using that(2) e0 Some False True by blast
      next
        case nf: False
        have "checkManifold E F s m =
         (if hasContactEvent E e1
          then contactEvents E e1 e0 (map createReverseContactPointFromAmmo (contactPoints m)) else id)
         ((if hasContactEvent E e0
           then contactEvents E e0 e1 (map createContactPointFromAmmo (contactPoints m)) else id)
          (s\<lparr>fired := fired s @ globalContacts e0 e1 m s\<rparr>))"
          using e0 Some False nf
          by (simp add: checkManifold_def flagged_def Let_def contactLoop_eq globalContacts_def)
        then show ?thesis using that(3) e0 Some False nf by blast
      qed
    qed
  qed
qed


lemma contactEvents_firedSince:
  "firedSince (length (fired s)) (contactEvents E ent oth cs s) =
     contactFired E ent oth cs (oth \<notin> set (othersOf (collisions s) (getGuid (E ent))))"
  by (simp add: contactEvents_eq firedSince_def)

lemma contactEvents_collisions:
  "othersOf (collisions (contactEvents E ent oth cs s)) g =
     (if g = getGuid (E ent) \<and> oth \<notin> set (othersOf (collisions s) g)
      then othersOf (collisions s) g @ [oth] else othersOf (collisions s) g)"
  by (simp add: contactEvents_eq storeCollision_collisions)

lemma contactEvents_frameCollisions:
  "othersOf (frameCollisions (contactEvents E ent oth cs s)) g =
     (if g = getGuid (E ent)
      then othersOf (frameCollisions s) g @ [oth] else othersOf (frameCollisions s) g)"
  by (simp add: contactEvents_eq storeCollision_frameCollisions)

lemma contactFired_names:
  "x \<in> set (contactFired E ent oth cs n) \<Longrightarrow> firedName x = ''contact'' \<or> firedName x = ''collisionstart''"
  by (auto simp: contactFired_def split: option.splits if_splits)

lemma contactFired_contact:
  "firedOnComponents E ent ''contact'' oth (contactFired E ent oth cs n)"
  by (cases "collision (E ent)"; cases "rigidbody (E ent)")
     (simp_all add: contactFired_def firedOnComponents_def)

lemma contactFired_start:
  "firedOnComponents E ent ''collisionstart'' oth (contactFired E ent oth cs True)"
  by (cases "collision (E ent)"; cases "rigidbody (E ent)")
     (simp_all add: contactFired_def firedOnComponents_def)

lemma contactFired_start_only:
  "x \<in> set (contactFired E ent oth cs n) \<Longrightarrow> firedOn t ''collisionstart'' b x \<Longrightarrow>
     n \<and> b = oth \<and> (t = OnCollision ent \<or> t = OnRigidbody ent)"
  by (auto simp: contactFired_def split: option.splits if_splits)

lemma globalContacts_names: "x \<in> set (globalContacts e0 e1 m s) \<Longrightarrow> firedName x = ''contact''"
  by (auto simp: globalContacts_def split: if_splits)

lemma globalContacts_target: "x \<in> set (globalContacts e0 e1 m s) \<Longrightarrow> \<not> firedOn t n b x"
  by (auto simp: globalContacts_def split: if_splits)

lemma firedOnComponents_mono:
  "firedOnComponents E ent n oth ev \<Longrightarrow> set ev \<subseteq> set ev' \<Longrightarrow> firedOnComponents E ent n oth ev'"
  unfolding firedOnComponents_def by blast


lemma endEvents_eq: "endEvents E ent oth s = s\<lparr>fired := fired s @ endFired E ent oth\<rparr>"
  by (simp add: endEvents_def endFired_def fire_def Let_def split: option.splits)

lemma cleanOthers_eq:
  assumes K: "\<And>x. (case fc of None \<Rightarrow> True | Some f \<Rightarrow> x \<notin> set (others f)) \<longleftrightarrow> x \<notin> K"
  shows "i \<le> length os \<Longrightarrow>
   cleanOthers E fc ent i (os, s) =
     (filter (\<lambda>x. x \<in> K) (take i os) @ drop i os,
      s\<lparr>fired := fired s @ concat (map (endFired E ent) (rev (filter (\<lambda>x. x \<notin> K) (take i os))))\<rparr>)"
proof (induction i arbitrary: os s)
  case 0
  then show ?case by simp
next
  case (Suc i)
  then have len: "i < length os" by simp
  have tk: "take (Suc i) os = take i os @ [os ! i]" using len by (simp add: take_Suc_conv_app_nth)
  have dr: "drop i os = os ! i # drop (Suc i) os" using len by (simp add: Cons_nth_drop_Suc)
  show ?case
  proof (cases "os ! i \<in> K")
    case True
    have "cleanOthers E fc ent (Suc i) (os, s) = cleanOthers E fc ent i (os, s)"
      using True K[of "os ! i"] by (simp add: Let_def)
    also have "\<dots> = (filter (\<lambda>x. x \<in> K) (take i os) @ drop i os,
      s\<lparr>fired := fired s @ concat (map (endFired E ent) (rev (filter (\<lambda>x. x \<notin> K) (take i os))))\<rparr>)"
      using Suc.IH[of os s] len by simp
    also have "\<dots> = (filter (\<lambda>x. x \<in> K) (take (Suc i) os) @ drop (Suc i) os,
      s\<lparr>fired := fired s @ concat (map (endFired E ent) (rev (filter (\<lambda>x. x \<notin> K) (take (Suc i) os))))\<rparr>)"
      unfolding tk dr using True by simp
    finally show ?thesis .
  next
    case False
    let ?os' = "take i os @ drop (Suc i) os"
    have l': "i \<le> length ?os'" using len by simp
    have t': "take i ?os' = take i os" using len by simp
    have d': "drop i ?os' = drop (Suc i) os" using len by simp
    have "cleanOthers E fc ent (Suc i) (os, s) =
        cleanOthers E fc ent i (?os', endEvents E ent (os ! i) s)"
      using False K[of "os ! i"] by (simp add: Let_def)
    also have "\<dots> = (filter (\<lambda>x. x \<in> K) (take i ?os') @ drop i ?os',
      (endEvents E ent (os ! i) s)\<lparr>fired := fired (endEvents E ent (os ! i) s) @ concat (map (endFired E ent)
           (rev (filter (\<lambda>x. x \<notin> K) (take i ?os'))))\<rparr>)"
      using Suc.IH[OF l'] by simp
    also have "\<dots> = (filter (\<lambda>x. x \<in> K) (take (Suc i) os) @ drop (Suc i) os,
      s\<lparr>fired := fired s @ concat (map (endFired E ent) (rev (filter (\<lambda>x. x \<notin> K) (take (Suc i) os))))\<rparr>)"
      unfolding t' d' tk using False by (simp add: endEvents_eq)
    finally show ?thesis .
  qed
qed

lemma cleanOthers_full:
  "cleanOthers E (map_of fr g) ent (length os) (os, s) =
     (filter (\<lambda>x. x \<in> set (othersOf fr g)) os,
      s\<lparr>fired := fired s @ concat (map (endFired E ent)
           (rev (filter (\<lambda>x. x \<notin> set (othersOf fr g)) os)))\<rparr>)"
proof -
  have K: "\<And>x. (case map_of fr g of None \<Rightarrow> True | Some f \<Rightarrow> x \<notin> set (others f)) \<longleftrightarrow> x \<notin> set (othersOf fr g)"
    by (simp add: othersOf_def split: option.splits)
  show ?thesis using cleanOthers_eq[OF K, of "length os" os E ent s] by simp
qed


lemma cleanGuid_eq:
  "cleanGuid E guid s =
     s\<lparr>fired := fired s @ entryFired E (frameCollisions s) guid (map_of (collisions s) guid),
       collisions :=
         (case map_of (collisions s) guid of
            None \<Rightarrow> collisions s
          | Some c \<Rightarrow>
              (let os = filter (\<lambda>x. x \<in> set (othersOf (frameCollisions s) guid)) (others c)
               in if os = []
                  then AList.delete guid (AList.update guid (c\<lparr>others := os\<rparr>) (collisions s))
                  else AList.update guid (c\<lparr>others := os\<rparr>) (collisions s)))\<rparr>"
  by (cases "map_of (collisions s) guid")
     (simp_all add: cleanGuid_def entryFired_def cleanOthers_full Let_def)

lemma cleanGuid_frameCollisions [simp]: "frameCollisions (cleanGuid E guid s) = frameCollisions s"
  by (simp add: cleanGuid_eq)

lemma cleanGuid_systemHasEvent [simp]: "systemHasEvent (cleanGuid E guid s) = systemHasEvent s"
  by (simp add: cleanGuid_eq)

lemma cleanGuid_fired:
  "fired (cleanGuid E guid s) = fired s @ entryFired E (frameCollisions s) guid (map_of (collisions s) guid)"
  by (simp add: cleanGuid_eq)

lemma cleanGuid_map_of:
  "map_of (collisions (cleanGuid E guid s)) g =
     (if g = guid then cleaned (frameCollisions s) guid (map_of (collisions s) guid)
      else map_of (collisions s) g)"
  by (cases "map_of (collisions s) guid")
     (auto simp: cleanGuid_eq cleaned_def Let_def update_conv' delete_conv')

lemma cleaned_idem: "cleaned fr g (cleaned fr g entry) = cleaned fr g entry"
  by (cases entry) (auto simp: cleaned_def Let_def)

lemma entryFired_cleaned [simp]: "entryFired E fr g (cleaned fr g entry) = []"
  by (cases entry) (auto simp: cleaned_def entryFired_def Let_def filter_empty_conv)

lemma cleanGuids_frameCollisions [simp]: "frameCollisions (cleanGuids E gs s) = frameCollisions s"
  by (induction gs arbitrary: s) simp_all

lemma cleanGuids_systemHasEvent [simp]: "systemHasEvent (cleanGuids E gs s) = systemHasEvent s"
  by (induction gs arbitrary: s) simp_all

lemma cleanGuids_map_of:
  "map_of (collisions (cleanGuids E gs s)) g =
     (if g \<in> set gs then cleaned (frameCollisions s) g (map_of (collisions s) g)
      else map_of (collisions s) g)"
  by (induction gs arbitrary: s) (auto simp: cleanGuid_map_of cleaned_idem)

lemma cleanGuids_fired:
  "\<exists>ev. fired (cleanGuids E gs s) = fired s @ ev \<and>
        set ev = (\<Union>g \<in> set gs. set (entryFired E (frameCollisions s) g (map_of (collisions s) g)))"
proof (induction gs arbitrary: s)
  case Nil
  then show ?case by simp
next
  case (Cons guid guids)
  let ?s1 = "cleanGuid E guid s"
  let ?fr = "frameCollisions s"
  obtain ev where ev: "fired (cleanGuids E guids ?s1) = fired ?s1 @ ev"
    "set ev = (\<Union>g \<in> set guids. set (entryFired E (frameCollisions ?s1) g (map_of (collisions ?s1) g)))"
    using Cons.IH[of ?s1] by blast
  have B: "\<And>g. set (entryFired E (frameCollisions ?s1) g (map_of (collisions ?s1) g)) =
               (if g = guid then {} else set (entryFired E ?fr g (map_of (collisions s) g)))"
    by (simp add: cleanGuid_map_of)
  have "set ev = (\<Union>g \<in> set guids. if g = guid then {} else set (entryFired E ?fr g (map_of (collisions s) g)))"
    unfolding ev(2) B ..
  then have "set (entryFired E ?fr guid (map_of (collisions s) guid) @ ev) =
        (\<Union>g \<in> set (guid # guids). set (entryFired E ?fr g (map_of (collisions s) g)))"
    by (auto split: if_splits)
  then show ?case using ev(1) by (simp add: cleanGuid_fired)
qed

lemma cleanOld_frameCollisions [simp]: "frameCollisions (cleanOldCollisions E s) = frameCollisions s"
  by (simp add: cleanOldCollisions_def)

lemma cleanOld_systemHasEvent [simp]: "systemHasEvent (cleanOldCollisions E s) = systemHasEvent s"
  by (simp add: cleanOldCollisions_def)

lemma cleanOld_map_of:
  "map_of (collisions (cleanOldCollisions E s)) g = cleaned (frameCollisions s) g (map_of (collisions s) g)"
proof (cases "map_of (collisions s) g")
  case None
  then have "g \<notin> set (map fst (collisions s))" by (simp add: map_of_eq_None_iff)
  then show ?thesis using None by (simp add: cleanOldCollisions_def cleanGuids_map_of cleaned_def)
next
  case (Some c)
  then have "(g, c) \<in> set (collisions s)" by (rule map_of_SomeD)
  then have "g \<in> set (map fst (collisions s))" by force
  then show ?thesis by (simp add: cleanOldCollisions_def cleanGuids_map_of)
qed

lemma cleanOld_fired:
  fixes s :: "'n RigidBodyComponentSystem"
  shows "\<exists>ev. fired (cleanOldCollisions E s) = fired s @ ev \<and>
        set ev = (\<Union>g. set (entryFired E (frameCollisions s) g (map_of (collisions s) g)))"
proof -
  obtain ev where ev: "fired (cleanOldCollisions E s) = fired s @ ev"
    "set ev = (\<Union>g \<in> set (map fst (collisions s)). set (entryFired E (frameCollisions s) g (map_of (collisions s) g)))"
    using cleanGuids_fired[of E "map fst (collisions s)" s] unfolding cleanOldCollisions_def by blast
  have none: "\<And>g. g \<notin> set (map fst (collisions s)) \<Longrightarrow>
      (entryFired E (frameCollisions s) g (map_of (collisions s) g) :: 'n fired list) = []"
    by (simp add: map_of_eq_None_iff[symmetric] entryFired_def)
  have "set ev = (\<Union>g. set (entryFired E (frameCollisions s) g (map_of (collisions s) g)))"
  proof (intro equalityI subsetI)
    fix x :: "'n fired" assume "x \<in> set ev"
    then show "x \<in> (\<Union>g. set (entryFired E (frameCollisions s) g (map_of (collisions s) g)))"
      unfolding ev(2) by blast
  next
    fix x :: "'n fired" assume "x \<in> (\<Union>g. set (entryFired E (frameCollisions s) g (map_of (collisions s) g)))"
    then obtain g where g: "x \<in> set (entryFired E (frameCollisions s) g (map_of (collisions s) g))" by blast
    have "g \<in> set (map fst (collisions s))"
    proof (rule ccontr)
      assume "g \<notin> set (map fst (collisions s))"
      from none[OF this] g show False by simp
    qed
    then show "x \<in> set ev" unfolding ev(2) using g by blast
  qed
  then show ?thesis using ev(1) by blast
qed

lemma cleanOld_firedSince:
  fixes s :: "'n RigidBodyComponentSystem"
  shows "set (firedSince (length (fired s)) (cleanOldCollisions E s)) =
     (\<Union>g. set (entryFired E (frameCollisions s) g (map_of (collisions s) g)))"
proof -
  obtain ev where ev: "fired (cleanOldCollisions E s) = fired s @ ev"
    "set ev = (\<Union>g. set (entryFired E (frameCollisions s) g (map_of (collisions s) g)))"
    using cleanOld_fired[of E s] by blast
  have "firedSince (length (fired s)) (cleanOldCollisions E s) = ev"
    by (simp add: firedSince_def ev(1))
  then show ?thesis using ev(2) by simp
qed

lemma cleanOld_othersOf:
  "othersOf (collisions (cleanOldCollisions E s)) g =
     filter (\<lambda>x. x \<in> set (othersOf (frameCollisions s) g)) (othersOf (collisions s) g)"
  by (cases "map_of (collisions s) g") (simp_all add: cleanOld_map_of othersOf_def cleaned_def Let_def)

lemma grows_fired_append [simp]: "grows s (s\<lparr>fired := fired s @ ev\<rparr>)"
  by (simp add: grows_def)

lemma keyed_fired_update [simp]: "keyed E (s\<lparr>fired := f\<rparr>) = keyed E s"
  by (simp add: keyed_def)

lemma grows_checkManifold: "grows s (checkManifold E F s m)"
proof (cases rule: checkManifold_cases[of E F s m])
  case skip
  then show ?thesis by simp
next
  case (trigger e0 e1)
  then show ?thesis by (simp add: grows_triggerContacts)
next
  case (contact e0 e1)
  let ?sA = "s\<lparr>fired := fired s @ globalContacts e0 e1 m s\<rparr>"
  let ?sB = "(if hasContactEvent E e0
           then contactEvents E e0 e1 (map createContactPointFromAmmo (contactPoints m)) else id) ?sA"
  have A: "grows s ?sA" by simp
  have B: "grows ?sA ?sB" by (simp add: grows_contactEvents)
  have C: "grows ?sB (checkManifold E F s m)" unfolding contact(5) by (simp add: grows_contactEvents)
  from A B C show ?thesis using grows_trans by blast
qed

lemma keyed_checkManifold: "keyed E s \<Longrightarrow> keyed E (checkManifold E F s m)"
proof (cases rule: checkManifold_cases[of E F s m])
  case skip
  then show "keyed E s \<Longrightarrow> ?thesis" by simp
next
  case (trigger e0 e1)
  then show "keyed E s \<Longrightarrow> ?thesis" by (simp add: keyed_triggerContacts)
next
  case (contact e0 e1)
  then show "keyed E s \<Longrightarrow> ?thesis" by (simp add: keyed_contactEvents)
qed

lemma grows_checkManifolds: "grows s (checkManifolds E F ms s)"
proof (induction ms arbitrary: s)
  case Nil
  then show ?case by simp
next
  case (Cons m ms)
  show ?case using grows_trans[OF grows_checkManifold Cons.IH] by simp
qed

lemma keyed_checkManifolds: "keyed E s \<Longrightarrow> keyed E (checkManifolds E F ms s)"
  by (induction ms arbitrary: s) (simp_all add: keyed_checkManifold)

lemma cleaned_keyed:
  "keyed E s \<Longrightarrow> keyed E (cleanOldCollisions E s)"
  unfolding keyed_def cleanOld_map_of
  by (auto simp: cleaned_def Let_def split: option.splits if_splits)

lemma keyed_checkForCollisions: "keyed E s \<Longrightarrow> keyed E (checkForCollisions E F ms s)"
  unfolding checkForCollisions_def
  by (rule cleaned_keyed, rule keyed_checkManifolds) (simp add: keyed_def)


lemma triggerContacts_names:
  "x \<in> set (firedSince (length (fired s)) (triggerContacts E F e0 e1 flags0 flags1 s)) \<Longrightarrow>
   firedName x = ''triggerenter''"
proof -
  have "\<exists>ev. fired (triggerContacts E F e0 e1 flags0 flags1 s) = fired s @ ev \<and>
          (\<forall>x \<in> set ev. firedName x = ''triggerenter'')"
    by (rule triggerContacts_rule) (auto simp: fire_def)
  then show "x \<in> set (firedSince (length (fired s)) (triggerContacts E F e0 e1 flags0 flags1 s)) \<Longrightarrow>
   firedName x = ''triggerenter''"
    by (auto simp: firedSince_def)
qed

lemma triggerContacts_adds:
  "x \<in> set (othersOf (collisions (triggerContacts E F e0 e1 flags0 flags1 s)) g) \<Longrightarrow>
   x \<in> set (othersOf (collisions s) g) \<or> (g = getGuid (E e0) \<and> x = e1) \<or> (g = getGuid (E e1) \<and> x = e0)"
proof -
  have "\<forall>g x. x \<in> set (othersOf (collisions (triggerContacts E F e0 e1 flags0 flags1 s)) g) \<longrightarrow>
   x \<in> set (othersOf (collisions s) g) \<or> (g = getGuid (E e0) \<and> x = e1) \<or> (g = getGuid (E e1) \<and> x = e0)"
    by (rule triggerContacts_rule) (auto simp: storeCollision_collisions fire_def split: if_splits)
  then show "x \<in> set (othersOf (collisions (triggerContacts E F e0 e1 flags0 flags1 s)) g) \<Longrightarrow>
   x \<in> set (othersOf (collisions s) g) \<or> (g = getGuid (E e0) \<and> x = e1) \<or> (g = getGuid (E e1) \<and> x = e0)"
    by blast
qed

lemma triggerCollisionEvents_eq:
  "triggerCollisionEvents E F ent oth fl (n, s) =
     (if hasTriggerEvents (collision (E ent))
      then (\<not> recorded E (collisions s) ent oth,
            (snd (storeCollision E ent oth s))\<lparr>fired := fired s @
               (if \<not> recorded E (collisions s) ent oth \<and> \<not> noResponse F fl
                then [Fired (OnCollision ent) ''triggerenter'' (ArgEntity oth)] else [])\<rparr>)
      else (n, s))"
proof -
  obtain n1 s1 where st: "storeCollision E ent oth s = (n1, s1)" by (cases "storeCollision E ent oth s")
  have n: "n1 \<longleftrightarrow> \<not> recorded E (collisions s) ent oth"
    using storeCollision_new[of E ent oth s] st by (simp add: recorded_def)
  have f: "fired s1 = fired s" using storeCollision_fired[of E ent oth s] st by simp
  show ?thesis
    using n f by (simp add: triggerCollisionEvents_def st fire_def)
qed

lemma triggerBodyEvents_eq:
  "triggerBodyEvents E ent oth (n, s) =
     (if hasTriggerEvents (rigidbody (E ent))
      then (n \<or> \<not> recorded E (collisions s) oth ent,
            (if n then s else snd (storeCollision E oth ent s))\<lparr>fired := fired s @
               (if n \<or> \<not> recorded E (collisions s) oth ent
                then [Fired (OnRigidbody ent) ''triggerenter'' (ArgEntity oth)] else [])\<rparr>)
      else (n, s))"
proof -
  obtain n1 s1 where st: "storeCollision E oth ent s = (n1, s1)" by (cases "storeCollision E oth ent s")
  have n: "n1 \<longleftrightarrow> \<not> recorded E (collisions s) oth ent"
    using storeCollision_new[of E oth ent s] st by (simp add: recorded_def)
  have f: "fired s1 = fired s" using storeCollision_fired[of E oth ent s] st by simp
  show ?thesis
    using n f by (simp add: triggerBodyEvents_def st fire_def)
qed


lemma recorded_storeCollision:
  "recorded E (collisions (snd (storeCollision E ent oth s))) a b \<longleftrightarrow>
     recorded E (collisions s) a b \<or> (getGuid (E a) = getGuid (E ent) \<and> b = oth)"
  "recorded E (frameCollisions (snd (storeCollision E ent oth s))) a b \<longleftrightarrow>
     recorded E (frameCollisions s) a b \<or> (getGuid (E a) = getGuid (E ent) \<and> b = oth)"
  by (auto simp: recorded_def storeCollision_collisions storeCollision_frameCollisions)

lemma triggerCollisionEvents_facts:
  fixes s :: "'n RigidBodyComponentSystem" and E F ent oth fl n
  defines "r \<equiv> triggerCollisionEvents E F ent oth fl (n, s)"
  defines "c \<equiv> hasTriggerEvents (collision (E ent))"
  shows "fst r = (if c then \<not> recorded E (collisions s) ent oth else n)"
    and "fired (snd r) = fired s @
           (if c \<and> \<not> recorded E (collisions s) ent oth \<and> \<not> noResponse F fl
            then [Fired (OnCollision ent) ''triggerenter'' (ArgEntity oth)] else [])"
    and "recorded E (collisions (snd r)) a b \<longleftrightarrow>
           recorded E (collisions s) a b \<or> (c \<and> getGuid (E a) = getGuid (E ent) \<and> b = oth)"
    and "recorded E (frameCollisions (snd r)) a b \<longleftrightarrow>
           recorded E (frameCollisions s) a b \<or> (c \<and> getGuid (E a) = getGuid (E ent) \<and> b = oth)"
  unfolding r_def c_def triggerCollisionEvents_eq
  by (simp_all add: recorded_storeCollision)

lemma triggerBodyEvents_facts:
  fixes s :: "'n RigidBodyComponentSystem" and E ent oth n
  defines "r \<equiv> triggerBodyEvents E ent oth (n, s)"
  defines "c \<equiv> hasTriggerEvents (rigidbody (E ent))"
  shows "fst r = (if c then n \<or> \<not> recorded E (collisions s) oth ent else n)"
    and "fired (snd r) = fired s @
           (if c \<and> (n \<or> \<not> recorded E (collisions s) oth ent)
            then [Fired (OnRigidbody ent) ''triggerenter'' (ArgEntity oth)] else [])"
    and "recorded E (collisions (snd r)) a b \<longleftrightarrow>
           recorded E (collisions s) a b \<or> (c \<and> \<not> n \<and> getGuid (E a) = getGuid (E oth) \<and> b = ent)"
    and "recorded E (frameCollisions (snd r)) a b \<longleftrightarrow>
           recorded E (frameCollisions s) a b \<or> (c \<and> \<not> n \<and> getGuid (E a) = getGuid (E oth) \<and> b = ent)"
  unfolding r_def c_def triggerBodyEvents_eq
  by (simp_all add: recorded_storeCollision)


lemma triggerContacts_summary:
  fixes t :: "'n RigidBodyComponentSystem" and E F e0 e1 flags0 flags1
  assumes gd: "getGuid (E e0) \<noteq> getGuid (E e1)"
  defines "c0 \<equiv> hasTriggerEvents (collision (E e0))" and "c1 \<equiv> hasTriggerEvents (collision (E e1))"
    and "r0 \<equiv> hasTriggerEvents (rigidbody (E e0))" and "r1 \<equiv> hasTriggerEvents (rigidbody (E e1))"
    and "R0 \<equiv> recorded E (collisions t) e0 e1" and "R1 \<equiv> recorded E (collisions t) e1 e0"
  defines "n2 \<equiv> (if c1 then \<not> R1 else c0 \<and> \<not> R0)"
  defines "n3 \<equiv> (if r0 then n2 \<or> \<not> (R1 \<or> c1) else n2)"
  defines "t' \<equiv> triggerContacts E F e0 e1 flags0 flags1 t"
  shows "fired t' = fired t @
           (if c0 \<and> \<not> R0 \<and> \<not> noResponse F flags1
            then [Fired (OnCollision e0) ''triggerenter'' (ArgEntity e1)] else []) @
           (if c1 \<and> \<not> R1 \<and> \<not> noResponse F flags0
            then [Fired (OnCollision e1) ''triggerenter'' (ArgEntity e0)] else []) @
           (if r0 \<and> n3
            then [Fired (OnRigidbody e0) ''triggerenter'' (ArgEntity e1)] else []) @
           (if r1 \<and> (n3 \<or> \<not> (R0 \<or> c0))
            then [Fired (OnRigidbody e1) ''triggerenter'' (ArgEntity e0)] else [])"
    and "recorded E (collisions t') e0 e1 \<longleftrightarrow> R0 \<or> c0 \<or> (r1 \<and> \<not> n3)"
    and "recorded E (collisions t') e1 e0 \<longleftrightarrow> R1 \<or> c1 \<or> (r0 \<and> \<not> n2)"
    and "recorded E (frameCollisions t') e0 e1 \<longleftrightarrow>
           recorded E (frameCollisions t) e0 e1 \<or> c0 \<or> (r1 \<and> \<not> n3)"
    and "recorded E (frameCollisions t') e1 e0 \<longleftrightarrow>
           recorded E (frameCollisions t) e1 e0 \<or> c1 \<or> (r0 \<and> \<not> n2)"
proof -
  obtain k1 s1 where a1: "triggerCollisionEvents E F e0 e1 flags1 (False, t) = (k1, s1)"
    by (cases "triggerCollisionEvents E F e0 e1 flags1 (False, t)")
  obtain k2 s2 where a2: "triggerCollisionEvents E F e1 e0 flags0 (k1, s1) = (k2, s2)"
    by (cases "triggerCollisionEvents E F e1 e0 flags0 (k1, s1)")
  obtain k3 s3 where a3: "triggerBodyEvents E e0 e1 (k2, s2) = (k3, s3)"
    by (cases "triggerBodyEvents E e0 e1 (k2, s2)")
  obtain k4 s4 where a4: "triggerBodyEvents E e1 e0 (k3, s3) = (k4, s4)"
    by (cases "triggerBodyEvents E e1 e0 (k3, s3)")
  have t': "t' = s4" by (simp add: t'_def triggerContacts_def a1 a2 a3 a4)
  have e: "e0 \<noteq> e1" using gd by auto
  note A = triggerCollisionEvents_facts[where E = E and F = F and ent = e0 and oth = e1 and fl = flags1
      and n = False and s = t, unfolded a1 fst_conv snd_conv, folded c0_def R0_def]
  note B = triggerCollisionEvents_facts[where E = E and F = F and ent = e1 and oth = e0 and fl = flags0
      and n = k1 and s = s1, unfolded a2 fst_conv snd_conv, folded c1_def]
  note C = triggerBodyEvents_facts[where E = E and ent = e0 and oth = e1
      and n = k2 and s = s2, unfolded a3 fst_conv snd_conv, folded r0_def]
  note D = triggerBodyEvents_facts[where E = E and ent = e1 and oth = e0
      and n = k3 and s = s3, unfolded a4 fst_conv snd_conv, folded r1_def]
  have k1: "k1 = (c0 \<and> \<not> R0)" using A(1) by simp
  have r1a: "recorded E (collisions s1) e0 e1 = (R0 \<or> c0)" "recorded E (collisions s1) e1 e0 = R1"
    using A(3)[of e0 e1] A(3)[of e1 e0] gd e by (simp_all add: R0_def R1_def)
  have f1a: "recorded E (frameCollisions s1) e0 e1 = (recorded E (frameCollisions t) e0 e1 \<or> c0)"
    "recorded E (frameCollisions s1) e1 e0 = recorded E (frameCollisions t) e1 e0"
    using A(4)[of e0 e1] A(4)[of e1 e0] gd e by simp_all
  have k2: "k2 = n2" using B(1) k1 r1a by (simp add: n2_def)
  have r2a: "recorded E (collisions s2) e0 e1 = (R0 \<or> c0)" "recorded E (collisions s2) e1 e0 = (R1 \<or> c1)"
    using B(3)[of e0 e1] B(3)[of e1 e0] gd e r1a by simp_all
  have f2a: "recorded E (frameCollisions s2) e0 e1 = (recorded E (frameCollisions t) e0 e1 \<or> c0)"
    "recorded E (frameCollisions s2) e1 e0 = (recorded E (frameCollisions t) e1 e0 \<or> c1)"
    using B(4)[of e0 e1] B(4)[of e1 e0] gd e f1a by simp_all
  have k3: "k3 = n3" using C(1) k2 r2a by (simp add: n3_def)
  have r3a: "recorded E (collisions s3) e0 e1 = (R0 \<or> c0)"
    "recorded E (collisions s3) e1 e0 = (R1 \<or> c1 \<or> (r0 \<and> \<not> n2))"
    using C(3)[of e0 e1] C(3)[of e1 e0] gd e r2a k2 by simp_all
  have f3a: "recorded E (frameCollisions s3) e0 e1 = (recorded E (frameCollisions t) e0 e1 \<or> c0)"
    "recorded E (frameCollisions s3) e1 e0 = (recorded E (frameCollisions t) e1 e0 \<or> c1 \<or> (r0 \<and> \<not> n2))"
    using C(4)[of e0 e1] C(4)[of e1 e0] gd e f2a k2 by simp_all
  have r4a: "recorded E (collisions s4) e0 e1 = (R0 \<or> c0 \<or> (r1 \<and> \<not> n3))"
    "recorded E (collisions s4) e1 e0 = (R1 \<or> c1 \<or> (r0 \<and> \<not> n2))"
    using D(3)[of e0 e1] D(3)[of e1 e0] gd e r3a k3 by simp_all
  have f4a: "recorded E (frameCollisions s4) e0 e1 = (recorded E (frameCollisions t) e0 e1 \<or> c0 \<or> (r1 \<and> \<not> n3))"
    "recorded E (frameCollisions s4) e1 e0 = (recorded E (frameCollisions t) e1 e0 \<or> c1 \<or> (r0 \<and> \<not> n2))"
    using D(4)[of e0 e1] D(4)[of e1 e0] gd e f3a k3 by simp_all
  have x3: "(k2 \<or> \<not> recorded E (collisions s2) e1 e0) = n3" if r0
    using that k2 r2a by (simp add: n3_def)
  have fr: "fired s4 = fired t @
           (if c0 \<and> \<not> R0 \<and> \<not> noResponse F flags1
            then [Fired (OnCollision e0) ''triggerenter'' (ArgEntity e1)] else []) @
           (if c1 \<and> \<not> R1 \<and> \<not> noResponse F flags0
            then [Fired (OnCollision e1) ''triggerenter'' (ArgEntity e0)] else []) @
           (if r0 \<and> n3
            then [Fired (OnRigidbody e0) ''triggerenter'' (ArgEntity e1)] else []) @
           (if r1 \<and> (n3 \<or> \<not> (R0 \<or> c0))
            then [Fired (OnRigidbody e1) ''triggerenter'' (ArgEntity e0)] else [])"
    unfolding D(2) C(2) B(2) A(2) r1a r3a k3 using x3 by auto
  show "fired t' = fired t @
           (if c0 \<and> \<not> R0 \<and> \<not> noResponse F flags1
            then [Fired (OnCollision e0) ''triggerenter'' (ArgEntity e1)] else []) @
           (if c1 \<and> \<not> R1 \<and> \<not> noResponse F flags0
            then [Fired (OnCollision e1) ''triggerenter'' (ArgEntity e0)] else []) @
           (if r0 \<and> n3
            then [Fired (OnRigidbody e0) ''triggerenter'' (ArgEntity e1)] else []) @
           (if r1 \<and> (n3 \<or> \<not> (R0 \<or> c0))
            then [Fired (OnRigidbody e1) ''triggerenter'' (ArgEntity e0)] else [])"
    unfolding t' by (rule fr)
  show "recorded E (collisions t') e0 e1 \<longleftrightarrow> R0 \<or> c0 \<or> (r1 \<and> \<not> n3)" unfolding t' by (rule r4a)
  show "recorded E (collisions t') e1 e0 \<longleftrightarrow> R1 \<or> c1 \<or> (r0 \<and> \<not> n2)" unfolding t' by (rule r4a)
  show "recorded E (frameCollisions t') e0 e1 \<longleftrightarrow>
           recorded E (frameCollisions t) e0 e1 \<or> c0 \<or> (r1 \<and> \<not> n3)" unfolding t' by (rule f4a)
  show "recorded E (frameCollisions t') e1 e0 \<longleftrightarrow>
           recorded E (frameCollisions t) e1 e0 \<or> c1 \<or> (r0 \<and> \<not> n2)" unfolding t' by (rule f4a)
qed


lemma checkManifold_flagged_eq:
  assumes "body_entity (getBody0 m) = Some e0" "body_entity (getBody1 m) = Some e1"
    "contactPoints m \<noteq> []" "flagged F m"
  shows "checkManifold E F t m =
           triggerContacts E F e0 e1 (getCollisionFlags (getBody0 m)) (getCollisionFlags (getBody1 m)) t"
  using assms by (simp add: checkManifold_def flagged_def)

lemma checkManifold_classifies:
  fixes t :: "'n RigidBodyComponentSystem"
  assumes m: "body_entity (getBody0 m) = Some e0" "body_entity (getBody1 m) = Some e1"
    "contactPoints m \<noteq> []" "flagged F m"
    and gd: "getGuid (E e0) \<noteq> getGuid (E e1)"
  defines "t' \<equiv> checkManifold E F t m"
  defines "ev \<equiv> firedSince (length (fired t)) t'"
  shows "\<forall>x \<in> set ev. firedName x = ''triggerenter''"
    and "hasTriggerEvents (collision (E e0)) \<longrightarrow>
           recorded E (collisions t') e0 e1 \<and> recorded E (frameCollisions t') e0 e1"
    and "hasTriggerEvents (collision (E e1)) \<longrightarrow>
           recorded E (collisions t') e1 e0 \<and> recorded E (frameCollisions t') e1 e0"
    and "hasTriggerEvents (rigidbody (E e0)) \<or> hasTriggerEvents (rigidbody (E e1)) \<longrightarrow>
           recorded E (collisions t') e0 e1 \<and> recorded E (frameCollisions t') e0 e1 \<or>
           recorded E (collisions t') e1 e0 \<and> recorded E (frameCollisions t') e1 e0"
    and "(\<exists>x \<in> set ev. firedOn (OnCollision e0) ''triggerenter'' e1 x) \<longleftrightarrow>
           hasTriggerEvents (collision (E e0)) \<and> \<not> recorded E (collisions t) e0 e1 \<and>
           \<not> noResponse F (getCollisionFlags (getBody1 m))"
    and "(\<exists>x \<in> set ev. firedOn (OnCollision e1) ''triggerenter'' e0 x) \<longleftrightarrow>
           hasTriggerEvents (collision (E e1)) \<and> \<not> recorded E (collisions t) e1 e0 \<and>
           \<not> noResponse F (getCollisionFlags (getBody0 m))"
    and "\<not> recorded E (collisions t) e0 e1 \<and> \<not> recorded E (collisions t) e1 e0 \<longrightarrow>
           (hasTriggerEvents (rigidbody (E e0)) \<longrightarrow>
              (\<exists>x \<in> set ev. firedOn (OnRigidbody e0) ''triggerenter'' e1 x)) \<and>
           (hasTriggerEvents (rigidbody (E e1)) \<longrightarrow>
              (\<exists>x \<in> set ev. firedOn (OnRigidbody e1) ''triggerenter'' e0 x))"
    and "recorded E (collisions t) e0 e1 \<and> recorded E (collisions t) e1 e0 \<longrightarrow> ev = []"
proof -
  note eq = checkManifold_flagged_eq[OF m, of E t]
  note S = triggerContacts_summary[OF gd, where F = F and t = t
      and ?flags0.0 = "getCollisionFlags (getBody0 m)" and ?flags1.0 = "getCollisionFlags (getBody1 m)",
      folded eq, folded t'_def]
  have e: "e0 \<noteq> e1" using gd by auto
  have ev: "ev =
           (if hasTriggerEvents (collision (E e0)) \<and> \<not> recorded E (collisions t) e0 e1 \<and>
               \<not> noResponse F (getCollisionFlags (getBody1 m))
            then [Fired (OnCollision e0) ''triggerenter'' (ArgEntity e1)] else []) @
           (if hasTriggerEvents (collision (E e1)) \<and> \<not> recorded E (collisions t) e1 e0 \<and>
               \<not> noResponse F (getCollisionFlags (getBody0 m))
            then [Fired (OnCollision e1) ''triggerenter'' (ArgEntity e0)] else []) @
           (if hasTriggerEvents (rigidbody (E e0)) \<and>
               (if hasTriggerEvents (rigidbody (E e0))
                then (if hasTriggerEvents (collision (E e1)) then \<not> recorded E (collisions t) e1 e0
                      else hasTriggerEvents (collision (E e0)) \<and> \<not> recorded E (collisions t) e0 e1) \<or>
                     \<not> (recorded E (collisions t) e1 e0 \<or> hasTriggerEvents (collision (E e1)))
                else (if hasTriggerEvents (collision (E e1)) then \<not> recorded E (collisions t) e1 e0
                      else hasTriggerEvents (collision (E e0)) \<and> \<not> recorded E (collisions t) e0 e1))
            then [Fired (OnRigidbody e0) ''triggerenter'' (ArgEntity e1)] else []) @
           (if hasTriggerEvents (rigidbody (E e1)) \<and>
               ((if hasTriggerEvents (rigidbody (E e0))
                then (if hasTriggerEvents (collision (E e1)) then \<not> recorded E (collisions t) e1 e0
                      else hasTriggerEvents (collision (E e0)) \<and> \<not> recorded E (collisions t) e0 e1) \<or>
                     \<not> (recorded E (collisions t) e1 e0 \<or> hasTriggerEvents (collision (E e1)))
                else (if hasTriggerEvents (collision (E e1)) then \<not> recorded E (collisions t) e1 e0
                      else hasTriggerEvents (collision (E e0)) \<and> \<not> recorded E (collisions t) e0 e1)) \<or>
                \<not> (recorded E (collisions t) e0 e1 \<or> hasTriggerEvents (collision (E e0))))
            then [Fired (OnRigidbody e1) ''triggerenter'' (ArgEntity e0)] else [])"
    unfolding ev_def firedSince_def S(1) by simp
  show "\<forall>x \<in> set ev. firedName x = ''triggerenter''" unfolding ev by (auto split: if_splits)
  show "hasTriggerEvents (collision (E e0)) \<longrightarrow>
           recorded E (collisions t') e0 e1 \<and> recorded E (frameCollisions t') e0 e1"
    unfolding S(2) S(4) by simp
  show "hasTriggerEvents (collision (E e1)) \<longrightarrow>
           recorded E (collisions t') e1 e0 \<and> recorded E (frameCollisions t') e1 e0"
    unfolding S(3) S(5) by simp
  show "hasTriggerEvents (rigidbody (E e0)) \<or> hasTriggerEvents (rigidbody (E e1)) \<longrightarrow>
           recorded E (collisions t') e0 e1 \<and> recorded E (frameCollisions t') e0 e1 \<or>
           recorded E (collisions t') e1 e0 \<and> recorded E (frameCollisions t') e1 e0"
    unfolding S(2) S(3) S(4) S(5) by (auto split: if_splits)
  show "(\<exists>x \<in> set ev. firedOn (OnCollision e0) ''triggerenter'' e1 x) \<longleftrightarrow>
           hasTriggerEvents (collision (E e0)) \<and> \<not> recorded E (collisions t) e0 e1 \<and>
           \<not> noResponse F (getCollisionFlags (getBody1 m))"
    unfolding ev using e by (auto split: if_splits)
  show "(\<exists>x \<in> set ev. firedOn (OnCollision e1) ''triggerenter'' e0 x) \<longleftrightarrow>
           hasTriggerEvents (collision (E e1)) \<and> \<not> recorded E (collisions t) e1 e0 \<and>
           \<not> noResponse F (getCollisionFlags (getBody0 m))"
    unfolding ev using e by (auto split: if_splits)
  show "\<not> recorded E (collisions t) e0 e1 \<and> \<not> recorded E (collisions t) e1 e0 \<longrightarrow>
           (hasTriggerEvents (rigidbody (E e0)) \<longrightarrow>
              (\<exists>x \<in> set ev. firedOn (OnRigidbody e0) ''triggerenter'' e1 x)) \<and>
           (hasTriggerEvents (rigidbody (E e1)) \<longrightarrow>
              (\<exists>x \<in> set ev. firedOn (OnRigidbody e1) ''triggerenter'' e0 x))"
    unfolding ev by (auto split: if_splits)
  show "recorded E (collisions t) e0 e1 \<and> recorded E (collisions t) e1 e0 \<longrightarrow> ev = []"
    unfolding ev by (auto split: if_splits)
qed


lemma contact_case_fired:
  fixes s :: "'n RigidBodyComponentSystem" and G :: "'n fired list" and h0 h1 :: bool
    and E :: "entity_ref \<Rightarrow> Entity" and e0 e1 :: entity_ref and fw rv :: "'n ContactPoint list"
  defines "sA \<equiv> s\<lparr>fired := fired s @ G\<rparr>"
  defines "sB \<equiv> (if h0 then contactEvents E e0 e1 fw else id) sA"
  defines "sC \<equiv> (if h1 then contactEvents E e1 e0 rv else id) sB"
  shows "firedSince (length (fired s)) sC =
           G @ (if h0 then contactFired E e0 e1 fw (e1 \<notin> set (othersOf (collisions s) (getGuid (E e0)))) else [])
             @ (if h1 then contactFired E e1 e0 rv (e0 \<notin> set (othersOf (collisions sB) (getGuid (E e1)))) else [])"
    and "othersOf (collisions sB) g =
           (if h0 \<and> g = getGuid (E e0) \<and> e1 \<notin> set (othersOf (collisions s) g)
            then othersOf (collisions s) g @ [e1] else othersOf (collisions s) g)"
    and "othersOf (collisions sC) g =
           (if h1 \<and> g = getGuid (E e1) \<and> e0 \<notin> set (othersOf (collisions sB) g)
            then othersOf (collisions sB) g @ [e0] else othersOf (collisions sB) g)"
    and "othersOf (frameCollisions sB) g =
           (if h0 \<and> g = getGuid (E e0)
            then othersOf (frameCollisions s) g @ [e1] else othersOf (frameCollisions s) g)"
    and "othersOf (frameCollisions sC) g =
           (if h1 \<and> g = getGuid (E e1)
            then othersOf (frameCollisions sB) g @ [e0] else othersOf (frameCollisions sB) g)"
proof -
  have cA: "collisions sA = collisions s" "frameCollisions sA = frameCollisions s"
    "fired sA = fired s @ G"
    by (simp_all add: sA_def)
  have fB: "fired sB = fired sA @ (if h0 then contactFired E e0 e1 fw (e1 \<notin> set (othersOf (collisions s) (getGuid (E e0)))) else [])"
    by (simp add: sB_def contactEvents_eq cA)
  have fC: "fired sC = fired sB @ (if h1 then contactFired E e1 e0 rv (e0 \<notin> set (othersOf (collisions sB) (getGuid (E e1)))) else [])"
    by (simp add: sC_def contactEvents_eq)
  show "firedSince (length (fired s)) sC =
           G @ (if h0 then contactFired E e0 e1 fw (e1 \<notin> set (othersOf (collisions s) (getGuid (E e0)))) else [])
             @ (if h1 then contactFired E e1 e0 rv (e0 \<notin> set (othersOf (collisions sB) (getGuid (E e1)))) else [])"
    unfolding firedSince_def fC fB cA by simp
  show "othersOf (collisions sB) g =
           (if h0 \<and> g = getGuid (E e0) \<and> e1 \<notin> set (othersOf (collisions s) g)
            then othersOf (collisions s) g @ [e1] else othersOf (collisions s) g)"
    by (auto simp: sB_def contactEvents_collisions cA)
  show "othersOf (collisions sC) g =
           (if h1 \<and> g = getGuid (E e1) \<and> e0 \<notin> set (othersOf (collisions sB) g)
            then othersOf (collisions sB) g @ [e0] else othersOf (collisions sB) g)"
    by (auto simp: sC_def contactEvents_collisions)
  show "othersOf (frameCollisions sB) g =
           (if h0 \<and> g = getGuid (E e0)
            then othersOf (frameCollisions s) g @ [e1] else othersOf (frameCollisions s) g)"
    by (auto simp: sB_def contactEvents_frameCollisions cA)
  show "othersOf (frameCollisions sC) g =
           (if h1 \<and> g = getGuid (E e1)
            then othersOf (frameCollisions sB) g @ [e0] else othersOf (frameCollisions sB) g)"
    by (auto simp: sC_def contactEvents_frameCollisions)
qed


lemma checkManifold_names:
  assumes "x \<in> set (firedSince (length (fired s)) (checkManifold E F s m))"
  shows "firedName x = ''contact'' \<or> firedName x = ''collisionstart'' \<or> firedName x = ''triggerenter''"
proof (cases rule: checkManifold_cases[of E F s m])
  case skip
  then show ?thesis using assms by (simp add: firedSince_def)
next
  case (trigger e0 e1)
  then show ?thesis using assms triggerContacts_names by metis
next
  case (contact e0 e1)
  note F = contact_case_fired(1)[where s=s and G="globalContacts e0 e1 m s" and ?h0.0="hasContactEvent E e0"
      and ?h1.0="hasContactEvent E e1" and E=E and ?e0.0=e0 and ?e1.0=e1
      and fw="map createContactPointFromAmmo (contactPoints m)"
      and rv="map createReverseContactPointFromAmmo (contactPoints m)"]
  show ?thesis using assms unfolding contact(5) F
    by (auto dest: globalContacts_names contactFired_names split: if_splits)
qed

lemma checkManifold_start_new:
  assumes "x \<in> set (firedSince (length (fired s)) (checkManifold E F s m))"
    and "firedOn (OnCollision a) ''collisionstart'' b x \<or> firedOn (OnRigidbody a) ''collisionstart'' b x"
  shows "b \<notin> set (othersOf (collisions s) (getGuid (E a)))"
proof (cases rule: checkManifold_cases[of E F s m])
  case skip
  then show ?thesis using assms by (simp add: firedSince_def)
next
  case (trigger e0 e1)
  then have "firedName x = ''triggerenter''" using assms(1) triggerContacts_names by metis
  then show ?thesis using assms(2) by (cases x) auto
next
  case (contact e0 e1)
  let ?G = "globalContacts e0 e1 m s"
  let ?fw = "map createContactPointFromAmmo (contactPoints m)"
  let ?rv = "map createReverseContactPointFromAmmo (contactPoints m)"
  let ?sB = "(if hasContactEvent E e0 then contactEvents E e0 e1 ?fw else id) (s\<lparr>fired := fired s @ ?G\<rparr>)"
  note F = contact_case_fired(1)[where s=s and G="?G" and ?h0.0="hasContactEvent E e0"
      and ?h1.0="hasContactEvent E e1" and E=E and ?e0.0=e0 and ?e1.0=e1 and fw="?fw" and rv="?rv"]
    contact_case_fired(2)[where s=s and G="?G" and ?h0.0="hasContactEvent E e0"
      and E=E and ?e0.0=e0 and ?e1.0=e1 and fw="?fw"]
    contact_case_fired(3)[where s=s and G="?G" and ?h0.0="hasContactEvent E e0"
      and ?h1.0="hasContactEvent E e1" and E=E and ?e0.0=e0 and ?e1.0=e1 and fw="?fw" and rv="?rv"]
    contact_case_fired(4)[where s=s and G="?G" and ?h0.0="hasContactEvent E e0"
      and E=E and ?e0.0=e0 and ?e1.0=e1 and fw="?fw"]
    contact_case_fired(5)[where s=s and G="?G" and ?h0.0="hasContactEvent E e0"
      and ?h1.0="hasContactEvent E e1" and E=E and ?e0.0=e0 and ?e1.0=e1 and fw="?fw" and rv="?rv"]
  from assms(1) have "x \<in> set ?G
     \<or> (hasContactEvent E e0 \<and> x \<in> set (contactFired E e0 e1 ?fw (e1 \<notin> set (othersOf (collisions s) (getGuid (E e0))))))
     \<or> (hasContactEvent E e1 \<and> x \<in> set (contactFired E e1 e0 ?rv (e0 \<notin> set (othersOf (collisions ?sB) (getGuid (E e1))))))"
    unfolding contact(5) F(1) by (auto split: if_splits)
  then consider (g) "x \<in> set ?G"
    | (b0) "x \<in> set (contactFired E e0 e1 ?fw (e1 \<notin> set (othersOf (collisions s) (getGuid (E e0)))))"
    | (b1) "x \<in> set (contactFired E e1 e0 ?rv (e0 \<notin> set (othersOf (collisions ?sB) (getGuid (E e1)))))"
    by blast
  then show ?thesis
  proof cases
    case g
    then show ?thesis using assms(2) globalContacts_target by blast
  next
    case b0
    then show ?thesis using assms(2) contactFired_start_only[OF b0] by blast
  next
    case b1
    have "e0 \<notin> set (othersOf (collisions ?sB) (getGuid (E e1))) \<and> b = e0 \<and> a = e1"
      using assms(2) contactFired_start_only[OF b1] by auto
    moreover have "set (othersOf (collisions s) (getGuid (E e1))) \<subseteq> set (othersOf (collisions ?sB) (getGuid (E e1)))"
      unfolding F(2) by auto
    ultimately show ?thesis by blast
  qed
qed

lemma pairs_sym: "pairs m a b \<Longrightarrow> pairs m b a"
  by (auto simp: pairs_def)

lemma checkManifold_adds:
  assumes "oth \<notin> set (othersOf (collisions s) g)"
    and "oth \<in> set (othersOf (collisions (checkManifold E F s m)) g)"
  shows "\<exists>a. getGuid (E a) = g \<and> pairs m a oth \<and> contactPoints m \<noteq> [] \<and>
           (flagged F m \<or>
            (hasContactEvent E a \<and>
             firedOnComponents E a ''collisionstart'' oth
               (firedSince (length (fired s)) (checkManifold E F s m))))"
proof (cases rule: checkManifold_cases[of E F s m])
  case skip
  then show ?thesis using assms by simp
next
  case (trigger e0 e1)
  from assms(2) have "(g = getGuid (E e0) \<and> oth = e1) \<or> (g = getGuid (E e1) \<and> oth = e0)"
    unfolding trigger(5) using triggerContacts_adds assms(1) by blast
  then show ?thesis using trigger(1-4) by (auto simp: pairs_def)
next
  case (contact e0 e1)
  let ?G = "globalContacts e0 e1 m s"
  let ?fw = "map createContactPointFromAmmo (contactPoints m)"
  let ?rv = "map createReverseContactPointFromAmmo (contactPoints m)"
  let ?sB = "(if hasContactEvent E e0 then contactEvents E e0 e1 ?fw else id) (s\<lparr>fired := fired s @ ?G\<rparr>)"
  note F = contact_case_fired(1)[where s=s and G="?G" and ?h0.0="hasContactEvent E e0"
      and ?h1.0="hasContactEvent E e1" and E=E and ?e0.0=e0 and ?e1.0=e1 and fw="?fw" and rv="?rv"]
    contact_case_fired(2)[where s=s and G="?G" and ?h0.0="hasContactEvent E e0"
      and E=E and ?e0.0=e0 and ?e1.0=e1 and fw="?fw"]
    contact_case_fired(3)[where s=s and G="?G" and ?h0.0="hasContactEvent E e0"
      and ?h1.0="hasContactEvent E e1" and E=E and ?e0.0=e0 and ?e1.0=e1 and fw="?fw" and rv="?rv"]
    contact_case_fired(4)[where s=s and G="?G" and ?h0.0="hasContactEvent E e0"
      and E=E and ?e0.0=e0 and ?e1.0=e1 and fw="?fw"]
    contact_case_fired(5)[where s=s and G="?G" and ?h0.0="hasContactEvent E e0"
      and ?h1.0="hasContactEvent E e1" and E=E and ?e0.0=e0 and ?e1.0=e1 and fw="?fw" and rv="?rv"]
  show ?thesis
  proof (cases "oth \<in> set (othersOf (collisions ?sB) g)")
    case True
    then have h: "hasContactEvent E e0" "g = getGuid (E e0)" "oth = e1"
      using assms(1) unfolding F(2) by (auto split: if_splits)
    have new: "e1 \<notin> set (othersOf (collisions s) (getGuid (E e0)))" using assms(1) h by simp
    have "set (contactFired E e0 e1 ?fw True) \<subseteq> set (firedSince (length (fired s)) (checkManifold E F s m))"
      unfolding contact(5) F(1) using h(1) new by auto
    then have "firedOnComponents E e0 ''collisionstart'' e1 (firedSince (length (fired s)) (checkManifold E F s m))"
      using firedOnComponents_mono[OF contactFired_start] by blast
    then show ?thesis using h contact(1-3) by (auto simp: pairs_def)
  next
    case False
    then have h: "hasContactEvent E e1" "g = getGuid (E e1)" "oth = e0"
      using assms(2) unfolding contact(5) F(3) by (auto split: if_splits)
    have new: "e0 \<notin> set (othersOf (collisions ?sB) (getGuid (E e1)))" using False h by simp
    have "set (contactFired E e1 e0 ?rv True) \<subseteq> set (firedSince (length (fired s)) (checkManifold E F s m))"
      unfolding contact(5) F(1) using h(1) new by auto
    then have "firedOnComponents E e1 ''collisionstart'' e0 (firedSince (length (fired s)) (checkManifold E F s m))"
      using firedOnComponents_mono[OF contactFired_start] by blast
    then show ?thesis using h contact(1-3) by (auto simp: pairs_def)
  qed
qed

lemma checkManifold_contact_eq:
  assumes "body_entity (getBody0 m) = Some e0" "body_entity (getBody1 m) = Some e1"
    "contactPoints m \<noteq> []" "\<not> flagged F m"
  shows "checkManifold E F s m =
         (if hasContactEvent E e1
          then contactEvents E e1 e0 (map createReverseContactPointFromAmmo (contactPoints m)) else id)
         ((if hasContactEvent E e0
           then contactEvents E e0 e1 (map createContactPointFromAmmo (contactPoints m)) else id)
          (s\<lparr>fired := fired s @ globalContacts e0 e1 m s\<rparr>))"
  using assms
  by (simp add: checkManifold_def flagged_def Let_def contactLoop_eq globalContacts_def)

lemma checkManifold_contact:
  assumes "pairs m a b" "contactPoints m \<noteq> []" "\<not> flagged F m" "hasContactEvent E a"
  shows "firedOnComponents E a ''contact'' b (firedSince (length (fired s)) (checkManifold E F s m)) \<and>
         b \<in> set (othersOf (collisions (checkManifold E F s m)) (getGuid (E a))) \<and>
         b \<in> set (othersOf (frameCollisions (checkManifold E F s m)) (getGuid (E a)))"
proof -
  obtain e0 e1 where e: "body_entity (getBody0 m) = Some e0" "body_entity (getBody1 m) = Some e1"
    using assms(1) by (auto simp: pairs_def)
  note contact = e assms(2,3) checkManifold_contact_eq[OF e assms(2,3), of E s]
  let ?G = "globalContacts e0 e1 m s"
  let ?fw = "map createContactPointFromAmmo (contactPoints m)"
  let ?rv = "map createReverseContactPointFromAmmo (contactPoints m)"
  let ?sB = "(if hasContactEvent E e0 then contactEvents E e0 e1 ?fw else id) (s\<lparr>fired := fired s @ ?G\<rparr>)"
  note F = contact_case_fired(1)[where s=s and G="?G" and ?h0.0="hasContactEvent E e0"
      and ?h1.0="hasContactEvent E e1" and E=E and ?e0.0=e0 and ?e1.0=e1 and fw="?fw" and rv="?rv"]
    contact_case_fired(2)[where s=s and G="?G" and ?h0.0="hasContactEvent E e0"
      and E=E and ?e0.0=e0 and ?e1.0=e1 and fw="?fw"]
    contact_case_fired(3)[where s=s and G="?G" and ?h0.0="hasContactEvent E e0"
      and ?h1.0="hasContactEvent E e1" and E=E and ?e0.0=e0 and ?e1.0=e1 and fw="?fw" and rv="?rv"]
    contact_case_fired(4)[where s=s and G="?G" and ?h0.0="hasContactEvent E e0"
      and E=E and ?e0.0=e0 and ?e1.0=e1 and fw="?fw"]
    contact_case_fired(5)[where s=s and G="?G" and ?h0.0="hasContactEvent E e0"
      and ?h1.0="hasContactEvent E e1" and E=E and ?e0.0=e0 and ?e1.0=e1 and fw="?fw" and rv="?rv"]
  from assms(1) contact(1,2) consider (a0) "a = e0" "b = e1" | (a1) "a = e1" "b = e0"
    by (auto simp: pairs_def)
  then show ?thesis
  proof cases
    case a0
    have "set (contactFired E e0 e1 ?fw (e1 \<notin> set (othersOf (collisions s) (getGuid (E e0)))))
            \<subseteq> set (firedSince (length (fired s)) (checkManifold E F s m))"
      unfolding contact(5) F(1) using assms(4) a0 by auto
    then have 1: "firedOnComponents E e0 ''contact'' e1 (firedSince (length (fired s)) (checkManifold E F s m))"
      using firedOnComponents_mono[OF contactFired_contact] by blast
    have 2: "e1 \<in> set (othersOf (collisions ?sB) (getGuid (E e0)))"
      unfolding F(2) using assms(4) a0 by auto
    have 3: "e1 \<in> set (othersOf (frameCollisions ?sB) (getGuid (E e0)))"
      unfolding F(4) using assms(4) a0 by auto
    have "e1 \<in> set (othersOf (collisions (checkManifold E F s m)) (getGuid (E e0)))"
      unfolding contact(5) F(3) using 2 by auto
    moreover have "e1 \<in> set (othersOf (frameCollisions (checkManifold E F s m)) (getGuid (E e0)))"
      unfolding contact(5) F(5) using 3 by auto
    ultimately show ?thesis using 1 a0 by simp
  next
    case a1
    have "set (contactFired E e1 e0 ?rv (e0 \<notin> set (othersOf (collisions ?sB) (getGuid (E e1)))))
            \<subseteq> set (firedSince (length (fired s)) (checkManifold E F s m))"
      unfolding contact(5) F(1) using assms(4) a1 by auto
    then have 1: "firedOnComponents E e1 ''contact'' e0 (firedSince (length (fired s)) (checkManifold E F s m))"
      using firedOnComponents_mono[OF contactFired_contact] by blast
    have "e0 \<in> set (othersOf (collisions (checkManifold E F s m)) (getGuid (E e1)))"
      unfolding contact(5) F(3) using assms(4) a1 by auto
    moreover have "e0 \<in> set (othersOf (frameCollisions (checkManifold E F s m)) (getGuid (E e1)))"
      unfolding contact(5) F(5) using assms(4) a1 by auto
    ultimately show ?thesis using 1 a1 by simp
  qed
qed

lemma grows_firedSince_append:
  "grows s s' \<Longrightarrow> n \<le> length (fired s) \<Longrightarrow>
   firedSince n s' = firedSince n s @ firedSince (length (fired s)) s'"
  by (auto simp: grows_def firedSince_def)

lemma grows_length: "grows s s' \<Longrightarrow> length (fired s) \<le> length (fired s')"
  by (auto simp: grows_def)

lemma pairs_entitiesOf: "m \<in> set ms \<Longrightarrow> pairs m a b \<Longrightarrow> a \<in> set (entitiesOf ms)"
  by (auto simp: pairs_def entitiesOf_def bodyEntities_def intro!: bexI[of _ m])

lemma checkManifolds_start:
  assumes uniq: "\<forall>m' \<in> set ms. \<forall>a. pairs m' a oth \<longrightarrow> getGuid (E a) = getGuid (E ent) \<longrightarrow> a = ent"
    and nofl: "\<forall>m' \<in> set ms. pairs m' ent oth \<longrightarrow> \<not> flagged F m'"
    and m: "m \<in> set ms" "pairs m ent oth" "contactPoints m \<noteq> []" "hasContactEvent E ent"
    and n0: "n0 \<le> length (fired s)"
    and pq: "oth \<notin> set (othersOf (collisions s) (getGuid (E ent))) \<or>
             firedOnComponents E ent ''collisionstart'' oth (firedSince n0 s)"
  shows "firedOnComponents E ent ''collisionstart'' oth (firedSince n0 (checkManifolds E F ms s))"
  using uniq nofl m(1) n0 pq
proof (induction ms arbitrary: s)
  case Nil
  then show ?case by simp
next
  case (Cons m' ms)
  let ?s' = "checkManifold E F s m'"
  have g: "grows s ?s'" by (rule grows_checkManifold)
  have n0': "n0 \<le> length (fired ?s')" using grows_length[OF g] Cons.prems(4) by simp
  have app: "firedSince n0 ?s' = firedSince n0 s @ firedSince (length (fired s)) ?s'"
    using grows_firedSince_append[OF g Cons.prems(4)] .
  have uniq': "\<forall>m' \<in> set ms. \<forall>a. pairs m' a oth \<longrightarrow> getGuid (E a) = getGuid (E ent) \<longrightarrow> a = ent"
    using Cons.prems(1) by simp
  have nofl': "\<forall>m' \<in> set ms. pairs m' ent oth \<longrightarrow> \<not> flagged F m'" using Cons.prems(2) by simp
  have Q: "firedOnComponents E ent ''collisionstart'' oth (firedSince n0 ?s')"
    if "oth \<in> set (othersOf (collisions ?s') (getGuid (E ent)))"
  proof (cases "firedOnComponents E ent ''collisionstart'' oth (firedSince n0 s)")
    case True
    then show ?thesis using firedOnComponents_mono[of E ent _ oth "firedSince n0 s" "firedSince n0 ?s'"] app by simp
  next
    case False
    then have P: "oth \<notin> set (othersOf (collisions s) (getGuid (E ent)))" using Cons.prems(5) by blast
    from checkManifold_adds[OF P that] obtain a where a: "getGuid (E a) = getGuid (E ent)"
      "pairs m' a oth" "flagged F m' \<or> (hasContactEvent E a \<and>
             firedOnComponents E a ''collisionstart'' oth (firedSince (length (fired s)) ?s'))"
      by blast
    have "a = ent" using Cons.prems(1) a(1,2) by simp
    then have "firedOnComponents E ent ''collisionstart'' oth (firedSince (length (fired s)) ?s')"
      using a Cons.prems(2) by auto
    then show ?thesis using firedOnComponents_mono[of E ent _ oth _ "firedSince n0 ?s'"] app by simp
  qed
  show ?case
  proof (cases "m = m'")
    case True
    have "\<not> flagged F m" using Cons.prems(2) m(2) True by simp
    from checkManifold_contact[OF m(2,3) this m(4), of s]
    have "oth \<in> set (othersOf (collisions ?s') (getGuid (E ent)))" using True by simp
    then have Q': "firedOnComponents E ent ''collisionstart'' oth (firedSince n0 ?s')" by (rule Q)
    have "grows ?s' (checkManifolds E F ms ?s')" by (rule grows_checkManifolds)
    from grows_firedSince_append[OF this n0']
    have "set (firedSince n0 ?s') \<subseteq> set (firedSince n0 (checkManifolds E F ms ?s'))" by simp
    then show ?thesis using firedOnComponents_mono[OF Q'] by simp
  next
    case False
    then have "m \<in> set ms" using Cons.prems(3) by simp
    moreover have "oth \<notin> set (othersOf (collisions ?s') (getGuid (E ent))) \<or>
             firedOnComponents E ent ''collisionstart'' oth (firedSince n0 ?s')"
      using Q by blast
    ultimately show ?thesis using Cons.IH[OF uniq' nofl' _ n0'] by simp
  qed
qed


lemma triggerContacts_about:
  assumes "x \<in> set (firedSince (length (fired s)) (triggerContacts E F e0 e1 flags0 flags1 s))"
    and "firedOn t n b x" and "t = OnCollision a \<or> t = OnRigidbody a"
  shows "(a = e0 \<and> b = e1) \<or> (a = e1 \<and> b = e0)"
proof -
  define R :: "'a fired \<Rightarrow> bool" where
    "R = (\<lambda>x. \<forall>t n b a. firedOn t n b x \<longrightarrow> (t = OnCollision a \<or> t = OnRigidbody a) \<longrightarrow>
                 (a = e0 \<and> b = e1) \<or> (a = e1 \<and> b = e0))"
  have Rf: "\<And>t' b'. (t', b') \<in> {(OnCollision e0, e1), (OnCollision e1, e0), (OnRigidbody e0, e1), (OnRigidbody e1, e0)}
               \<Longrightarrow> R (Fired t' ''triggerenter'' (ArgEntity b'))"
    unfolding R_def by auto
  have "\<exists>ev. fired (triggerContacts E F e0 e1 flags0 flags1 s) = fired s @ ev \<and> (\<forall>x \<in> set ev. R x)"
  proof (rule triggerContacts_rule)
    show "\<exists>ev. fired s = fired s @ ev \<and> (\<forall>x \<in> set ev. R x)" by simp
  next
    fix s' :: "'a RigidBodyComponentSystem" and a' b'
    assume "\<exists>ev. fired s' = fired s @ ev \<and> (\<forall>x \<in> set ev. R x)"
    then show "\<exists>ev. fired (snd (storeCollision E a' b' s')) = fired s @ ev \<and> (\<forall>x \<in> set ev. R x)"
      by simp
  next
    fix s' :: "'a RigidBodyComponentSystem" and t' b'
    assume "\<exists>ev. fired s' = fired s @ ev \<and> (\<forall>x \<in> set ev. R x)"
      and tb: "(t', b') \<in> {(OnCollision e0, e1), (OnCollision e1, e0), (OnRigidbody e0, e1), (OnRigidbody e1, e0)}"
    then obtain ev where ev: "fired s' = fired s @ ev" "\<forall>x \<in> set ev. R x" by blast
    have "fired (fire t' ''triggerenter'' (ArgEntity b') s') = fired s @ (ev @ [Fired t' ''triggerenter'' (ArgEntity b')])"
      by (simp add: fire_def ev(1))
    moreover have "\<forall>x \<in> set (ev @ [Fired t' ''triggerenter'' (ArgEntity b')]). R x"
      using ev(2) Rf[OF tb] by simp
    ultimately show "\<exists>ev. fired (fire t' ''triggerenter'' (ArgEntity b') s') = fired s @ ev \<and> (\<forall>x \<in> set ev. R x)"
      by blast
  qed
  then obtain ev where ev: "fired (triggerContacts E F e0 e1 flags0 flags1 s) = fired s @ ev"
    "\<forall>x \<in> set ev. R x" by blast
  have "firedSince (length (fired s)) (triggerContacts E F e0 e1 flags0 flags1 s) = ev"
    by (simp add: firedSince_def ev(1))
  then have "R x" using assms(1) ev(2) by simp
  then show ?thesis using assms(2,3) unfolding R_def by blast
qed

lemma contactFired_about:
  "x \<in> set (contactFired E ent oth cs n) \<Longrightarrow> firedOn t nm b x \<Longrightarrow>
     b = oth \<and> (t = OnCollision ent \<or> t = OnRigidbody ent) \<and> nm \<noteq> ''triggerenter''"
  by (auto simp: contactFired_def split: option.splits if_splits)

lemma checkManifold_about:
  assumes "x \<in> set (firedSince (length (fired s)) (checkManifold E F s m))"
    and "firedOn t n b x" and "t = OnCollision a \<or> t = OnRigidbody a"
  shows "pairs m a b \<and> (flagged F m \<longleftrightarrow> n = ''triggerenter'')"
proof (cases rule: checkManifold_cases[of E F s m])
  case skip
  then show ?thesis using assms by (simp add: firedSince_def)
next
  case (trigger e0 e1)
  have "firedName x = ''triggerenter''" using assms(1) triggerContacts_names unfolding trigger(5) by metis
  then have n: "n = ''triggerenter''" using assms(2) by (cases x) auto
  have "(a = e0 \<and> b = e1) \<or> (a = e1 \<and> b = e0)"
    using triggerContacts_about[OF assms(1)[unfolded trigger(5)] assms(2,3)] .
  then show ?thesis using trigger(1,2,4) n by (auto simp: pairs_def)
next
  case (contact e0 e1)
  let ?G = "globalContacts e0 e1 m s"
  let ?fw = "map createContactPointFromAmmo (contactPoints m)"
  let ?rv = "map createReverseContactPointFromAmmo (contactPoints m)"
  let ?sB = "(if hasContactEvent E e0 then contactEvents E e0 e1 ?fw else id) (s\<lparr>fired := fired s @ ?G\<rparr>)"
  note F = contact_case_fired(1)[where s=s and G="?G" and ?h0.0="hasContactEvent E e0"
      and ?h1.0="hasContactEvent E e1" and E=E and ?e0.0=e0 and ?e1.0=e1 and fw="?fw" and rv="?rv"]
  from assms(1) consider (g) "x \<in> set ?G"
    | (b0) "x \<in> set (contactFired E e0 e1 ?fw (e1 \<notin> set (othersOf (collisions s) (getGuid (E e0)))))"
    | (b1) "x \<in> set (contactFired E e1 e0 ?rv (e0 \<notin> set (othersOf (collisions ?sB) (getGuid (E e1)))))"
    unfolding contact(5) F by (auto split: if_splits)
  then show ?thesis
  proof cases
    case g
    then show ?thesis using assms(2) globalContacts_target by blast
  next
    case b0
    from contactFired_about[OF b0 assms(2)] show ?thesis
      using assms(3) contact(1,2,4) by (auto simp: pairs_def)
  next
    case b1
    from contactFired_about[OF b1 assms(2)] show ?thesis
      using assms(3) contact(1,2,4) by (auto simp: pairs_def)
  qed
qed

lemma checkManifolds_new:
  assumes "x \<in> set (firedSince (length (fired s)) (checkManifolds E F ms s))"
  shows "\<exists>m \<in> set ms. \<exists>s'. grows s s' \<and> x \<in> set (firedSince (length (fired s')) (checkManifold E F s' m))"
  using assms
proof (induction ms arbitrary: s)
  case Nil
  then show ?case by (simp add: firedSince_def)
next
  case (Cons m ms)
  let ?s' = "checkManifold E F s m"
  have g: "grows s ?s'" by (rule grows_checkManifold)
  have g2: "grows ?s' (checkManifolds E F ms ?s')" by (rule grows_checkManifolds)
  have "firedSince (length (fired s)) (checkManifolds E F ms ?s') =
        firedSince (length (fired s)) ?s' @ firedSince (length (fired ?s')) (checkManifolds E F ms ?s')"
    using firedSince_trans[OF g g2] .
  then consider (a) "x \<in> set (firedSince (length (fired s)) ?s')"
    | (b) "x \<in> set (firedSince (length (fired ?s')) (checkManifolds E F ms ?s'))"
    using Cons.prems by auto
  then show ?case
  proof cases
    case a
    then show ?thesis using grows_refl[of s] by auto
  next
    case b
    from Cons.IH[OF b] obtain m' s'' where "m' \<in> set ms" "grows ?s' s''"
      "x \<in> set (firedSince (length (fired s'')) (checkManifold E F s'' m'))" by blast
    then show ?thesis using grows_trans[OF g] by auto
  qed
qed

lemma checkManifolds_contact:
  assumes "m \<in> set ms" "pairs m a b" "contactPoints m \<noteq> []" "\<not> flagged F m" "hasContactEvent E a"
  shows "firedOnComponents E a ''contact'' b (firedSince (length (fired s)) (checkManifolds E F ms s)) \<and>
         b \<in> set (othersOf (collisions (checkManifolds E F ms s)) (getGuid (E a))) \<and>
         b \<in> set (othersOf (frameCollisions (checkManifolds E F ms s)) (getGuid (E a)))"
  using assms(1)
proof (induction ms arbitrary: s)
  case Nil
  then show ?case by simp
next
  case (Cons m' ms)
  let ?s' = "checkManifold E F s m'"
  have g: "grows s ?s'" by (rule grows_checkManifold)
  have g2: "grows ?s' (checkManifolds E F ms ?s')" by (rule grows_checkManifolds)
  have app: "firedSince (length (fired s)) (checkManifolds E F ms ?s') =
        firedSince (length (fired s)) ?s' @ firedSince (length (fired ?s')) (checkManifolds E F ms ?s')"
    using firedSince_trans[OF g g2] .
  show ?case
  proof (cases "m = m'")
    case True
    from checkManifold_contact[OF assms(2-5), of s]
    have c: "firedOnComponents E a ''contact'' b (firedSince (length (fired s)) ?s')"
      "b \<in> set (othersOf (collisions ?s') (getGuid (E a)))"
      "b \<in> set (othersOf (frameCollisions ?s') (getGuid (E a)))"
      using True by simp_all
    have 1: "firedOnComponents E a ''contact'' b (firedSince (length (fired s)) (checkManifolds E F ms ?s'))"
      using firedOnComponents_mono[OF c(1)] app by simp
    show ?thesis using 1 c(2,3) grows_others_mono[OF g2] grows_frame_mono[OF g2] by auto
  next
    case False
    then have "m \<in> set ms" using Cons.prems by simp
    from Cons.IH[OF this, of ?s']
    have c: "firedOnComponents E a ''contact'' b (firedSince (length (fired ?s')) (checkManifolds E F ms ?s'))"
      "b \<in> set (othersOf (collisions (checkManifolds E F ms ?s')) (getGuid (E a)))"
      "b \<in> set (othersOf (frameCollisions (checkManifolds E F ms ?s')) (getGuid (E a)))"
      by simp_all
    have 1: "firedOnComponents E a ''contact'' b (firedSince (length (fired s)) (checkManifolds E F ms ?s'))"
      using firedOnComponents_mono[OF c(1)] app by simp
    show ?thesis using 1 c(2,3) by simp
  qed
qed

lemma endFired_about:
  "x \<in> set (endFired E ent oth) \<Longrightarrow> firedOn t n b x \<Longrightarrow>
     (n = ''collisionend'' \<and> \<not> trigger (E ent) \<and> \<not> trigger (E oth) \<and> b = oth \<and>
        (t = OnCollision ent \<or> t = OnRigidbody ent)) \<or>
     (n = ''triggerleave'' \<and> trigger (E ent) \<and>
        ((t = OnCollision ent \<and> b = oth) \<or> (t = OnRigidbody oth \<and> b = ent)))"
  by (auto simp: endFired_def split: option.splits if_splits)


lemma endFired_triggerleave:
  "trigger (E ent) \<Longrightarrow>
   (collision (E ent) \<noteq> None \<longrightarrow> (\<exists>x \<in> set (endFired E ent oth). firedOn (OnCollision ent) ''triggerleave'' oth x)) \<and>
   (rigidbody (E oth) \<noteq> None \<longrightarrow> (\<exists>x \<in> set (endFired E ent oth). firedOn (OnRigidbody oth) ''triggerleave'' ent x))"
  by (cases "collision (E ent)"; cases "rigidbody (E oth)")
     (simp_all add: endFired_def)

lemma entryFired_mem:
  "x \<in> set (entryFired E fr g entry) \<Longrightarrow>
     \<exists>c y. entry = Some c \<and> y \<in> set (others c) \<and> y \<notin> set (othersOf fr g) \<and>
            x \<in> set (endFired E (entity c) y)"
  by (cases entry) (auto simp: entryFired_def)

lemma entryFired_sub:
  "y \<in> set (others c) \<Longrightarrow> y \<notin> set (othersOf fr g) \<Longrightarrow>
   set (endFired E (entity c) y) \<subseteq> set (entryFired E fr g (Some c))"
  by (auto simp: entryFired_def)

lemma grows_entry:
  assumes "grows s s'" "map_of (collisions s) g = Some c"
  shows "\<exists>c'. map_of (collisions s') g = Some c' \<and> entity c' = entity c \<and> set (others c) \<subseteq> set (others c')"
proof -
  from assms obtain c' where c': "map_of (collisions s') g = Some c'" "entity c' = entity c"
    unfolding grows_def by blast
  have "set (othersOf (collisions s) g) \<subseteq> set (othersOf (collisions s') g)"
    using grows_others_mono[OF assms(1)] .
  then have "set (others c) \<subseteq> set (others c')" using assms(2) c'(1) by (simp add: othersOf_def)
  then show ?thesis using c' by blast
qed

lemma cleanOld_grows_fired:
  "n \<le> length (fired s) \<Longrightarrow>
   firedSince n (cleanOldCollisions E s) = firedSince n s @ firedSince (length (fired s)) (cleanOldCollisions E s)"
  using cleanOld_fired[of E s] by (auto simp: firedSince_def)

text \<open>
  C1, as amended. In a physics step, take a manifold with at least one contact point
  whose bodies belong to \<open>ent\<close> and \<open>oth\<close>, where no manifold of the step between these
  two carries the no-response flag, \<open>ent\<close> has a callback for \<open>collisionstart\<close>,
  \<open>collisionend\<close> or \<open>contact\<close> on its collision or rigidbody component, and \<open>oth\<close> was
  not in the persistent entry of \<open>ent\<close> before the step (guids being unique among the
  entities of the step). Then \<open>_storeCollision(ent, oth)\<close> returns true on the state
  before the step, \<open>_checkForCollisions\<close> fires \<open>collisionstart\<close> about \<open>oth\<close> on the
  collision and rigidbody components of \<open>ent\<close> (those it has), and the pair is in the
  persistent record afterwards.
\<close>

theorem collisionstart_on_new_pair:
  assumes m: "m \<in> set manifolds" "pairs m ent oth" "contactPoints m \<noteq> []"
    and nofl: "\<forall>m' \<in> set manifolds. pairs m' ent oth \<longrightarrow> \<not> flagged F m'"
    and h: "hasContactEvent E ent"
    and new: "oth \<notin> set (othersOf (collisions s) (getGuid (E ent)))"
    and inj: "inj_on (\<lambda>e. getGuid (E e)) (set (entitiesOf manifolds))"
  shows "fst (storeCollision E ent oth s) \<and>
         firedOnComponents E ent ''collisionstart'' oth
           (firedSince (length (fired s)) (checkForCollisions E F manifolds s)) \<and>
         oth \<in> set (othersOf (collisions (checkForCollisions E F manifolds s)) (getGuid (E ent)))"
proof -
  let ?s0 = "s\<lparr>frameCollisions := []\<rparr>"
  let ?s1 = "checkManifolds E F manifolds ?s0"
  let ?n = "length (fired s)"
  have ent: "ent \<in> set (entitiesOf manifolds)" using pairs_entitiesOf[OF m(1,2)] .
  have uniq: "\<forall>m' \<in> set manifolds. \<forall>a. pairs m' a oth \<longrightarrow> getGuid (E a) = getGuid (E ent) \<longrightarrow> a = ent"
  proof (intro ballI allI impI)
    fix m' a assume "m' \<in> set manifolds" "pairs m' a oth" "getGuid (E a) = getGuid (E ent)"
    then show "a = ent" using inj ent pairs_entitiesOf[of m' manifolds a oth] by (auto dest: inj_onD)
  qed
  have Q1: "firedOnComponents E ent ''collisionstart'' oth (firedSince ?n ?s1)"
    using checkManifolds_start[OF uniq nofl m h, where ?n0.0="?n" and s="?s0"] new by simp
  have "firedSince ?n (cleanOldCollisions E ?s1) =
          firedSince ?n ?s1 @ firedSince (length (fired ?s1)) (cleanOldCollisions E ?s1)"
    using cleanOld_grows_fired[where n="?n" and s="?s1" and E=E]
      grows_length[OF grows_checkManifolds[where s="?s0" and E=E and F=F and ms=manifolds]]
    by simp
  then have Q2: "firedOnComponents E ent ''collisionstart'' oth
           (firedSince ?n (checkForCollisions E F manifolds s))"
    unfolding checkForCollisions_def using firedOnComponents_mono[OF Q1] by simp
  have nf: "\<not> flagged F m" using nofl m(1,2) by blast
  from checkManifolds_contact[OF m(1,2,3) nf h, where s="?s0"]
  have "oth \<in> set (othersOf (collisions ?s1) (getGuid (E ent)))"
       "oth \<in> set (othersOf (frameCollisions ?s1) (getGuid (E ent)))" by simp_all
  then have 3: "oth \<in> set (othersOf (collisions (checkForCollisions E F manifolds s)) (getGuid (E ent)))"
    unfolding checkForCollisions_def cleanOld_othersOf by simp
  show ?thesis using Q2 3 new storeCollision_new[of E ent oth s] by simp
qed


lemma step_new_cases:
  fixes s :: "'n RigidBodyComponentSystem"
  assumes "x \<in> set (firedSince (length (fired s)) (checkForCollisions E F manifolds s))"
  obtains (loop) m' s' where "m' \<in> set manifolds" "grows (s\<lparr>frameCollisions := []\<rparr>) s'"
      "x \<in> set (firedSince (length (fired s')) (checkManifold E F s' m'))"
  | (clean) g c y where
      "map_of (collisions (checkManifolds E F manifolds (s\<lparr>frameCollisions := []\<rparr>))) g = Some c"
      "y \<in> set (others c)"
      "y \<notin> set (othersOf (frameCollisions (checkManifolds E F manifolds (s\<lparr>frameCollisions := []\<rparr>))) g)"
      "x \<in> set (endFired E (entity c) y)"
proof -
  let ?s0 = "s\<lparr>frameCollisions := []\<rparr>"
  let ?s1 = "checkManifolds E F manifolds ?s0"
  let ?n = "length (fired s)"
  have g01: "grows ?s0 ?s1" by (rule grows_checkManifolds)
  have app: "firedSince ?n (cleanOldCollisions E ?s1) =
          firedSince ?n ?s1 @ firedSince (length (fired ?s1)) (cleanOldCollisions E ?s1)"
    using cleanOld_grows_fired[where n="?n" and s="?s1" and E=E] grows_length[OF g01] by simp
  from assms consider (a) "x \<in> set (firedSince ?n ?s1)"
    | (b) "x \<in> set (firedSince (length (fired ?s1)) (cleanOldCollisions E ?s1))"
    unfolding checkForCollisions_def app by auto
  then show ?thesis
  proof cases
    case a
    then have "x \<in> set (firedSince (length (fired ?s0)) ?s1)" by simp
    from checkManifolds_new[OF this] show ?thesis using loop by blast
  next
    case b
    then obtain g where "x \<in> set (entryFired E (frameCollisions ?s1) g (map_of (collisions ?s1) g))"
      unfolding cleanOld_firedSince by blast
    from entryFired_mem[OF this] show ?thesis using clean by blast
  qed
qed

text \<open>
  C3, as amended. In a physics step, take a manifold with at least one contact point
  and no no-response body whose bodies belong to \<open>ent\<close> and \<open>oth\<close>, where \<open>ent\<close> has a
  callback for \<open>collisionstart\<close>, \<open>collisionend\<close> or \<open>contact\<close> and \<open>oth\<close> is already in
  the persistent entry of \<open>ent\<close> (every entry being stored under the guid of its
  entity). Then \<open>_storeCollision(ent, oth)\<close> returns false on the state before the
  step, \<open>contact\<close> is fired about \<open>oth\<close> on the collision and rigidbody components of
  \<open>ent\<close> (those it has), no call of the step fires \<open>collisionstart\<close> or \<open>collisionend\<close>
  about \<open>oth\<close> on a component of \<open>ent\<close>, and the pair stays in the persistent record.
\<close>

theorem contact_on_steady_pair:
  fixes s :: "'n RigidBodyComponentSystem"
  assumes m: "m \<in> set manifolds" "pairs m ent oth" "contactPoints m \<noteq> []" "\<not> flagged F m"
    and h: "hasContactEvent E ent"
    and old: "oth \<in> set (othersOf (collisions s) (getGuid (E ent)))"
    and keyed: "keyed E s"
  shows "\<not> fst (storeCollision E ent oth s) \<and>
         firedOnComponents E ent ''contact'' oth
           (firedSince (length (fired s)) (checkForCollisions E F manifolds s)) \<and>
         (\<forall>x \<in> set (firedSince (length (fired s)) (checkForCollisions E F manifolds s)).
            \<not> firedOn (OnCollision ent) ''collisionstart'' oth x \<and>
            \<not> firedOn (OnRigidbody ent) ''collisionstart'' oth x \<and>
            \<not> firedOn (OnCollision ent) ''collisionend'' oth x \<and>
            \<not> firedOn (OnRigidbody ent) ''collisionend'' oth x) \<and>
         oth \<in> set (othersOf (collisions (checkForCollisions E F manifolds s)) (getGuid (E ent)))"
proof -
  let ?s0 = "s\<lparr>frameCollisions := []\<rparr>"
  let ?s1 = "checkManifolds E F manifolds ?s0"
  let ?n = "length (fired s)"
  have g01: "grows ?s0 ?s1" by (rule grows_checkManifolds)
  from checkManifolds_contact[OF m h, where s="?s0"]
  have c: "firedOnComponents E ent ''contact'' oth (firedSince ?n ?s1)"
    "oth \<in> set (othersOf (collisions ?s1) (getGuid (E ent)))"
    "oth \<in> set (othersOf (frameCollisions ?s1) (getGuid (E ent)))" by simp_all
  have app: "firedSince ?n (cleanOldCollisions E ?s1) =
          firedSince ?n ?s1 @ firedSince (length (fired ?s1)) (cleanOldCollisions E ?s1)"
    using cleanOld_grows_fired[where n="?n" and s="?s1" and E=E] grows_length[OF g01] by simp
  have 1: "firedOnComponents E ent ''contact'' oth (firedSince ?n (checkForCollisions E F manifolds s))"
    unfolding checkForCollisions_def app using firedOnComponents_mono[OF c(1)] by simp
  have 2: "oth \<in> set (othersOf (collisions (checkForCollisions E F manifolds s)) (getGuid (E ent)))"
    unfolding checkForCollisions_def cleanOld_othersOf using c(2,3) by simp
  have k0: "keyed E ?s0" using keyed unfolding keyed_def by simp
  have k1: "keyed E ?s1" using k0 by (rule keyed_checkManifolds)
  have 3: "\<not> firedOn (OnCollision ent) ''collisionstart'' oth x \<and>
            \<not> firedOn (OnRigidbody ent) ''collisionstart'' oth x \<and>
            \<not> firedOn (OnCollision ent) ''collisionend'' oth x \<and>
            \<not> firedOn (OnRigidbody ent) ''collisionend'' oth x"
    if x: "x \<in> set (firedSince ?n (checkForCollisions E F manifolds s))" for x
    using x
  proof (cases rule: step_new_cases)
    case (loop m' s')
    have old': "oth \<in> set (othersOf (collisions s') (getGuid (E ent)))"
      using grows_others_mono[OF loop(2), of "getGuid (E ent)"] old by auto
    have nostart: "\<not> (firedOn (OnCollision ent) ''collisionstart'' oth x \<or>
                       firedOn (OnRigidbody ent) ''collisionstart'' oth x)"
      using checkManifold_start_new[OF loop(3), of ent oth] old' by blast
    have "firedName x \<noteq> ''collisionend''" using checkManifold_names[OF loop(3)] by auto
    then have "\<not> firedOn t ''collisionend'' oth x" for t by (cases x) auto
    then show ?thesis using nostart by blast
  next
    case (clean g c y)
    have noend: "\<not> firedOn t ''collisionend'' oth x" if t: "t = OnCollision ent \<or> t = OnRigidbody ent" for t
    proof
      assume f: "firedOn t ''collisionend'' oth x"
      from endFired_about[OF clean(4) f] t have e: "entity c = ent" "y = oth" by auto
      have "getGuid (E ent) = g" using k1 clean(1) e(1) unfolding keyed_def by blast
      then show False using clean(3) c(3) e(2) by simp
    qed
    have "\<not> firedOn t ''collisionstart'' oth x" for t
      using endFired_about[OF clean(4), of t "''collisionstart''" oth] by auto
    then show ?thesis using noend by blast
  qed
  show ?thesis using 1 2 3 old storeCollision_new[of E ent oth s] by blast
qed

lemma vanished_pair_fired:
  fixes s :: "'n RigidBodyComponentSystem"
  assumes c: "map_of (collisions s) g = Some c" "oth \<in> set (others c)"
    and gone: "oth \<notin> set (othersOf (frameCollisions (checkForCollisions E F manifolds s)) g)"
  shows "set (endFired E (entity c) oth :: 'n fired list) \<subseteq>
           set (firedSince (length (fired s)) (checkForCollisions E F manifolds s))"
proof -
  let ?s0 = "s\<lparr>frameCollisions := []\<rparr>"
  let ?s1 = "checkManifolds E F manifolds ?s0"
  let ?n = "length (fired s)"
  have fr: "frameCollisions (checkForCollisions E F manifolds s) = frameCollisions ?s1"
    by (simp add: checkForCollisions_def)
  have gone1: "oth \<notin> set (othersOf (frameCollisions ?s1) g)" using gone fr by simp
  have g01: "grows ?s0 ?s1" by (rule grows_checkManifolds)
  from grows_entry[OF g01, of g c] c obtain c1 where c1: "map_of (collisions ?s1) g = Some c1"
    "entity c1 = entity c" "oth \<in> set (others c1)" by auto
  have "set (endFired E (entity c) oth :: 'n fired list) \<subseteq>
          set (entryFired E (frameCollisions ?s1) g (map_of (collisions ?s1) g))"
    using entryFired_sub[OF c1(3) gone1, where E=E] c1(1,2) by simp
  then have sub: "set (endFired E (entity c) oth :: 'n fired list) \<subseteq>
      set (firedSince (length (fired ?s1)) (cleanOldCollisions E ?s1))"
    unfolding cleanOld_firedSince by blast
  have app: "firedSince ?n (cleanOldCollisions E ?s1) =
          firedSince ?n ?s1 @ firedSince (length (fired ?s1)) (cleanOldCollisions E ?s1)"
    using cleanOld_grows_fired[where n="?n" and s="?s1" and E=E] grows_length[OF g01] by simp
  show ?thesis unfolding checkForCollisions_def app using sub by auto
qed

text \<open>
  C4, as amended. Let \<open>m\<close> be a manifold with at least one contact point in which a
  body carries the no-response flag, between the entities \<open>e0\<close> and \<open>e1\<close>, whose guids
  differ. Processing \<open>m\<close>, in any state, fires nothing but \<open>triggerenter\<close>. An entity
  whose collision component listens for \<open>triggerenter\<close> or \<open>triggerleave\<close> has the pair
  stored by \<open>_storeCollision\<close>, in the persistent and in the frame record; when a
  rigidbody component of either entity listens, the pair is stored, in both records,
  under at least one of the two entities.
  \<open>triggerenter\<close> is fired on the collision component of an entity about the other
  exactly when that component listens, the other was not in the persistent entry of
  the entity, and the body of the other does not carry the flag. When the persistent
  record holds the pair under neither entity, \<open>triggerenter\<close> is fired on every
  rigidbody component that listens; when it holds the pair under both, nothing is
  fired.

  When \<open>a\<close> or \<open>b\<close> is a trigger (\<open>entity.trigger\<close>) and every manifold of a step
  between the two carries the flag, every call of \<open>fire\<close> of the step on a component of
  one about the other is a \<open>triggerenter\<close> or a \<open>triggerleave\<close>: none is a \<open>contact\<close>, a
  \<open>collisionstart\<close> or a \<open>collisionend\<close>.

  And a pair that the persistent record holds in the entry of a trigger entity and
  that the frame record of the step does not hold is removed by \<open>_cleanOldCollisions\<close>,
  which fires \<open>triggerleave\<close> on the collision component of the trigger about the
  other and on the rigidbody component of the other about the trigger (on those that
  exist).
\<close>

theorem trigger_pair_events:
  fixes s t :: "'n RigidBodyComponentSystem"
  shows "(body_entity (getBody0 m) = Some e0 \<and> body_entity (getBody1 m) = Some e1 \<and>
          contactPoints m \<noteq> [] \<and> flagged F m \<and> getGuid (E e0) \<noteq> getGuid (E e1) \<longrightarrow>
            (let t' = checkManifold E F t m; ev = firedSince (length (fired t)) t' in
               (\<forall>x \<in> set ev. firedName x = ''triggerenter'') \<and>
               (hasTriggerEvents (collision (E e0)) \<longrightarrow>
                  recorded E (collisions t') e0 e1 \<and> recorded E (frameCollisions t') e0 e1) \<and>
               (hasTriggerEvents (collision (E e1)) \<longrightarrow>
                  recorded E (collisions t') e1 e0 \<and> recorded E (frameCollisions t') e1 e0) \<and>
               (hasTriggerEvents (rigidbody (E e0)) \<or> hasTriggerEvents (rigidbody (E e1)) \<longrightarrow>
                  recorded E (collisions t') e0 e1 \<and> recorded E (frameCollisions t') e0 e1 \<or>
                  recorded E (collisions t') e1 e0 \<and> recorded E (frameCollisions t') e1 e0) \<and>
               ((\<exists>x \<in> set ev. firedOn (OnCollision e0) ''triggerenter'' e1 x) \<longleftrightarrow>
                  hasTriggerEvents (collision (E e0)) \<and> \<not> recorded E (collisions t) e0 e1 \<and>
                  \<not> noResponse F (getCollisionFlags (getBody1 m))) \<and>
               ((\<exists>x \<in> set ev. firedOn (OnCollision e1) ''triggerenter'' e0 x) \<longleftrightarrow>
                  hasTriggerEvents (collision (E e1)) \<and> \<not> recorded E (collisions t) e1 e0 \<and>
                  \<not> noResponse F (getCollisionFlags (getBody0 m))) \<and>
               (\<not> recorded E (collisions t) e0 e1 \<and> \<not> recorded E (collisions t) e1 e0 \<longrightarrow>
                  (hasTriggerEvents (rigidbody (E e0)) \<longrightarrow>
                     (\<exists>x \<in> set ev. firedOn (OnRigidbody e0) ''triggerenter'' e1 x)) \<and>
                  (hasTriggerEvents (rigidbody (E e1)) \<longrightarrow>
                     (\<exists>x \<in> set ev. firedOn (OnRigidbody e1) ''triggerenter'' e0 x))) \<and>
               (recorded E (collisions t) e0 e1 \<and> recorded E (collisions t) e1 e0 \<longrightarrow> ev = []))) \<and>
         ((trigger (E a) \<or> trigger (E b)) \<and> (\<forall>m' \<in> set manifolds. pairs m' a b \<longrightarrow> flagged F m') \<longrightarrow>
            (\<forall>x \<in> set (firedSince (length (fired s)) (checkForCollisions E F manifolds s)). \<forall>n.
               firedOn (OnCollision a) n b x \<or> firedOn (OnRigidbody a) n b x \<or>
               firedOn (OnCollision b) n a x \<or> firedOn (OnRigidbody b) n a x \<longrightarrow>
               n = ''triggerenter'' \<or> n = ''triggerleave'')) \<and>
         (map_of (collisions s) g = Some c \<and> trigger (E (entity c)) \<and> oth \<in> set (others c) \<and>
          oth \<notin> set (othersOf (frameCollisions (checkForCollisions E F manifolds s)) g) \<longrightarrow>
            oth \<notin> set (othersOf (collisions (checkForCollisions E F manifolds s)) g) \<and>
            (collision (E (entity c)) \<noteq> None \<longrightarrow>
               (\<exists>x \<in> set (firedSince (length (fired s)) (checkForCollisions E F manifolds s)).
                  firedOn (OnCollision (entity c)) ''triggerleave'' oth x)) \<and>
            (rigidbody (E oth) \<noteq> None \<longrightarrow>
               (\<exists>x \<in> set (firedSince (length (fired s)) (checkForCollisions E F manifolds s)).
                  firedOn (OnRigidbody oth) ''triggerleave'' (entity c) x)))"
proof -
  have 1: "(let t' = checkManifold E F t m; ev = firedSince (length (fired t)) t' in
               (\<forall>x \<in> set ev. firedName x = ''triggerenter'') \<and>
               (hasTriggerEvents (collision (E e0)) \<longrightarrow>
                  recorded E (collisions t') e0 e1 \<and> recorded E (frameCollisions t') e0 e1) \<and>
               (hasTriggerEvents (collision (E e1)) \<longrightarrow>
                  recorded E (collisions t') e1 e0 \<and> recorded E (frameCollisions t') e1 e0) \<and>
               (hasTriggerEvents (rigidbody (E e0)) \<or> hasTriggerEvents (rigidbody (E e1)) \<longrightarrow>
                  recorded E (collisions t') e0 e1 \<and> recorded E (frameCollisions t') e0 e1 \<or>
                  recorded E (collisions t') e1 e0 \<and> recorded E (frameCollisions t') e1 e0) \<and>
               ((\<exists>x \<in> set ev. firedOn (OnCollision e0) ''triggerenter'' e1 x) \<longleftrightarrow>
                  hasTriggerEvents (collision (E e0)) \<and> \<not> recorded E (collisions t) e0 e1 \<and>
                  \<not> noResponse F (getCollisionFlags (getBody1 m))) \<and>
               ((\<exists>x \<in> set ev. firedOn (OnCollision e1) ''triggerenter'' e0 x) \<longleftrightarrow>
                  hasTriggerEvents (collision (E e1)) \<and> \<not> recorded E (collisions t) e1 e0 \<and>
                  \<not> noResponse F (getCollisionFlags (getBody0 m))) \<and>
               (\<not> recorded E (collisions t) e0 e1 \<and> \<not> recorded E (collisions t) e1 e0 \<longrightarrow>
                  (hasTriggerEvents (rigidbody (E e0)) \<longrightarrow>
                     (\<exists>x \<in> set ev. firedOn (OnRigidbody e0) ''triggerenter'' e1 x)) \<and>
                  (hasTriggerEvents (rigidbody (E e1)) \<longrightarrow>
                     (\<exists>x \<in> set ev. firedOn (OnRigidbody e1) ''triggerenter'' e0 x))) \<and>
               (recorded E (collisions t) e0 e1 \<and> recorded E (collisions t) e1 e0 \<longrightarrow> ev = []))"
    if h: "body_entity (getBody0 m) = Some e0" "body_entity (getBody1 m) = Some e1"
      "contactPoints m \<noteq> []" "flagged F m" "getGuid (E e0) \<noteq> getGuid (E e1)"
    unfolding Let_def
    by (intro conjI) (rule checkManifold_classifies[OF h, of t])+
  have 2: "n = ''triggerenter'' \<or> n = ''triggerleave''"
    if trig: "trigger (E a) \<or> trigger (E b)"
      and allfl: "\<forall>m' \<in> set manifolds. pairs m' a b \<longrightarrow> flagged F m'"
      and x: "x \<in> set (firedSince (length (fired s)) (checkForCollisions E F manifolds s))"
      and f: "firedOn (OnCollision a) n b x \<or> firedOn (OnRigidbody a) n b x \<or>
              firedOn (OnCollision b) n a x \<or> firedOn (OnRigidbody b) n a x" for x n
    using x
  proof (cases rule: step_new_cases)
    case (loop m' s')
    have "pairs m' a b \<and> (flagged F m' \<longleftrightarrow> n = ''triggerenter'')"
      using f checkManifold_about[OF loop(3), of _ n b a] checkManifold_about[OF loop(3), of _ n a b]
        pairs_sym[of m'] by blast
    then show ?thesis using allfl loop(1) by blast
  next
    case (clean g c y)
    from f consider (ab) t where "firedOn t n b x" "t = OnCollision a \<or> t = OnRigidbody a"
      | (ba) t where "firedOn t n a x" "t = OnCollision b \<or> t = OnRigidbody b" by blast
    then show ?thesis
    proof cases
      case ab
      from endFired_about[OF clean(4) ab(1)] ab(2) trig show ?thesis by auto
    next
      case ba
      from endFired_about[OF clean(4) ba(1)] ba(2) trig show ?thesis by auto
    qed
  qed
  have 3: "oth \<notin> set (othersOf (collisions (checkForCollisions E F manifolds s)) g) \<and>
           (collision (E (entity c)) \<noteq> None \<longrightarrow>
               (\<exists>x \<in> set (firedSince (length (fired s)) (checkForCollisions E F manifolds s)).
                  firedOn (OnCollision (entity c)) ''triggerleave'' oth x)) \<and>
            (rigidbody (E oth) \<noteq> None \<longrightarrow>
               (\<exists>x \<in> set (firedSince (length (fired s)) (checkForCollisions E F manifolds s)).
                  firedOn (OnRigidbody oth) ''triggerleave'' (entity c) x))"
    if h: "map_of (collisions s) g = Some c" "trigger (E (entity c))" "oth \<in> set (others c)"
       "oth \<notin> set (othersOf (frameCollisions (checkForCollisions E F manifolds s)) g)"
  proof -
    have sub: "set (endFired E (entity c) oth :: 'n fired list) \<subseteq>
           set (firedSince (length (fired s)) (checkForCollisions E F manifolds s))"
      using vanished_pair_fired[OF h(1,3,4)] .
    have tl: "(collision (E (entity c)) \<noteq> None \<longrightarrow>
                 (\<exists>x \<in> set (endFired E (entity c) oth :: 'n fired list).
                    firedOn (OnCollision (entity c)) ''triggerleave'' oth x)) \<and>
              (rigidbody (E oth) \<noteq> None \<longrightarrow>
                 (\<exists>x \<in> set (endFired E (entity c) oth :: 'n fired list).
                    firedOn (OnRigidbody oth) ''triggerleave'' (entity c) x))"
      using endFired_triggerleave[where E=E and ent="entity c" and oth=oth] h(2) by blast
    have fr: "frameCollisions (checkForCollisions E F manifolds s) =
                frameCollisions (checkManifolds E F manifolds (s\<lparr>frameCollisions := []\<rparr>))"
      by (simp add: checkForCollisions_def)
    have gone: "oth \<notin> set (othersOf (collisions (checkForCollisions E F manifolds s)) g)"
      unfolding checkForCollisions_def cleanOld_othersOf using h(4) fr by simp
    show ?thesis using tl sub gone by blast
  qed
  show ?thesis using 1 2 3 by blast
qed

section \<open>RigidBodyComponentSystem: the collision record\<close>

text \<open>
  C9. After \<open>_checkForCollisions\<close>, from any state and for any manifolds, every entry
  of the persistent \<open>collisions\<close> object has a non-empty \<open>others\<close> array; and
  \<open>_storeCollision(ent, oth)\<close> leaves an entry for the guid of \<open>ent\<close> that holds \<open>oth\<close>.
\<close>

theorem collisions_entries_nonempty:
  "(\<forall>g c. map_of (collisions (checkForCollisions E F manifolds s)) g = Some c \<longrightarrow> others c \<noteq> [])
   \<and> (\<exists>c. map_of (collisions (snd (storeCollision E ent oth s))) (getGuid (E ent)) = Some c
          \<and> oth \<in> set (others c))"
proof -
  have "\<And>g c. map_of (collisions (checkForCollisions E F manifolds s)) g = Some c \<Longrightarrow> others c \<noteq> []"
    unfolding checkForCollisions_def cleanOld_map_of
    by (auto simp: cleaned_def Let_def split: option.splits if_splits)
  moreover have "\<exists>c. map_of (collisions (snd (storeCollision E ent oth s))) (getGuid (E ent)) = Some c
          \<and> oth \<in> set (others c)"
    by (cases "map_of (collisions s) (getGuid (E ent))")
       (simp_all add: storeCollision_def Let_def update_conv')
  ultimately show ?thesis by blast
qed

text \<open>
  C5, as amended. \<open>_checkForCollisions\<close> starts from an empty \<open>frameCollisions\<close>: its
  result does not depend on what \<open>frameCollisions\<close> held before, and with no manifold
  the frame record is empty afterwards. \<open>_storeCollision(ent, oth)\<close> appends \<open>oth\<close> to
  the frame entry of the guid of \<open>ent\<close> in every case, and to the persistent entry
  only when \<open>oth\<close> is not yet in it, leaving the persistent entry as it is otherwise;
  it returns true exactly when \<open>oth\<close> was not yet in the persistent entry.
\<close>

theorem storeCollision_record:
  "checkForCollisions E F manifolds (s\<lparr>frameCollisions := fc\<rparr>) = checkForCollisions E F manifolds s
   \<and> frameCollisions (checkForCollisions E F [] s) = []
   \<and> othersOf (frameCollisions (snd (storeCollision E ent oth s))) (getGuid (E ent)) =
       othersOf (frameCollisions s) (getGuid (E ent)) @ [oth]
   \<and> othersOf (collisions (snd (storeCollision E ent oth s))) (getGuid (E ent)) =
       (if oth \<in> set (othersOf (collisions s) (getGuid (E ent)))
        then othersOf (collisions s) (getGuid (E ent))
        else othersOf (collisions s) (getGuid (E ent)) @ [oth])
   \<and> (fst (storeCollision E ent oth s) \<longleftrightarrow> oth \<notin> set (othersOf (collisions s) (getGuid (E ent))))"
proof -
  have 1: "checkForCollisions E F manifolds (s\<lparr>frameCollisions := fc\<rparr>) = checkForCollisions E F manifolds s"
    by (simp add: checkForCollisions_def)
  have 2: "frameCollisions (checkForCollisions E F [] s) = []"
    by (simp add: checkForCollisions_def)
  show ?thesis
    using 1 2 storeCollision_frameCollisions[of E ent oth s "getGuid (E ent)"]
      storeCollision_collisions[of E ent oth s "getGuid (E ent)"] storeCollision_new[of E ent oth s]
    by presburger
qed

section \<open>RigidBodyComponentSystem: stepping the dynamics world\<close>

lemma bookkeeping_refl [simp]: "bookkeeping s s"
  by (simp add: bookkeeping_def)

lemma bookkeeping_trans: "bookkeeping s s' \<Longrightarrow> bookkeeping s' s'' \<Longrightarrow> bookkeeping s s''"
  by (simp add: bookkeeping_def)

lemma bookkeeping_fire [simp]: "bookkeeping s (fire t n a s)"
  by (simp add: bookkeeping_def fire_def)

lemma bookkeeping_storeCollision [simp]: "bookkeeping s (snd (storeCollision E a b s))"
  by (simp add: bookkeeping_def storeCollision_def Let_def)

lemma bookkeeping_fired [simp]: "bookkeeping s (s\<lparr>fired := f\<rparr>)"
  by (simp add: bookkeeping_def)

lemma bookkeeping_triggerContacts: "bookkeeping s (triggerContacts E F e0 e1 f0 f1 s)"
  by (rule triggerContacts_rule)
     (auto intro: bookkeeping_trans[OF _ bookkeeping_storeCollision] bookkeeping_trans[OF _ bookkeeping_fire])

lemma bookkeeping_contactEvents: "bookkeeping s (contactEvents E a b cs s)"
  using bookkeeping_storeCollision[of s E a b] by (simp add: contactEvents_eq bookkeeping_def)

lemma bookkeeping_checkManifold: "bookkeeping s (checkManifold E F s m)"
proof (cases rule: checkManifold_cases[of E F s m])
  case skip
  then show ?thesis by simp
next
  case (trigger e0 e1)
  then show ?thesis by (simp add: bookkeeping_triggerContacts)
next
  case (contact e0 e1)
  let ?sA = "s\<lparr>fired := fired s @ globalContacts e0 e1 m s\<rparr>"
  let ?sB = "(if hasContactEvent E e0
           then contactEvents E e0 e1 (map createContactPointFromAmmo (contactPoints m)) else id) ?sA"
  have A: "bookkeeping s ?sA" by simp
  have B: "bookkeeping ?sA ?sB" by (simp add: bookkeeping_contactEvents)
  have C: "bookkeeping ?sB (checkManifold E F s m)" unfolding contact(5) by (simp add: bookkeeping_contactEvents)
  from A B C show ?thesis using bookkeeping_trans by blast
qed

lemma bookkeeping_checkManifolds: "bookkeeping s (checkManifolds E F ms s)"
proof (induction ms arbitrary: s)
  case Nil
  then show ?case by simp
next
  case (Cons m ms)
  show ?case using bookkeeping_trans[OF bookkeeping_checkManifold Cons.IH] by simp
qed

lemma bookkeeping_cleanGuid: "bookkeeping s (cleanGuid E g s)"
  by (simp add: cleanGuid_eq bookkeeping_def)

lemma bookkeeping_cleanGuids: "bookkeeping s (cleanGuids E gs s)"
proof (induction gs arbitrary: s)
  case Nil
  then show ?case by simp
next
  case (Cons g gs)
  show ?case using bookkeeping_trans[OF bookkeeping_cleanGuid Cons.IH] by simp
qed

lemma bookkeeping_checkForCollisions: "bookkeeping s (checkForCollisions E F ms s)"
proof -
  have 1: "bookkeeping s (s\<lparr>frameCollisions := []\<rparr>)" by (simp add: bookkeeping_def)
  have 2: "bookkeeping (s\<lparr>frameCollisions := []\<rparr>) (checkManifolds E F ms (s\<lparr>frameCollisions := []\<rparr>))"
    by (rule bookkeeping_checkManifolds)
  have 3: "bookkeeping (checkManifolds E F ms (s\<lparr>frameCollisions := []\<rparr>)) (checkForCollisions E F ms s)"
    unfolding checkForCollisions_def cleanOldCollisions_def by (rule bookkeeping_cleanGuids)
  from 1 2 3 show ?thesis using bookkeeping_trans by blast
qed

lemma internalTick_calls:
  "calls (internalTick E F s ms) = calls s @ [InternalTick] \<and>
   dynamicsWorld (internalTick E F s ms) = dynamicsWorld s \<and>
   maxSubSteps (internalTick E F s ms) = maxSubSteps s \<and>
   fixedTimeStep (internalTick E F s ms) = fixedTimeStep s \<and>
   dynamic (internalTick E F s ms) = dynamic s"
  using bookkeeping_checkForCollisions[of "called [InternalTick] s" E F ms]
  by (simp add: internalTick_def bookkeeping_def called_def)

lemma internalTicks_calls:
  "calls (foldl (internalTick E F) s ticks) = calls s @ replicate (length ticks) InternalTick \<and>
   dynamicsWorld (foldl (internalTick E F) s ticks) = dynamicsWorld s \<and>
   maxSubSteps (foldl (internalTick E F) s ticks) = maxSubSteps s \<and>
   fixedTimeStep (foldl (internalTick E F) s ticks) = fixedTimeStep s \<and>
   dynamic (foldl (internalTick E F) s ticks) = dynamic s"
proof (induction ticks arbitrary: s)
  case Nil
  then show ?case by simp
next
  case (Cons t ticks)
  show ?case using Cons.IH[of "internalTick E F s t"] internalTick_calls[of E F s t]
    by (simp add: replicate_app_Cons_same)
qed

lemma onUpdate_calls:
  fixes s :: "'n RigidBodyComponentSystem"
  assumes w: "dynamicsWorld s = Some w"
  shows "\<exists>s' g. onUpdate E F J frame dt s = Inr s' \<and>
           dynamicsWorld s' = Some w \<and> maxSubSteps s' = maxSubSteps s \<and>
           fixedTimeStep s' = fixedTimeStep s \<and> dynamic s' = dynamic s \<and>
           set g \<subseteq> range (\<lambda>(x, y, z). SetGravity x y z) \<and>
           calls s' = calls s @ g @ map UpdateTransform (triggers s) @ map UpdateCompound (compounds s) @
              map UpdateKinematic (kinematic s) @
              [StepSimulation dt (maxSubSteps s) (fixedTimeStep s)] @
              (if internalTickCallback w then replicate (length (internalTicks frame)) InternalTick else []) @
              map UpdateDynamic (dynamic s) @
              (if setInternalTickCallback w then [] else [CheckForCollisions])"
proof -
  obtain gx gy gz where g: "gravity s = Vec3 gx gy gz" by (cases "gravity s") auto
  obtain wx wy wz where wg: "getGravity frame = btVector3 wx wy wz" by (cases "getGravity frame") auto
  define s0 where "s0 = s\<lparr>gravityFloat32 := [fround J gx, fround J gy, fround J gz]\<rparr>"
  define gc :: "'n call list" where "gc = (if notIdentical J wx (fround J gx) \<or> notIdentical J wy (fround J gy) \<or>
                       notIdentical J wz (fround J gz) then [SetGravity gx gy gz] else [])"
  define s1 where "s1 = called (gc @ map UpdateTransform (triggers s) @ map UpdateCompound (compounds s) @
              map UpdateKinematic (kinematic s) @
              [StepSimulation dt (maxSubSteps s) (fixedTimeStep s)]) s0"
  define s2 where "s2 = (if internalTickCallback w then foldl (internalTick E F) s1 (internalTicks frame) else s1)"
  define s3 where "s3 = called (map UpdateDynamic (dynamic s2)) s2"
  define s4 where "s4 = (if \<not> setInternalTickCallback w
                         then checkForCollisions E F (getManifolds frame) (called [CheckForCollisions] s3)
                         else s3)"
  have r: "onUpdate E F J frame dt s = Inr s4"
    by (simp add: onUpdate_def w g wg Let_def s4_def s3_def s2_def s1_def s0_def gc_def called_def)
  have f1: "dynamicsWorld s1 = Some w" "maxSubSteps s1 = maxSubSteps s" "fixedTimeStep s1 = fixedTimeStep s"
      "dynamic s1 = dynamic s" "calls s1 = calls s @ gc @ map UpdateTransform (triggers s) @ map UpdateCompound (compounds s) @
              map UpdateKinematic (kinematic s) @
              [StepSimulation dt (maxSubSteps s) (fixedTimeStep s)]"
    by (simp_all add: s1_def s0_def called_def w)
  have f2: "dynamicsWorld s2 = Some w" "maxSubSteps s2 = maxSubSteps s" "fixedTimeStep s2 = fixedTimeStep s"
      "dynamic s2 = dynamic s"
      "calls s2 = calls s1 @ (if internalTickCallback w then replicate (length (internalTicks frame)) InternalTick else [])"
    using internalTicks_calls[of E F s1 "internalTicks frame"] f1(1-4)
    by (simp_all add: s2_def)
  have f3: "dynamicsWorld s3 = Some w" "maxSubSteps s3 = maxSubSteps s" "fixedTimeStep s3 = fixedTimeStep s"
      "dynamic s3 = dynamic s"
      "calls s3 = calls s2 @ map UpdateDynamic (dynamic s)"
    using f2(1-4) by (simp_all add: s3_def called_def)
  have f4: "dynamicsWorld s4 = Some w" "maxSubSteps s4 = maxSubSteps s" "fixedTimeStep s4 = fixedTimeStep s"
      "dynamic s4 = dynamic s"
      "calls s4 = calls s3 @ (if setInternalTickCallback w then [] else [CheckForCollisions])"
    using f3(1-4) bookkeeping_checkForCollisions[of "called [CheckForCollisions] s3" E F "getManifolds frame"]
    by (simp_all add: s4_def called_def bookkeeping_def)
  have gcr: "set gc \<subseteq> range (\<lambda>(x, y, z). SetGravity x y z)"
    by (auto simp: gc_def intro: range_eqI[where x = "(gx, gy, gz)"])
  show ?thesis
    apply (rule exI[of _ s4], rule exI[of _ gc])
    using r f4 f3(5) f2(5) f1(5) gcr by simp
qed

lemma filter_gravity_calls:
  assumes "set g \<subseteq> range (\<lambda>(x, y, z). SetGravity x y z)"
  shows "filter isStepSimulation g = []" "filter stepOrCheck g = []"
  using assms by (auto simp: filter_empty_conv)

lemma filter_update_calls [simp]:
  "filter isStepSimulation (map UpdateTransform xs) = []"
  "filter isStepSimulation (map UpdateCompound xs) = []"
  "filter isStepSimulation (map UpdateKinematic xs) = []"
  "filter isStepSimulation (map UpdateDynamic xs) = []"
  "filter isStepSimulation (replicate n InternalTick) = []"
  "filter stepOrCheck (map UpdateTransform xs) = []"
  "filter stepOrCheck (map UpdateCompound xs) = []"
  "filter stepOrCheck (map UpdateKinematic xs) = []"
  "filter stepOrCheck (map UpdateDynamic xs) = []"
  "filter stepOrCheck (replicate n InternalTick) = replicate n InternalTick"
  by (simp_all add: filter_empty_conv comp_def)

lemma onUpdate_step:
  fixes s :: "'n RigidBodyComponentSystem"
  assumes w: "dynamicsWorld s = Some w"
  shows "\<exists>s'. onUpdate E F J frame dt s = Inr s' \<and>
           dynamicsWorld s' = Some w \<and> maxSubSteps s' = maxSubSteps s \<and>
           fixedTimeStep s' = fixedTimeStep s \<and> dynamic s' = dynamic s \<and>
           length (calls s) \<le> length (calls s') \<and>
           take (length (calls s)) (calls s') = calls s \<and> 
           filter isStepSimulation (newCalls s s') = [StepSimulation dt (maxSubSteps s) (fixedTimeStep s)] \<and>
           filter stepOrCheck (newCalls s s') =
             StepSimulation dt (maxSubSteps s) (fixedTimeStep s) #
             (if internalTickCallback w then replicate (length (internalTicks frame)) InternalTick else []) @
             (if setInternalTickCallback w then [] else [CheckForCollisions])"
proof -
  from onUpdate_calls[OF w, of E F J frame dt]
  obtain s' g where r: "onUpdate E F J frame dt s = Inr s'"
    and f: "dynamicsWorld s' = Some w" "maxSubSteps s' = maxSubSteps s"
           "fixedTimeStep s' = fixedTimeStep s" "dynamic s' = dynamic s"
    and g: "set g \<subseteq> range (\<lambda>(x, y, z). SetGravity x y z)"
    and c: "calls s' = calls s @ g @ map UpdateTransform (triggers s) @ map UpdateCompound (compounds s) @
              map UpdateKinematic (kinematic s) @
              [StepSimulation dt (maxSubSteps s) (fixedTimeStep s)] @
              (if internalTickCallback w then replicate (length (internalTicks frame)) InternalTick else []) @
              map UpdateDynamic (dynamic s) @
              (if setInternalTickCallback w then [] else [CheckForCollisions])"
    by blast
  have n: "newCalls s s' = g @ map UpdateTransform (triggers s) @ map UpdateCompound (compounds s) @
              map UpdateKinematic (kinematic s) @
              [StepSimulation dt (maxSubSteps s) (fixedTimeStep s)] @
              (if internalTickCallback w then replicate (length (internalTicks frame)) InternalTick else []) @
              map UpdateDynamic (dynamic s) @
              (if setInternalTickCallback w then [] else [CheckForCollisions])"
    by (simp add: newCalls_def c)
  have a: "filter isStepSimulation (newCalls s s') = [StepSimulation dt (maxSubSteps s) (fixedTimeStep s)]"
    unfolding n by (simp add: filter_gravity_calls[OF g])
  have b: "filter stepOrCheck (newCalls s s') =
             StepSimulation dt (maxSubSteps s) (fixedTimeStep s) #
             (if internalTickCallback w then replicate (length (internalTicks frame)) InternalTick else []) @
             (if setInternalTickCallback w then [] else [CheckForCollisions])"
    unfolding n by (simp add: filter_gravity_calls[OF g])
  have t: "length (calls s) \<le> length (calls s')" "take (length (calls s)) (calls s') = calls s"
    by (simp_all add: c)
  from r f a b t show ?thesis by blast
qed

lemma runFrames_steps:
  fixes s :: "'n RigidBodyComponentSystem"
  assumes w: "dynamicsWorld s = Some w"
  shows "\<exists>s'. runFrames E F J frames s = Inr s' \<and>
           filter isStepSimulation (calls s') =
             filter isStepSimulation (calls s) @
             map (\<lambda>(frame, dt). StepSimulation dt (maxSubSteps s) (fixedTimeStep s)) frames"
  using w
proof (induction frames arbitrary: s)
  case Nil
  then show ?case by simp
next
  case (Cons fd frames)
  obtain frame dt where fd: "fd = (frame, dt)" by (cases fd)
  from onUpdate_step[OF Cons.prems, of E F J frame dt]
  obtain s1 where r: "onUpdate E F J frame dt s = Inr s1"
    and f: "dynamicsWorld s1 = Some w" "maxSubSteps s1 = maxSubSteps s" "fixedTimeStep s1 = fixedTimeStep s"
    and t: "take (length (calls s)) (calls s1) = calls s"
    and a: "filter isStepSimulation (newCalls s s1) = [StepSimulation dt (maxSubSteps s) (fixedTimeStep s)]"
    by blast
  have c: "calls s1 = calls s @ newCalls s s1"
    using append_take_drop_id[of "length (calls s)" "calls s1"] t by (simp add: newCalls_def)
  have fs: "filter isStepSimulation (calls s1) =
        filter isStepSimulation (calls s) @ [StepSimulation dt (maxSubSteps s) (fixedTimeStep s)]"
    using arg_cong[OF c, of "filter isStepSimulation"] a by simp
  from Cons.IH[OF f(1)] obtain s' where r': "runFrames E F J frames s1 = Inr s'"
    and a': "filter isStepSimulation (calls s') =
             filter isStepSimulation (calls s1) @
             map (\<lambda>(frame, dt). StepSimulation dt (maxSubSteps s1) (fixedTimeStep s1)) frames"
    by blast
  show ?case
    by (rule exI[of _ s']) (simp add: fd r r' a' fs f)
qed

lemma onLibraryLoaded_Some:
  fixes s :: "'n RigidBodyComponentSystem" and A :: Ammo
  defines "l \<equiv> onLibraryLoaded (Some A) s"
  shows "dynamicsWorld l = Some \<lparr>setInternalTickCallback = has_setInternalTickCallback A,
                                  internalTickCallback = has_setInternalTickCallback A\<rparr>"
    "maxSubSteps l = maxSubSteps s" "fixedTimeStep l = fixedTimeStep s" "dynamic l = dynamic s"
    "calls l = calls s @
       [New ''btDefaultCollisionConfiguration'', New ''btCollisionDispatcher'',
        New ''btDbvtBroadphase'', New ''btSequentialImpulseConstraintSolver'',
        New ''btDiscreteDynamicsWorld''] @
       (if has_setInternalTickCallback A then [AddFunction, SetInternalTickCallback] else [DebugWarn]) @
       [New ''btVector3'', New ''btVector3'', New ''btVector3'',
        New ''btQuaternion'', New ''btTransform'', ComponentOnLibraryLoaded,
        New ''ObjectPool'', New ''ObjectPool'', New ''ObjectPool'', SystemsOn]"
  by (simp_all add: l_def onLibraryLoaded_def Let_def called_def)

text \<open>
  C6. Every \<open>onUpdate(dt)\<close> of a system that has a dynamics world returns, and among the
  calls it makes exactly one is \<open>stepSimulation\<close>, with the arguments \<open>dt\<close>,
  \<open>maxSubSteps\<close> and \<open>fixedTimeStep\<close>. The constructor sets \<open>maxSubSteps\<close> to 10 and
  \<open>fixedTimeStep\<close> to 1/60, and in a run of frames after the library was loaded into a
  new system the calls of \<open>stepSimulation\<close> are, frame by frame,
  \<open>stepSimulation(dt, 10, 1/60)\<close>.
\<close>

theorem onUpdate_stepSimulation_once:
  fixes s :: "'n::{zero,numeral,inverse,uminus} RigidBodyComponentSystem"
  shows "(dynamicsWorld s = Some w \<longrightarrow>
            (\<exists>s'. onUpdate E F J frame dt s = Inr s' \<and>
                   filter isStepSimulation (newCalls s s') =
                     [StepSimulation dt (maxSubSteps s) (fixedTimeStep s)])) \<and>
         maxSubSteps (constructor :: 'n RigidBodyComponentSystem) = 10 \<and>
         fixedTimeStep (constructor :: 'n RigidBodyComponentSystem) = 1 / 60 \<and>
         (\<exists>s'. runFrames E F J frames (onLibraryLoaded (Some A) constructor) = Inr s' \<and>
                filter isStepSimulation (calls s') =
                  map (\<lambda>(frame, dt). StepSimulation dt 10 (1 / 60)) frames)"
proof -
  have a: "dynamicsWorld s = Some w \<longrightarrow>
            (\<exists>s'. onUpdate E F J frame dt s = Inr s' \<and>
                   filter isStepSimulation (newCalls s s') =
                     [StepSimulation dt (maxSubSteps s) (fixedTimeStep s)])"
    using onUpdate_step[of s w E F J frame dt] by blast
  have b: "maxSubSteps (constructor :: 'n RigidBodyComponentSystem) = 10"
    "fixedTimeStep (constructor :: 'n RigidBodyComponentSystem) = 1 / 60"
    "calls (constructor :: 'n RigidBodyComponentSystem) = []"
    by (simp_all add: constructor_def)
  let ?l = "onLibraryLoaded (Some A) (constructor :: 'n RigidBodyComponentSystem)"
  have l: "maxSubSteps ?l = 10" "fixedTimeStep ?l = 1 / 60" "filter isStepSimulation (calls ?l) = []"
    by (simp_all add: onLibraryLoaded_Some b)
  have c: "\<exists>s'. runFrames E F J frames ?l = Inr s' \<and>
                filter isStepSimulation (calls s') =
                  map (\<lambda>(frame, dt). StepSimulation dt 10 (1 / 60)) frames"
    using runFrames_steps[OF onLibraryLoaded_Some(1), of E F J frames A constructor]
    unfolding l by simp
  from a b(1,2) c show ?thesis by blast
qed

lemma raycastAll_calls:
  "newCalls s (snd (raycastAll A a b answer s)) =
     DebugAssert (has_AllHitsRayResultCallback A) #
     (if dynamicsWorld s \<noteq> None \<and> has_AllHitsRayResultCallback A
      then [New ''AllHitsRayResultCallback'', RayTest, Destroy ''rayCallback''] else [])"
  "dynamicsWorld s = None \<or> \<not> has_AllHitsRayResultCallback A \<Longrightarrow>
     fst (raycastAll A a b answer s) = Inl TypeError"
  "dynamicsWorld s \<noteq> None \<and> has_AllHitsRayResultCallback A \<Longrightarrow>
     \<exists>r. fst (raycastAll A a b answer s) = Inr r"
  by (auto simp: raycastAll_def newCalls_def called_def Let_def)

lemma private_shapeTest_calls:
  "newCalls s (snd (private_shapeTest A shape p r found s)) =
     DebugAssert (has_ConcreteContactResultCallback A) #
     (if dynamicsWorld s = None then []
      else (if shapeTestBody s then [] else [CreateBody]) @
           [SetCollisionShape (Some shape), SetWorldTransform p r, ForceActivationState] @
           (if has_ConcreteContactResultCallback A
            then [New ''ConcreteContactResultCallback'', ContactTest, ForceActivationState,
                  SetCollisionShape None, Destroy ''resultCallback'', Destroy ''shape'']
            else []))"
  "dynamicsWorld s = None \<or> \<not> has_ConcreteContactResultCallback A \<Longrightarrow>
     fst (private_shapeTest A shape p r found s) = Inl TypeError"
  "dynamicsWorld s \<noteq> None \<and> has_ConcreteContactResultCallback A \<Longrightarrow>
     \<exists>hits. fst (private_shapeTest A shape p r found s) = Inr hits"
  by (auto simp: private_shapeTest_def newCalls_def called_def Let_def)

lemma checkManifold_no_entity:
  "body_entity (getBody0 m) = None \<or> body_entity (getBody1 m) = None \<Longrightarrow> checkManifold E F t m = t"
  by (auto simp: checkManifold_def split: option.splits)

lemma onLibraryLoaded_None:
  "newCalls s (onLibraryLoaded None s) = [SystemsOff]"
  "dynamicsWorld (onLibraryLoaded None s) = dynamicsWorld s"
  by (simp_all add: onLibraryLoaded_def newCalls_def called_def)

lemma onLibraryLoaded_newCalls:
  fixes s :: "'n RigidBodyComponentSystem"
  shows "newCalls s (onLibraryLoaded (Some A) s) =
       [New ''btDefaultCollisionConfiguration'', New ''btCollisionDispatcher'',
        New ''btDbvtBroadphase'', New ''btSequentialImpulseConstraintSolver'',
        New ''btDiscreteDynamicsWorld''] @
       (if has_setInternalTickCallback A then [AddFunction, SetInternalTickCallback] else [DebugWarn]) @
       [New ''btVector3'', New ''btVector3'', New ''btVector3'',
        New ''btQuaternion'', New ''btTransform'', ComponentOnLibraryLoaded,
        New ''ObjectPool'', New ''ObjectPool'', New ''ObjectPool'', SystemsOn]"
  by (simp add: newCalls_def onLibraryLoaded_Some(5))

text \<open>
  C7, as amended. When the dynamics world of the library exposes
  \<open>setInternalTickCallback\<close>, \<open>onLibraryLoaded\<close> registers the collision check with it and
  logs no warning, and an \<open>onUpdate\<close> steps the simulation, during which the dynamics
  world runs the callback once for each internal tick, and does not call
  \<open>_checkForCollisions\<close> itself. Otherwise \<open>onLibraryLoaded\<close> registers nothing and logs
  the warning, and an \<open>onUpdate\<close> steps the simulation and then calls
  \<open>_checkForCollisions\<close> once, no callback having been run. The first call of
  \<open>raycastAll\<close> is the assertion that \<open>Ammo.AllHitsRayResultCallback\<close> is there and the
  first call of \<open>_shapeTest\<close> the assertion that \<open>Ammo.ConcreteContactResultCallback\<close> is
  there, each before the entry point is constructed. The assertion only reports:
  without the entry point, or before \<open>onLibraryLoaded\<close> has created the dynamics world,
  the call then throws, and with both it returns its results. These are not the only
  guards: \<open>_checkForCollisions\<close> passes over a manifold one of whose bodies has no
  entity, leaving the system as it is, and \<open>onLibraryLoaded\<close>, when \<open>Ammo\<close> is not
  defined, creates no dynamics world and only unbinds \<open>onUpdate\<close> from the \<open>update\<close>
  event.
\<close>

theorem feature_detection_guards:
  fixes s t :: "'n::{ord,zero} RigidBodyComponentSystem"
  shows "(let loaded = onLibraryLoaded (Some A) s in
            (has_setInternalTickCallback A \<longrightarrow>
               SetInternalTickCallback \<in> set (newCalls s loaded) \<and>
               DebugWarn \<notin> set (newCalls s loaded) \<and>
               (\<exists>s'. onUpdate E F J frame dt loaded = Inr s' \<and>
                      filter stepOrCheck (newCalls loaded s') =
                        StepSimulation dt (maxSubSteps s) (fixedTimeStep s) #
                        replicate (length (internalTicks frame)) InternalTick)) \<and>
            (\<not> has_setInternalTickCallback A \<longrightarrow>
               SetInternalTickCallback \<notin> set (newCalls s loaded) \<and>
               DebugWarn \<in> set (newCalls s loaded) \<and>
               (\<exists>s'. onUpdate E F J frame dt loaded = Inr s' \<and>
                      filter stepOrCheck (newCalls loaded s') =
                        [StepSimulation dt (maxSubSteps s) (fixedTimeStep s), CheckForCollisions]))) \<and>
         newCalls s (snd (raycastAll A rayStart rayEnd answer s)) =
           DebugAssert (has_AllHitsRayResultCallback A) #
           (if dynamicsWorld s \<noteq> None \<and> has_AllHitsRayResultCallback A
            then [New ''AllHitsRayResultCallback'', RayTest, Destroy ''rayCallback''] else []) \<and>
         (dynamicsWorld s = None \<or> \<not> has_AllHitsRayResultCallback A \<longrightarrow>
            fst (raycastAll A rayStart rayEnd answer s) = Inl TypeError) \<and>
         (dynamicsWorld s \<noteq> None \<and> has_AllHitsRayResultCallback A \<longrightarrow>
            (\<exists>results. fst (raycastAll A rayStart rayEnd answer s) = Inr results)) \<and>
         newCalls s (snd (private_shapeTest A shape position rotation found s)) =
           DebugAssert (has_ConcreteContactResultCallback A) #
           (if dynamicsWorld s = None then []
            else (if shapeTestBody s then [] else [CreateBody]) @
                 [SetCollisionShape (Some shape), SetWorldTransform position rotation,
                  ForceActivationState] @
                 (if has_ConcreteContactResultCallback A
                  then [New ''ConcreteContactResultCallback'', ContactTest, ForceActivationState,
                        SetCollisionShape None, Destroy ''resultCallback'', Destroy ''shape'']
                  else [])) \<and>
         (dynamicsWorld s = None \<or> \<not> has_ConcreteContactResultCallback A \<longrightarrow>
            fst (private_shapeTest A shape position rotation found s) = Inl TypeError) \<and>
         (dynamicsWorld s \<noteq> None \<and> has_ConcreteContactResultCallback A \<longrightarrow>
            (\<exists>results. fst (private_shapeTest A shape position rotation found s) = Inr results)) \<and>
         (body_entity (getBody0 m) = None \<or> body_entity (getBody1 m) = None \<longrightarrow>
            checkManifold E F t m = t) \<and>
         newCalls s (onLibraryLoaded None s) = [SystemsOff] \<and>
         dynamicsWorld (onLibraryLoaded None s) = dynamicsWorld s"
proof -
  let ?l = "onLibraryLoaded (Some A) s"
  let ?w = "\<lparr>setInternalTickCallback = has_setInternalTickCallback A,
             internalTickCallback = has_setInternalTickCallback A\<rparr>"
  have w: "dynamicsWorld ?l = Some ?w" by (rule onLibraryLoaded_Some(1))
  from onUpdate_step[OF w, of E F J frame dt]
  obtain s' where r: "onUpdate E F J frame dt ?l = Inr s'"
    and b: "filter stepOrCheck (newCalls ?l s') =
             StepSimulation dt (maxSubSteps ?l) (fixedTimeStep ?l) #
             (if internalTickCallback ?w then replicate (length (internalTicks frame)) InternalTick else []) @
             (if setInternalTickCallback ?w then [] else [CheckForCollisions])"
    by blast
  have m: "maxSubSteps ?l = maxSubSteps s" "fixedTimeStep ?l = fixedTimeStep s"
    by (simp_all add: onLibraryLoaded_Some)
  have u1: "has_setInternalTickCallback A \<longrightarrow>
      (\<exists>s'. onUpdate E F J frame dt ?l = Inr s' \<and>
                      filter stepOrCheck (newCalls ?l s') =
                        StepSimulation dt (maxSubSteps s) (fixedTimeStep s) #
                        replicate (length (internalTicks frame)) InternalTick)"
    using r b m by simp
  have u2: "\<not> has_setInternalTickCallback A \<longrightarrow>
      (\<exists>s'. onUpdate E F J frame dt ?l = Inr s' \<and>
                      filter stepOrCheck (newCalls ?l s') =
                        [StepSimulation dt (maxSubSteps s) (fixedTimeStep s), CheckForCollisions])"
    using r b m by simp
  have l1: "has_setInternalTickCallback A \<longrightarrow>
               SetInternalTickCallback \<in> set (newCalls s ?l) \<and> DebugWarn \<notin> set (newCalls s ?l)"
    by (simp add: onLibraryLoaded_newCalls)
  have l2: "\<not> has_setInternalTickCallback A \<longrightarrow>
               SetInternalTickCallback \<notin> set (newCalls s ?l) \<and> DebugWarn \<in> set (newCalls s ?l)"
    by (simp add: onLibraryLoaded_newCalls)
  have p1: "(let loaded = onLibraryLoaded (Some A) s in
            (has_setInternalTickCallback A \<longrightarrow>
               SetInternalTickCallback \<in> set (newCalls s loaded) \<and>
               DebugWarn \<notin> set (newCalls s loaded) \<and>
               (\<exists>s'. onUpdate E F J frame dt loaded = Inr s' \<and>
                      filter stepOrCheck (newCalls loaded s') =
                        StepSimulation dt (maxSubSteps s) (fixedTimeStep s) #
                        replicate (length (internalTicks frame)) InternalTick)) \<and>
            (\<not> has_setInternalTickCallback A \<longrightarrow>
               SetInternalTickCallback \<notin> set (newCalls s loaded) \<and>
               DebugWarn \<in> set (newCalls s loaded) \<and>
               (\<exists>s'. onUpdate E F J frame dt loaded = Inr s' \<and>
                      filter stepOrCheck (newCalls loaded s') =
                        [StepSimulation dt (maxSubSteps s) (fixedTimeStep s), CheckForCollisions])))"
    unfolding Let_def using u1 u2 l1 l2 by blast
  have c1: "newCalls s (snd (raycastAll A rayStart rayEnd answer s)) =
           DebugAssert (has_AllHitsRayResultCallback A) #
           (if dynamicsWorld s \<noteq> None \<and> has_AllHitsRayResultCallback A
            then [New ''AllHitsRayResultCallback'', RayTest, Destroy ''rayCallback''] else [])"
    by (rule raycastAll_calls(1))
  have c2: "dynamicsWorld s = None \<or> \<not> has_AllHitsRayResultCallback A \<longrightarrow>
            fst (raycastAll A rayStart rayEnd answer s) = Inl TypeError"
    using raycastAll_calls(2)[where s = s and A = A and a = rayStart and b = rayEnd and answer = answer] by blast
  have c3: "dynamicsWorld s \<noteq> None \<and> has_AllHitsRayResultCallback A \<longrightarrow>
            (\<exists>results. fst (raycastAll A rayStart rayEnd answer s) = Inr results)"
    using raycastAll_calls(3)[where s = s and A = A and a = rayStart and b = rayEnd and answer = answer] by blast
  have d1: "newCalls s (snd (private_shapeTest A shape position rotation found s)) =
           DebugAssert (has_ConcreteContactResultCallback A) #
           (if dynamicsWorld s = None then []
            else (if shapeTestBody s then [] else [CreateBody]) @
                 [SetCollisionShape (Some shape), SetWorldTransform position rotation,
                  ForceActivationState] @
                 (if has_ConcreteContactResultCallback A
                  then [New ''ConcreteContactResultCallback'', ContactTest, ForceActivationState,
                        SetCollisionShape None, Destroy ''resultCallback'', Destroy ''shape'']
                  else []))"
    by (rule private_shapeTest_calls(1))
  have d2: "dynamicsWorld s = None \<or> \<not> has_ConcreteContactResultCallback A \<longrightarrow>
            fst (private_shapeTest A shape position rotation found s) = Inl TypeError"
    using private_shapeTest_calls(2)[where s = s and A = A and shape = shape and p = position and r = rotation and found = found] by blast
  have d3: "dynamicsWorld s \<noteq> None \<and> has_ConcreteContactResultCallback A \<longrightarrow>
            (\<exists>results. fst (private_shapeTest A shape position rotation found s) = Inr results)"
    using private_shapeTest_calls(3)[where s = s and A = A and shape = shape and p = position and r = rotation and found = found] by blast
  have e1: "body_entity (getBody0 m) = None \<or> body_entity (getBody1 m) = None \<longrightarrow>
            checkManifold E F t m = t"
    using checkManifold_no_entity[where m = m and E = E and F = F and t = t] by blast
  have e2: "newCalls s (onLibraryLoaded None s) = [SystemsOff]"
    "dynamicsWorld (onLibraryLoaded None s) = dynamicsWorld s"
    by (rule onLibraryLoaded_None)+
  show ?thesis
    by (intro conjI) (rule p1 c1 c2 c3 d1 d2 d3 e1 e2)+
qed

section \<open>RigidBodyComponentSystem: the shape casts\<close>

text \<open>
  C10. When \<open>halfExtents\<close>, \<open>start\<close> and \<open>end\<close> are three different vector objects,
  \<open>boxCast\<close> leaves the vectors of the caller as they were but for two: the \<open>z\<close> of
  \<open>halfExtents\<close> has grown by half the distance from start to end, and \<open>start\<close> holds
  \<open>(start + end) / 2\<close>; \<open>end\<close> is as it was, and \<open>_shapeTest\<close> is called with the
  changed vectors. When \<open>start\<close> and \<open>end\<close> are different objects, \<open>sphereCast\<close> changes
  only \<open>start\<close>, to \<open>(start + end) / 2\<close>, and calls \<open>_shapeTest\<close> with it.
\<close>

theorem casts_mutate_arguments:
  fixes V :: "vec_ref \<Rightarrow> 'n::{plus,inverse,numeral,ord,zero} Vec3"
  shows "(halfExtents \<noteq> start \<and> halfExtents \<noteq> endv \<and> start \<noteq> endv \<longrightarrow>
            (case boxCast A distance lookAt found halfExtents start endv (V, s) of
               (V', result) \<Rightarrow>
                 V' = V(halfExtents := vec3_addZ (V halfExtents) (distance (V start) (V endv) / 2),
                        start := vec3_divScalar (vec3_add (V start) (V endv)) 2) \<and>
                 V' halfExtents = vec3_addZ (V halfExtents) (distance (V start) (V endv) / 2) \<and>
                 V' start = vec3_divScalar (vec3_add (V start) (V endv)) 2 \<and>
                 V' endv = V endv \<and>
                 result = private_shapeTest A (BtBoxShape (V' halfExtents)) (V' start)
                            (AsQuat (lookAt (V start) (V endv))) found s)) \<and>
         (start \<noteq> endv \<longrightarrow>
            (case sphereCast A distance lookAt found radius start endv (V, s) of
               (V', result) \<Rightarrow>
                 V' = V(start := vec3_divScalar (vec3_add (V start) (V endv)) 2) \<and>
                 V' start = vec3_divScalar (vec3_add (V start) (V endv)) 2 \<and>
                 V' endv = V endv \<and>
                 result = private_shapeTest A (BtCapsuleShapeZ radius (distance (V start) (V endv)))
                            (V' start) (AsQuat (lookAt (V start) (V endv))) found s))"
proof -
  have b: "case boxCast A distance lookAt found halfExtents start endv (V, s) of
               (V', result) \<Rightarrow>
                 V' = V(halfExtents := vec3_addZ (V halfExtents) (distance (V start) (V endv) / 2),
                        start := vec3_divScalar (vec3_add (V start) (V endv)) 2) \<and>
                 V' halfExtents = vec3_addZ (V halfExtents) (distance (V start) (V endv) / 2) \<and>
                 V' start = vec3_divScalar (vec3_add (V start) (V endv)) 2 \<and>
                 V' endv = V endv \<and>
                 result = private_shapeTest A (BtBoxShape (V' halfExtents)) (V' start)
                            (AsQuat (lookAt (V start) (V endv))) found s"
    if "halfExtents \<noteq> start" "halfExtents \<noteq> endv" "start \<noteq> endv"
    using that by (simp add: boxCast_def Let_def)
  have c: "case sphereCast A distance lookAt found radius start endv (V, s) of
               (V', result) \<Rightarrow>
                 V' = V(start := vec3_divScalar (vec3_add (V start) (V endv)) 2) \<and>
                 V' start = vec3_divScalar (vec3_add (V start) (V endv)) 2 \<and>
                 V' endv = V endv \<and>
                 result = private_shapeTest A (BtCapsuleShapeZ radius (distance (V start) (V endv)))
                            (V' start) (AsQuat (lookAt (V start) (V endv))) found s"
    if "start \<noteq> endv"
    using that by (simp add: sphereCast_def Let_def)
  show ?thesis
    by (intro conjI impI; (elim conjE)?; (rule b c; assumption))
qed

section \<open>RigidBodyComponentSystem: the theorems at concrete steps\<close>

lemmas step_defs = checkForCollisions_def cleanOldCollisions_def cleanGuid_def checkManifold_def
     triggerContacts_def triggerCollisionEvents_def triggerBodyEvents_def contactEvents_def storeCollision_def
     hasContactEvent_def hasTriggerEvents_def noResponse_def fire_def endEvents_def
     createContactResult_def createContactPointFromAmmo_def createReverseContactPointFromAmmo_def
     createSingleContactResult_def Let_def

lemmas example_defs = exampleEntities_def examplePoint_def contactManifold_def triggerManifold_def
     separatedManifold_def quietManifold_def emptySystem_def touchingSystem_def insideTriggerSystem_def
     constructor_def

lemmas notion_defs = othersOf_def firedSince_def firedOnComponents_def pairs_def flagged_def
     entitiesOf_def bodyEntities_def keyed_def

text \<open>
  C1 as stated fails. Entity 2 enters the trigger volume of entity 1: the pair is
  absent from the previous record, \<open>_storeCollision\<close> returns true for it and the
  frame record holds it, but the only event fired is \<open>triggerenter\<close>, although entity 1
  listens for \<open>collisionstart\<close>. And entity 5 touches an entity without components,
  on a system nobody listens on for \<open>contact\<close>: neither entity has a callback for a
  contact event, and nothing is stored and nothing is fired.
\<close>

theorem collisionstart_on_new_pair_counterexample:
  "fst (storeCollision exampleEntities 1 2 emptySystem)
   \<and> othersOf (collisions emptySystem) ''guid-1'' = []
   \<and> othersOf (frameCollisions (checkForCollisions exampleEntities 4 [triggerManifold] emptySystem)) ''guid-1'' = [2]
   \<and> fired (checkForCollisions exampleEntities 4 [triggerManifold] emptySystem) =
        [Fired (OnCollision 1) ''triggerenter'' (ArgEntity 2)]
   \<and> checkForCollisions exampleEntities 4 [quietManifold] emptySystem = emptySystem"
  by (simp add: step_defs example_defs notion_defs)

text \<open>
  The theorem at the bodies of entities 2 and 3 touching for the first time.
\<close>

theorem collisionstart_on_new_pair_witness:
  "fst (storeCollision exampleEntities 2 3 emptySystem) \<and>
   firedOnComponents exampleEntities 2 ''collisionstart'' 3
     (firedSince (length (fired emptySystem))
        (checkForCollisions exampleEntities 4 [contactManifold] emptySystem)) \<and>
   3 \<in> set (othersOf (collisions (checkForCollisions exampleEntities 4 [contactManifold] emptySystem))
              (getGuid (exampleEntities 2)))"
proof (rule collisionstart_on_new_pair[where m = contactManifold])
  show "contactManifold \<in> set [contactManifold]" by simp
  show "pairs contactManifold 2 3" by (simp add: pairs_def contactManifold_def)
  show "contactPoints contactManifold \<noteq> []" by (simp add: contactManifold_def)
  show "\<forall>m' \<in> set [contactManifold]. pairs m' 2 3 \<longrightarrow> \<not> flagged 4 m'"
    by (simp add: flagged_def noResponse_def contactManifold_def)
  show "hasContactEvent exampleEntities 2" by (simp add: hasContactEvent_def exampleEntities_def)
  show "3 \<notin> set (othersOf (collisions emptySystem) (getGuid (exampleEntities 2)))"
    by (simp add: othersOf_def emptySystem_def constructor_def)
  show "inj_on (\<lambda>e. getGuid (exampleEntities e)) (set (entitiesOf [contactManifold]))"
    by (simp add: entitiesOf_def bodyEntities_def contactManifold_def exampleEntities_def)
qed



text \<open>
  C3 as stated fails. Entity 2 stays inside the trigger volume of entity 1: the pair
  is in the previous record and in the frame record of the step, and nothing at all
  is fired, although entity 1 listens for \<open>contact\<close>.
\<close>

theorem contact_on_steady_pair_counterexample:
  "othersOf (collisions insideTriggerSystem) ''guid-1'' = [2]
   \<and> othersOf (frameCollisions (checkForCollisions exampleEntities 4 [triggerManifold] insideTriggerSystem)) ''guid-1'' = [2]
   \<and> fired (checkForCollisions exampleEntities 4 [triggerManifold] insideTriggerSystem) = []"
  by (simp add: step_defs example_defs notion_defs)

text \<open>
  The theorem at the bodies of entities 2 and 3, which touched in the previous step
  and still touch.
\<close>

theorem contact_on_steady_pair_witness:
  "\<not> fst (storeCollision exampleEntities 2 3 touchingSystem) \<and>
   firedOnComponents exampleEntities 2 ''contact'' 3
     (firedSince (length (fired touchingSystem))
        (checkForCollisions exampleEntities 4 [contactManifold] touchingSystem)) \<and>
   \<not> (\<exists>x \<in> set (firedSince (length (fired touchingSystem))
                 (checkForCollisions exampleEntities 4 [contactManifold] touchingSystem)).
      firedOn (OnCollision 2) ''collisionstart'' 3 x \<or>
      firedOn (OnRigidbody 2) ''collisionstart'' 3 x \<or>
      firedOn (OnCollision 2) ''collisionend'' 3 x \<or>
      firedOn (OnRigidbody 2) ''collisionend'' 3 x) \<and>
   3 \<in> set (othersOf (collisions (checkForCollisions exampleEntities 4 [contactManifold] touchingSystem))
              (getGuid (exampleEntities 2)))"
proof -
  have 1: "contactManifold \<in> set [contactManifold]" by simp
  have 2: "pairs contactManifold 2 3" by (simp add: pairs_def contactManifold_def)
  have 3: "contactPoints contactManifold \<noteq> []" by (simp add: contactManifold_def)
  have 4: "\<not> flagged 4 contactManifold"
    by (simp add: flagged_def noResponse_def contactManifold_def)
  have 5: "hasContactEvent exampleEntities 2" by (simp add: hasContactEvent_def exampleEntities_def)
  have 6: "3 \<in> set (othersOf (collisions touchingSystem) (getGuid (exampleEntities 2)))"
    by (simp add: othersOf_def touchingSystem_def constructor_def exampleEntities_def)
  have 7: "keyed exampleEntities touchingSystem"
    by (simp add: keyed_def touchingSystem_def constructor_def exampleEntities_def)
  show ?thesis using contact_on_steady_pair[OF 1 2 3 4 5 6 7] by blast
qed

text \<open>
  C4 as stated fails. The body of entity 5 carries the no-response flag and entity 5
  is no trigger: the pair with entity 2 gets \<open>triggerenter\<close> when the bodies overlap
  and \<open>collisionend\<close>, not \<open>triggerleave\<close>, in the step in which they no longer do. The
  body of entity 6 inside the trigger volume of entity 7: in the first step the pair
  is stored under entity 6 and \<open>triggerenter\<close> is fired on its rigidbody component; in
  the second step, with the pair in the record, \<open>triggerenter\<close> is fired on it again.
  And when no component listens for \<open>triggerenter\<close> or \<open>triggerleave\<close>, the pair of a
  trigger volume and a body is neither stored nor reported.
\<close>

theorem trigger_pair_events_counterexample:
  "flagged 4 flaggedBodyManifold
   \<and> fired (checkForCollisions exampleEntities 4 []
              (checkForCollisions exampleEntities 4 [flaggedBodyManifold] emptySystem)) =
        [Fired (OnCollision 5) ''triggerenter'' (ArgEntity 2),
         Fired (OnCollision 5) ''collisionend'' (ArgEntity 2)]
   \<and> fired (checkForCollisions exampleEntities 4 [listenerManifold] emptySystem) =
        [Fired (OnRigidbody 6) ''triggerenter'' (ArgEntity 7)]
   \<and> othersOf (collisions (checkForCollisions exampleEntities 4 [listenerManifold] emptySystem)) ''guid-6'' = [7]
   \<and> fired (checkForCollisions exampleEntities 4 [listenerManifold]
              (checkForCollisions exampleEntities 4 [listenerManifold] emptySystem)) =
        [Fired (OnRigidbody 6) ''triggerenter'' (ArgEntity 7),
         Fired (OnRigidbody 6) ''triggerenter'' (ArgEntity 7)]
   \<and> flagged 4 unheardManifold
   \<and> checkForCollisions exampleEntities 4 [unheardManifold] emptySystem = emptySystem"
proof -
  have f: "flagged 4 flaggedBodyManifold" "flagged 4 unheardManifold"
    by (simp_all add: flagged_def noResponse_def flaggedBodyManifold_def unheardManifold_def)
  have a: "fired (checkForCollisions exampleEntities 4 []
              (checkForCollisions exampleEntities 4 [flaggedBodyManifold] emptySystem)) =
        [Fired (OnCollision 5) ''triggerenter'' (ArgEntity 2),
         Fired (OnCollision 5) ''collisionend'' (ArgEntity 2)]"
    by (simp add: step_defs example_defs flaggedBodyManifold_def)
  have b: "fired (checkForCollisions exampleEntities 4 [listenerManifold] emptySystem) =
        [Fired (OnRigidbody 6) ''triggerenter'' (ArgEntity 7)]"
    "othersOf (collisions (checkForCollisions exampleEntities 4 [listenerManifold] emptySystem)) ''guid-6'' = [7]"
    by (simp_all add: step_defs example_defs listenerManifold_def othersOf_def)
  have c: "fired (checkForCollisions exampleEntities 4 [listenerManifold]
              (checkForCollisions exampleEntities 4 [listenerManifold] emptySystem)) =
        [Fired (OnRigidbody 6) ''triggerenter'' (ArgEntity 7),
         Fired (OnRigidbody 6) ''triggerenter'' (ArgEntity 7)]"
    by (simp add: step_defs example_defs listenerManifold_def)
  have d: "checkForCollisions exampleEntities 4 [unheardManifold] emptySystem = emptySystem"
    by (simp add: step_defs example_defs unheardManifold_def)
  show ?thesis
    by (intro conjI) (rule f a b c d)+
qed

text \<open>
  The theorem at the body of entity 2 entering the trigger volume of entity 1, which
  listens on its collision component; at the body of entity 6 entering the trigger
  volume of entity 7, where \<open>triggerenter\<close> is fired on the rigidbody component of
  entity 6 and not on its collision component; and at the step in which entity 2 has
  left the trigger volume of entity 1: the pair is removed, \<open>triggerleave\<close> is fired on
  both and \<open>collisionend\<close> on neither.
\<close>

theorem trigger_pair_events_witness:
  "(\<exists>x \<in> set (firedSince (length (fired emptySystem))
                 (checkManifold exampleEntities 4 emptySystem triggerManifold)).
      firedOn (OnCollision 1) ''triggerenter'' 2 x)
   \<and> recorded exampleEntities (collisions (checkManifold exampleEntities 4 emptySystem triggerManifold)) 1 2
   \<and> recorded exampleEntities (frameCollisions (checkManifold exampleEntities 4 emptySystem triggerManifold)) 1 2
   \<and> \<not> (\<exists>x \<in> set (firedSince (length (fired emptySystem))
                 (checkManifold exampleEntities 4 emptySystem listenerManifold)).
      firedName x \<noteq> ''triggerenter'')
   \<and> (\<exists>x \<in> set (firedSince (length (fired emptySystem))
                 (checkManifold exampleEntities 4 emptySystem listenerManifold)).
      firedOn (OnRigidbody 6) ''triggerenter'' 7 x)
   \<and> \<not> (\<exists>x \<in> set (firedSince (length (fired emptySystem))
                 (checkManifold exampleEntities 4 emptySystem listenerManifold)).
      firedOn (OnCollision 6) ''triggerenter'' 7 x)
   \<and> recorded exampleEntities (collisions (checkManifold exampleEntities 4 emptySystem listenerManifold)) 6 7
   \<and> 2 \<notin> set (othersOf (collisions
                 (checkForCollisions exampleEntities 4 [separatedManifold] insideTriggerSystem)) ''guid-1'')
   \<and> (\<exists>x \<in> set (firedSince (length (fired insideTriggerSystem))
                    (checkForCollisions exampleEntities 4 [separatedManifold] insideTriggerSystem)).
         firedOn (OnCollision 1) ''triggerleave'' 2 x)
   \<and> (\<exists>x \<in> set (firedSince (length (fired insideTriggerSystem))
                    (checkForCollisions exampleEntities 4 [separatedManifold] insideTriggerSystem)).
         firedOn (OnRigidbody 2) ''triggerleave'' 1 x)
   \<and> \<not> (\<exists>x \<in> set (firedSince (length (fired insideTriggerSystem))
                    (checkForCollisions exampleEntities 4 [separatedManifold] insideTriggerSystem)).
         firedOn (OnCollision 1) ''collisionend'' 2 x \<or> firedOn (OnRigidbody 2) ''collisionend'' 1 x)"
proof -
  have h1: "body_entity (getBody0 triggerManifold) = Some 1 \<and> body_entity (getBody1 triggerManifold) = Some 2 \<and>
          contactPoints triggerManifold \<noteq> [] \<and> flagged 4 triggerManifold \<and>
          getGuid (exampleEntities 1) \<noteq> getGuid (exampleEntities 2)"
    by (simp add: triggerManifold_def flagged_def noResponse_def exampleEntities_def)
  have h2: "body_entity (getBody0 listenerManifold) = Some 7 \<and> body_entity (getBody1 listenerManifold) = Some 6 \<and>
          contactPoints listenerManifold \<noteq> [] \<and> flagged 4 listenerManifold \<and>
          getGuid (exampleEntities 7) \<noteq> getGuid (exampleEntities 6)"
    by (simp add: listenerManifold_def flagged_def noResponse_def exampleEntities_def)
  have h3: "(trigger (exampleEntities 1) \<or> trigger (exampleEntities 2)) \<and>
            (\<forall>m' \<in> set [separatedManifold]. pairs m' 1 2 \<longrightarrow> flagged 4 m')"
    by (simp add: exampleEntities_def flagged_def noResponse_def separatedManifold_def)
  have h4: "map_of (collisions insideTriggerSystem) ''guid-1'' = Some \<lparr>others = [2], entity = 1\<rparr>
      \<and> trigger (exampleEntities (entity \<lparr>others = [2], entity = 1\<rparr>))
      \<and> 2 \<in> set (others \<lparr>others = [2], entity = 1\<rparr>)
      \<and> 2 \<notin> set (othersOf (frameCollisions
             (checkForCollisions exampleEntities 4 [separatedManifold] insideTriggerSystem)) ''guid-1'')"
    by (simp add: step_defs example_defs notion_defs)
  have v: "hasTriggerEvents (collision (exampleEntities 1))"
    "hasTriggerEvents (collision (exampleEntities 6))"
    "hasTriggerEvents (rigidbody (exampleEntities 6))"
    "\<not> recorded exampleEntities (collisions emptySystem) 1 2"
    "\<not> recorded exampleEntities (collisions emptySystem) 6 7"
    "\<not> recorded exampleEntities (collisions emptySystem) 7 6"
    "\<not> noResponse 4 (getCollisionFlags (getBody1 triggerManifold))"
    "noResponse 4 (getCollisionFlags (getBody0 listenerManifold))"
    "collision (exampleEntities 1) \<noteq> None" "rigidbody (exampleEntities 2) \<noteq> None"
    by (simp_all add: hasTriggerEvents_def exampleEntities_def recorded_def othersOf_def emptySystem_def
        constructor_def noResponse_def triggerManifold_def listenerManifold_def)
  note T1 = trigger_pair_events[where E = exampleEntities and F = 4 and m = triggerManifold
      and ?e0.0 = 1 and ?e1.0 = 2 and t = emptySystem, THEN conjunct1, rule_format, OF h1, unfolded Let_def]
  note T2 = trigger_pair_events[where E = exampleEntities and F = 4 and m = listenerManifold
      and ?e0.0 = 7 and ?e1.0 = 6 and t = emptySystem, THEN conjunct1, rule_format, OF h2, unfolded Let_def]
  note T3 = trigger_pair_events[where E = exampleEntities and F = 4 and a = 1 and b = 2
      and manifolds = "[separatedManifold]" and s = insideTriggerSystem,
      THEN conjunct2, THEN conjunct1, THEN mp, OF h3]
  note T4 = trigger_pair_events[where E = exampleEntities and F = 4 and g = "''guid-1''"
      and c = "\<lparr>others = [2], entity = 1\<rparr>" and oth = 2
      and manifolds = "[separatedManifold]" and s = insideTriggerSystem,
      THEN conjunct2, THEN conjunct2, THEN mp, OF h4]
  have a: "\<exists>x \<in> set (firedSince (length (fired emptySystem))
                 (checkManifold exampleEntities 4 emptySystem triggerManifold)).
      firedOn (OnCollision 1) ''triggerenter'' 2 x"
    "recorded exampleEntities (collisions (checkManifold exampleEntities 4 emptySystem triggerManifold)) 1 2"
    "recorded exampleEntities (frameCollisions (checkManifold exampleEntities 4 emptySystem triggerManifold)) 1 2"
    using T1 v(1,4,7) by blast+
  have b: "\<not> (\<exists>x \<in> set (firedSince (length (fired emptySystem))
                 (checkManifold exampleEntities 4 emptySystem listenerManifold)).
      firedName x \<noteq> ''triggerenter'')"
    "\<exists>x \<in> set (firedSince (length (fired emptySystem))
                 (checkManifold exampleEntities 4 emptySystem listenerManifold)).
      firedOn (OnRigidbody 6) ''triggerenter'' 7 x"
    "\<not> (\<exists>x \<in> set (firedSince (length (fired emptySystem))
                 (checkManifold exampleEntities 4 emptySystem listenerManifold)).
      firedOn (OnCollision 6) ''triggerenter'' 7 x)"
    "recorded exampleEntities (collisions (checkManifold exampleEntities 4 emptySystem listenerManifold)) 6 7"
    using T2 v(2,3,5,6,8) by blast+
  have c: "2 \<notin> set (othersOf (collisions
                 (checkForCollisions exampleEntities 4 [separatedManifold] insideTriggerSystem)) ''guid-1'')"
    "\<exists>x \<in> set (firedSince (length (fired insideTriggerSystem))
                    (checkForCollisions exampleEntities 4 [separatedManifold] insideTriggerSystem)).
         firedOn (OnCollision 1) ''triggerleave'' 2 x"
    "\<exists>x \<in> set (firedSince (length (fired insideTriggerSystem))
                    (checkForCollisions exampleEntities 4 [separatedManifold] insideTriggerSystem)).
         firedOn (OnRigidbody 2) ''triggerleave'' 1 x"
    using T4 v(9,10) by simp_all
  have d: "\<not> (\<exists>x \<in> set (firedSince (length (fired insideTriggerSystem))
                    (checkForCollisions exampleEntities 4 [separatedManifold] insideTriggerSystem)).
         firedOn (OnCollision 1) ''collisionend'' 2 x \<or> firedOn (OnRigidbody 2) ''collisionend'' 1 x)"
    using T3 by fastforce
  show ?thesis
    by (intro conjI) (rule a b c d)+
qed

text \<open>
  C5 as stated fails. For a pair the persistent record already holds,
  \<open>_storeCollision\<close> appends to the frame entry only: the persistent entry of entity 1
  is \<open>[2]\<close> before and after the call, while the frame entry becomes \<open>[2, 2]\<close>.
\<close>

theorem storeCollision_record_counterexample:
  "othersOf (collisions insideTriggerSystem) (getGuid (exampleEntities 1)) = [2]
   \<and> othersOf (collisions (snd (storeCollision exampleEntities 1 2 insideTriggerSystem)))
        (getGuid (exampleEntities 1)) = [2]
   \<and> othersOf (frameCollisions (snd (storeCollision exampleEntities 1 2 insideTriggerSystem)))
        (getGuid (exampleEntities 1)) = [2, 2]"
  by (simp add: step_defs example_defs notion_defs)

text \<open>
  The theorem at a new pair and at a pair already recorded.
\<close>

theorem storeCollision_record_witness:
  "othersOf (frameCollisions (snd (storeCollision exampleEntities 2 3 emptySystem))) ''guid-2'' = [3]
   \<and> othersOf (collisions (snd (storeCollision exampleEntities 2 3 emptySystem))) ''guid-2'' = [3]
   \<and> fst (storeCollision exampleEntities 2 3 emptySystem)
   \<and> othersOf (collisions (snd (storeCollision exampleEntities 1 2 insideTriggerSystem))) ''guid-1'' = [2]
   \<and> \<not> fst (storeCollision exampleEntities 1 2 insideTriggerSystem)
   \<and> checkForCollisions exampleEntities 4 [contactManifold] (emptySystem\<lparr>frameCollisions := collisions touchingSystem\<rparr>)
       = checkForCollisions exampleEntities 4 [contactManifold] emptySystem"
  using storeCollision_record[where E = exampleEntities and F = 4 and manifolds = "[contactManifold]"
      and s = emptySystem and fc = "collisions touchingSystem" and ent = 2 and oth = 3]
    storeCollision_record[where E = exampleEntities and F = 4 and manifolds = "[contactManifold]"
      and s = insideTriggerSystem and fc = "[]" and ent = 1 and oth = 2]
  by (simp add: exampleEntities_def emptySystem_def constructor_def insideTriggerSystem_def constructor_def othersOf_def)

text \<open>
  The theorem at a step in which the bodies of entities 2 and 3 touch and entity 2
  has left the trigger volume of entity 1: the entry of entity 2 is non-empty and the
  entry of entity 1 is gone.
\<close>

theorem collisions_entries_nonempty_witness:
  "map_of (collisions (checkForCollisions exampleEntities 4 [contactManifold] insideTriggerSystem)) ''guid-2''
     = Some \<lparr>others = [3], entity = 2\<rparr>
   \<and> others \<lparr>others = [3], entity = 2\<rparr> \<noteq> []
   \<and> map_of (collisions (checkForCollisions exampleEntities 4 [contactManifold] insideTriggerSystem)) ''guid-1''
     = None"
proof -
  have 1: "map_of (collisions (checkForCollisions exampleEntities 4 [contactManifold] insideTriggerSystem)) ''guid-2''
     = Some \<lparr>others = [3], entity = 2\<rparr>"
    by (simp add: step_defs example_defs)
  have 2: "map_of (collisions (checkForCollisions exampleEntities 4 [contactManifold] insideTriggerSystem)) ''guid-1''
     = None"
    by (simp add: step_defs example_defs)
  from collisions_entries_nonempty[where E = exampleEntities and F = 4 and manifolds = "[contactManifold]"
      and s = insideTriggerSystem and ent = 2 and oth = 3, THEN conjunct1, rule_format, OF 1]
  have "others \<lparr>others = [3], entity = 2\<rparr> \<noteq> []" .
  then show ?thesis using 1 2 by simp
qed

text \<open>
  The theorem at one update of a new system on an old ammo.js, and at a run of two
  frames of a new system on a current one.
\<close>

theorem onUpdate_stepSimulation_once_witness:
  "dynamicsWorld (onLibraryLoaded (Some legacyAmmo) emptySystem) =
     Some \<lparr>setInternalTickCallback = False, internalTickCallback = False\<rparr> \<and>
   (\<exists>s'. onUpdate exampleEntities 4 exactNumber exampleFrame (1 / 30)
            (onLibraryLoaded (Some legacyAmmo) emptySystem) = Inr s' \<and>
          filter isStepSimulation (newCalls (onLibraryLoaded (Some legacyAmmo) emptySystem) s') =
            [StepSimulation (1 / 30) 10 (1 / 60)]) \<and>
   (\<exists>s'. runFrames exampleEntities 4 exactNumber [(exampleFrame, 1 / 30), (exampleFrame, 1 / 50)]
            (onLibraryLoaded (Some modernAmmo) constructor) = Inr s' \<and>
          filter isStepSimulation (calls s') =
            [StepSimulation (1 / 30) 10 (1 / 60), StepSimulation (1 / 50) 10 (1 / 60)])"
proof -
  have w: "dynamicsWorld (onLibraryLoaded (Some legacyAmmo) emptySystem) =
     Some \<lparr>setInternalTickCallback = False, internalTickCallback = False\<rparr>"
    "maxSubSteps (onLibraryLoaded (Some legacyAmmo) emptySystem) = 10"
    "fixedTimeStep (onLibraryLoaded (Some legacyAmmo) emptySystem) = 1 / 60"
    by (simp_all add: onLibraryLoaded_def legacyAmmo_def emptySystem_def constructor_def called_def Let_def)
  note T = onUpdate_stepSimulation_once[where s = "onLibraryLoaded (Some legacyAmmo) emptySystem"
      and w = "\<lparr>setInternalTickCallback = False, internalTickCallback = False\<rparr>"
      and E = exampleEntities and F = 4 and J = exactNumber and frame = exampleFrame and dt = "1 / 30"
      and frames = "[(exampleFrame, 1 / 30), (exampleFrame, 1 / 50)]" and A = modernAmmo]
  from T w show ?thesis by simp
qed

text \<open>
  C7 as stated fails: the guards it lists are not all there is. The body of entity 2,
  which listens for \<open>contact\<close>, touches a body without an entity: the manifold is
  passed over, nothing is stored, fired, logged or thrown. And when \<open>Ammo\<close> is not
  defined, \<open>onLibraryLoaded\<close> creates no dynamics world and unbinds \<open>onUpdate\<close>, again
  without a report.
\<close>

theorem feature_detection_guards_counterexample:
  "contactPoints orphanManifold = [examplePoint]
   \<and> hasContactEvent exampleEntities 2
   \<and> checkForCollisions exampleEntities 4 [orphanManifold] emptySystem = emptySystem
   \<and> calls (onLibraryLoaded None emptySystem) = [SystemsOff]
   \<and> dynamicsWorld (onLibraryLoaded None emptySystem) = None"
  by (simp add: step_defs example_defs orphanManifold_def onLibraryLoaded_def called_def)

text \<open>
  The theorem at a system loaded on a current ammo.js, which registers the callback,
  has it run at both internal ticks of the frame and returns from a ray cast; at a
  system loaded on an old ammo.js, which checks for collisions after the step and
  throws in its casts after the assertion; at a system that was never loaded, whose
  shape test throws right after the assertion; and at the manifold with a body
  without an entity.
\<close>

theorem feature_detection_guards_witness:
  "(\<exists>s'. onUpdate exampleEntities 4 exactNumber exampleFrame (1 / 60)
            (onLibraryLoaded (Some modernAmmo) emptySystem) = Inr s' \<and>
          filter stepOrCheck (newCalls (onLibraryLoaded (Some modernAmmo) emptySystem) s') =
            [StepSimulation (1 / 60) 10 (1 / 60), InternalTick, InternalTick]) \<and>
   (\<exists>s'. onUpdate exampleEntities 4 exactNumber exampleFrame (1 / 60)
            (onLibraryLoaded (Some legacyAmmo) emptySystem) = Inr s' \<and>
          filter stepOrCheck (newCalls (onLibraryLoaded (Some legacyAmmo) emptySystem) s') =
            [StepSimulation (1 / 60) 10 (1 / 60), CheckForCollisions]) \<and>
   SetInternalTickCallback \<in> set (newCalls emptySystem (onLibraryLoaded (Some modernAmmo) emptySystem)) \<and>
   DebugWarn \<in> set (newCalls emptySystem (onLibraryLoaded (Some legacyAmmo) emptySystem)) \<and>
   newCalls (onLibraryLoaded (Some modernAmmo) emptySystem)
     (snd (raycastAll modernAmmo (Vec3 0 0 0) (Vec3 0 0 4) \<lparr>hasHit = False, rayHits = []\<rparr>
             (onLibraryLoaded (Some modernAmmo) emptySystem)))
     = [DebugAssert True, New ''AllHitsRayResultCallback'', RayTest, Destroy ''rayCallback''] \<and>
   (\<exists>results. fst (raycastAll modernAmmo (Vec3 0 0 0) (Vec3 0 0 4) \<lparr>hasHit = False, rayHits = []\<rparr>
                      (onLibraryLoaded (Some modernAmmo) emptySystem)) = Inr results) \<and>
   newCalls (onLibraryLoaded (Some legacyAmmo) emptySystem)
     (snd (raycastAll legacyAmmo (Vec3 0 0 0) (Vec3 0 0 4) \<lparr>hasHit = False, rayHits = []\<rparr>
             (onLibraryLoaded (Some legacyAmmo) emptySystem)))
     = [DebugAssert False] \<and>
   fst (raycastAll legacyAmmo (Vec3 0 0 0) (Vec3 0 0 4) \<lparr>hasHit = False, rayHits = []\<rparr>
          (onLibraryLoaded (Some legacyAmmo) emptySystem)) = Inl TypeError \<and>
   newCalls (onLibraryLoaded (Some legacyAmmo) emptySystem)
     (snd (private_shapeTest legacyAmmo (BtBoxShape (Vec3 1 1 1)) (Vec3 0 0 2) (AsQuat (Quat 0 0 0 1)) []
             (onLibraryLoaded (Some legacyAmmo) emptySystem)))
     = [DebugAssert False, CreateBody, SetCollisionShape (Some (BtBoxShape (Vec3 1 1 1))),
        SetWorldTransform (Vec3 0 0 2) (AsQuat (Quat 0 0 0 1)), ForceActivationState] \<and>
   fst (private_shapeTest legacyAmmo (BtBoxShape (Vec3 1 1 1)) (Vec3 0 0 2) (AsQuat (Quat 0 0 0 1)) []
          (onLibraryLoaded (Some legacyAmmo) emptySystem)) = Inl TypeError \<and>
   newCalls emptySystem
     (snd (private_shapeTest modernAmmo (BtBoxShape (Vec3 1 1 1)) (Vec3 0 0 2) (AsQuat (Quat 0 0 0 1)) []
             emptySystem))
     = [DebugAssert True] \<and>
   fst (private_shapeTest modernAmmo (BtBoxShape (Vec3 1 1 1)) (Vec3 0 0 2) (AsQuat (Quat 0 0 0 1)) []
          emptySystem) = Inl TypeError \<and>
   checkManifold exampleEntities 4 touchingSystem orphanManifold = touchingSystem"
proof -
  let ?M = "onLibraryLoaded (Some modernAmmo) emptySystem"
  let ?L = "onLibraryLoaded (Some legacyAmmo) emptySystem"
  have m: "has_setInternalTickCallback modernAmmo" "has_AllHitsRayResultCallback modernAmmo"
    "has_ConcreteContactResultCallback modernAmmo"
    by (simp_all add: modernAmmo_def)
  have l: "\<not> has_setInternalTickCallback legacyAmmo" "\<not> has_AllHitsRayResultCallback legacyAmmo"
    "\<not> has_ConcreteContactResultCallback legacyAmmo"
    by (simp_all add: legacyAmmo_def)
  have e: "maxSubSteps emptySystem = 10" "fixedTimeStep emptySystem = 1 / 60"
    "length (internalTicks exampleFrame) = 2" "dynamicsWorld emptySystem = None"
    by (simp_all add: emptySystem_def constructor_def exampleFrame_def)
  have w: "dynamicsWorld ?M \<noteq> None" "dynamicsWorld ?L \<noteq> None" "\<not> shapeTestBody ?L"
    by (simp_all add: onLibraryLoaded_def Let_def called_def emptySystem_def constructor_def)
  have o: "body_entity (getBody0 orphanManifold) = None \<or> body_entity (getBody1 orphanManifold) = None"
    by (simp add: orphanManifold_def)
  note M = feature_detection_guards[where A = modernAmmo and s = emptySystem and E = exampleEntities
      and F = 4 and J = exactNumber and frame = exampleFrame and dt = "1 / 60", unfolded Let_def]
  note L = feature_detection_guards[where A = legacyAmmo and s = emptySystem and E = exampleEntities
      and F = 4 and J = exactNumber and frame = exampleFrame and dt = "1 / 60", unfolded Let_def]
  note RM = feature_detection_guards[where A = modernAmmo and s = "?M"
      and rayStart = "Vec3 0 0 0" and rayEnd = "Vec3 0 0 4" and answer = "\<lparr>hasHit = False, rayHits = []\<rparr>"]
  note RL = feature_detection_guards[where A = legacyAmmo and s = "?L"
      and rayStart = "Vec3 0 0 0" and rayEnd = "Vec3 0 0 4" and answer = "\<lparr>hasHit = False, rayHits = []\<rparr>"
      and shape = "BtBoxShape (Vec3 1 1 1)" and position = "Vec3 0 0 2"
      and rotation = "AsQuat (Quat 0 0 0 1)" and found = "[]"]
  note RE = feature_detection_guards[where A = modernAmmo and s = emptySystem
      and shape = "BtBoxShape (Vec3 1 1 1)" and position = "Vec3 0 0 2"
      and rotation = "AsQuat (Quat 0 0 0 1)" and found = "[]"
      and E = exampleEntities and F = 4 and t = touchingSystem and m = orphanManifold]
  from M m have M1: "\<exists>s'. onUpdate exampleEntities 4 exactNumber exampleFrame (1 / 60) ?M = Inr s' \<and>
          filter stepOrCheck (newCalls ?M s') =
            [StepSimulation (1 / 60) 10 (1 / 60), InternalTick, InternalTick]"
    unfolding e by (simp add: numeral_2_eq_2)
  from M m have M2: "SetInternalTickCallback \<in> set (newCalls emptySystem ?M)"
    by blast
  from L l have L1: "\<exists>s'. onUpdate exampleEntities 4 exactNumber exampleFrame (1 / 60) ?L = Inr s' \<and>
          filter stepOrCheck (newCalls ?L s') =
            [StepSimulation (1 / 60) 10 (1 / 60), CheckForCollisions]"
    unfolding e by simp
  from L l have L2: "DebugWarn \<in> set (newCalls emptySystem ?L)"
    by blast
  from RM m w have R1: "newCalls ?M
     (snd (raycastAll modernAmmo (Vec3 0 0 0) (Vec3 0 0 4) \<lparr>hasHit = False, rayHits = []\<rparr> ?M))
     = [DebugAssert True, New ''AllHitsRayResultCallback'', RayTest, Destroy ''rayCallback'']"
    "\<exists>results. fst (raycastAll modernAmmo (Vec3 0 0 0) (Vec3 0 0 4) \<lparr>hasHit = False, rayHits = []\<rparr> ?M)
        = Inr results"
    by simp_all
  from RL l w have R2: "newCalls ?L
     (snd (raycastAll legacyAmmo (Vec3 0 0 0) (Vec3 0 0 4) \<lparr>hasHit = False, rayHits = []\<rparr> ?L))
     = [DebugAssert False]"
    "fst (raycastAll legacyAmmo (Vec3 0 0 0) (Vec3 0 0 4) \<lparr>hasHit = False, rayHits = []\<rparr> ?L)
       = Inl TypeError"
    "newCalls ?L
     (snd (private_shapeTest legacyAmmo (BtBoxShape (Vec3 1 1 1)) (Vec3 0 0 2) (AsQuat (Quat 0 0 0 1)) [] ?L))
     = [DebugAssert False, CreateBody, SetCollisionShape (Some (BtBoxShape (Vec3 1 1 1))),
        SetWorldTransform (Vec3 0 0 2) (AsQuat (Quat 0 0 0 1)), ForceActivationState]"
    "fst (private_shapeTest legacyAmmo (BtBoxShape (Vec3 1 1 1)) (Vec3 0 0 2) (AsQuat (Quat 0 0 0 1)) [] ?L)
       = Inl TypeError"
    by simp_all
  from RE m e(4) o have R3: "newCalls emptySystem
     (snd (private_shapeTest modernAmmo (BtBoxShape (Vec3 1 1 1)) (Vec3 0 0 2) (AsQuat (Quat 0 0 0 1)) []
             emptySystem))
     = [DebugAssert True]"
    "fst (private_shapeTest modernAmmo (BtBoxShape (Vec3 1 1 1)) (Vec3 0 0 2) (AsQuat (Quat 0 0 0 1)) []
          emptySystem) = Inl TypeError"
    "checkManifold exampleEntities 4 touchingSystem orphanManifold = touchingSystem"
    by simp_all
  show ?thesis
    by (intro conjI) (rule M1 M2 L1 L2 R1 R2 R3)+
qed

lemma euclid_example: "euclid (Vec3 0 0 0) (Vec3 0 0 4) = 4"
proof -
  have "sqrt (4\<^sup>2) = (4 :: real)" by (rule real_sqrt_unique) simp_all
  then show ?thesis by simp
qed

text \<open>
  The theorem at a box of half extents \<open>(1, 1, 1)\<close> and a sphere cast from
  \<open>(0, 0, 0)\<close> to \<open>(0, 0, 4)\<close>, on a system whose library is loaded: the half extents
  become \<open>(1, 1, 3)\<close>, the start \<open>(0, 0, 2)\<close>, and the end stays.
\<close>

theorem casts_mutate_arguments_witness:
  "fst (boxCast modernAmmo euclid noTurn [] 0 1 2 (exampleVectors, loadedSystem)) 0 = Vec3 1 1 3 \<and>
   fst (boxCast modernAmmo euclid noTurn [] 0 1 2 (exampleVectors, loadedSystem)) 1 = Vec3 0 0 2 \<and>
   fst (boxCast modernAmmo euclid noTurn [] 0 1 2 (exampleVectors, loadedSystem)) 2 = Vec3 0 0 4 \<and>
   fst (sphereCast modernAmmo euclid noTurn [] 1 1 2 (exampleVectors, loadedSystem)) 1 = Vec3 0 0 2 \<and>
   fst (sphereCast modernAmmo euclid noTurn [] 1 1 2 (exampleVectors, loadedSystem)) 2 = Vec3 0 0 4"
proof -
  have v: "exampleVectors 0 = Vec3 1 1 1" "exampleVectors (Suc 0) = Vec3 0 0 0" "exampleVectors 2 = Vec3 0 0 4"
    by (simp_all add: exampleVectors_def)
  note T = casts_mutate_arguments[where halfExtents = 0 and start = 1 and endv = 2
      and A = modernAmmo and distance = euclid and lookAt = noTurn and found = "[]"
      and V = exampleVectors and s = loadedSystem and radius = 1]
  have d: "(0 :: nat) \<noteq> 1 \<and> (0 :: nat) \<noteq> 2 \<and> (1 :: nat) \<noteq> 2" by simp
  from T d have B: "case boxCast modernAmmo euclid noTurn [] 0 1 2 (exampleVectors, loadedSystem) of
               (V', result) \<Rightarrow>
                 V' 0 = vec3_addZ (exampleVectors 0) (euclid (exampleVectors 1) (exampleVectors 2) / 2) \<and>
                 V' 1 = vec3_divScalar (vec3_add (exampleVectors 1) (exampleVectors 2)) 2 \<and>
                 V' 2 = exampleVectors 2"
    by (simp add: case_prod_unfold)
  from T d have S: "case sphereCast modernAmmo euclid noTurn [] 1 1 2 (exampleVectors, loadedSystem) of
               (V', result) \<Rightarrow>
                 V' 1 = vec3_divScalar (vec3_add (exampleVectors 1) (exampleVectors 2)) 2 \<and>
                 V' 2 = exampleVectors 2"
    by (simp add: case_prod_unfold)
  from B S show ?thesis
    unfolding case_prod_unfold by (simp add: v euclid_example del: euclid.simps)
qed

end
